(* ===== verification/Ohv_Prelude.thy ===== *)
theory Ohv_Prelude
  imports Main "HOL-Library.Word"
begin

text \<open>
  Shared vocabulary of the development: the machine integer types, the return codes of
  \<open>include/openhyp/ohv_core.h\<close>, single-bit masks, little-endian byte memory (the vCPU
  context pages and the host memory the library reads the guest through are byte arrays,
  accessed at several widths), and the fixed-capacity association arrays that several
  components keep.

  The collections: \<open>hv_codes\<close> (the return codes' numeric values), \<open>layout\<close> (byte offsets
  into the context pages), \<open>masks\<close> (bit masks and other numeric constants).

  The locale \<open>byte_store\<close> is the interface the rest of the development uses memory
  through: 64-bit loads and stores at byte addresses that do not overlap are independent.
\<close>

unbundle bit_operations_syntax

named_theorems hv_codes "numeric values of the return codes"
named_theorems layout "byte offsets into the context pages"
named_theorems masks "bit masks and other numeric constants"

type_synonym u8 = "8 word"
type_synonym u16 = "16 word"
type_synonym u32 = "32 word"
type_synonym u64 = "64 word"

section \<open>Return codes\<close>

text \<open>\<open>hv_return_t\<close> is a C \<open>int\<close>; the codes are the framework's numeric contract,
  and the kernel may answer any other value too.\<close>

type_synonym hv_return = u32

definition OHV_ERR_BASE :: u32 where [hv_codes]: "OHV_ERR_BASE = 0xfae94000"

definition HV_SUCCESS :: hv_return where [hv_codes]: "HV_SUCCESS = 0"
definition HV_ERROR :: hv_return where [hv_codes]: "HV_ERROR = OHV_ERR_BASE OR 0x01"
definition HV_BUSY :: hv_return where [hv_codes]: "HV_BUSY = OHV_ERR_BASE OR 0x02"
definition HV_BAD_ARGUMENT :: hv_return
  where [hv_codes]: "HV_BAD_ARGUMENT = OHV_ERR_BASE OR 0x03"
definition HV_ILLEGAL_GUEST_STATE :: hv_return
  where [hv_codes]: "HV_ILLEGAL_GUEST_STATE = OHV_ERR_BASE OR 0x04"
definition HV_NO_RESOURCES :: hv_return
  where [hv_codes]: "HV_NO_RESOURCES = OHV_ERR_BASE OR 0x05"
definition HV_NO_DEVICE :: hv_return where [hv_codes]: "HV_NO_DEVICE = OHV_ERR_BASE OR 0x06"
definition HV_DENIED :: hv_return where [hv_codes]: "HV_DENIED = OHV_ERR_BASE OR 0x07"
definition HV_FAULT :: hv_return where [hv_codes]: "HV_FAULT = OHV_ERR_BASE OR 0x08"
definition HV_UNSUPPORTED :: hv_return
  where [hv_codes]: "HV_UNSUPPORTED = OHV_ERR_BASE OR 0x0f"

lemma hv_code_distinct [simp]:
  "HV_ERROR \<noteq> HV_SUCCESS" "HV_BUSY \<noteq> HV_SUCCESS" "HV_BAD_ARGUMENT \<noteq> HV_SUCCESS"
  "HV_ILLEGAL_GUEST_STATE \<noteq> HV_SUCCESS" "HV_NO_RESOURCES \<noteq> HV_SUCCESS"
  "HV_NO_DEVICE \<noteq> HV_SUCCESS" "HV_DENIED \<noteq> HV_SUCCESS" "HV_FAULT \<noteq> HV_SUCCESS"
  "HV_UNSUPPORTED \<noteq> HV_SUCCESS"
  "HV_SUCCESS \<noteq> HV_ERROR" "HV_SUCCESS \<noteq> HV_BUSY" "HV_SUCCESS \<noteq> HV_BAD_ARGUMENT"
  "HV_SUCCESS \<noteq> HV_ILLEGAL_GUEST_STATE" "HV_SUCCESS \<noteq> HV_NO_RESOURCES"
  "HV_SUCCESS \<noteq> HV_NO_DEVICE" "HV_SUCCESS \<noteq> HV_DENIED" "HV_SUCCESS \<noteq> HV_FAULT"
  "HV_SUCCESS \<noteq> HV_UNSUPPORTED"
  "HV_BAD_ARGUMENT \<noteq> HV_UNSUPPORTED" "HV_UNSUPPORTED \<noteq> HV_BAD_ARGUMENT"
  "HV_BUSY \<noteq> HV_NO_DEVICE" "HV_NO_DEVICE \<noteq> HV_BUSY"
  "HV_BAD_ARGUMENT \<noteq> HV_NO_DEVICE" "HV_NO_DEVICE \<noteq> HV_BAD_ARGUMENT"
  "HV_BUSY \<noteq> HV_BAD_ARGUMENT" "HV_BAD_ARGUMENT \<noteq> HV_BUSY"
  by (simp_all add: hv_codes)

section \<open>Single bits under a mask\<close>

text \<open>The code sets, clears and tests bits with masks written \<open>1ull << n\<close>; the lemmas
  state such a mask operation as what it does to one bit.\<close>

abbreviation bit_mask :: "nat \<Rightarrow> 'a::len word" where
  "bit_mask n \<equiv> push_bit n 1"

lemma and_bit_mask_eq_0 [simp]:
  fixes w :: "'a::len word"
  shows "w AND bit_mask n = 0 \<longleftrightarrow> \<not> bit w n"
proof
  assume "w AND bit_mask n = 0"
  then have "\<not> bit (w AND bit_mask n) n" by simp
  then show "\<not> bit w n" by (auto simp: bit_simps dest: bit_imp_le_length)
next
  assume "\<not> bit w n"
  then show "w AND bit_mask n = 0"
    by (intro bit_word_eqI) (auto simp: bit_simps bit_1_iff)
qed

lemma bit_or_mask [simp]:
  fixes w :: "'a::len word"
  shows "bit (w OR bit_mask n) m \<longleftrightarrow> bit w m \<or> (m = n \<and> n < LENGTH('a))"
  by (auto simp: bit_simps bit_1_iff)

lemma bit_andnot_mask [simp]:
  fixes w :: "'a::len word"
  shows "bit (w AND NOT (bit_mask n)) m \<longleftrightarrow> bit w m \<and> m \<noteq> n"
  by (auto simp: bit_simps bit_1_iff dest: bit_imp_le_length)

section \<open>Little-endian byte memory\<close>

definition byte_of :: "u64 \<Rightarrow> nat \<Rightarrow> u8" where
  "byte_of v i = ucast (drop_bit (8 * i) v)"

definition le64 :: "(nat \<Rightarrow> u8) \<Rightarrow> u64" where
  "le64 f = ucast (f 0) OR push_bit 8 (ucast (f 1)) OR push_bit 16 (ucast (f 2))
     OR push_bit 24 (ucast (f 3)) OR push_bit 32 (ucast (f 4)) OR push_bit 40 (ucast (f 5))
     OR push_bit 48 (ucast (f 6)) OR push_bit 56 (ucast (f 7))"

definition le32 :: "(nat \<Rightarrow> u8) \<Rightarrow> u32" where
  "le32 f = ucast (f 0) OR push_bit 8 (ucast (f 1)) OR push_bit 16 (ucast (f 2))
     OR push_bit 24 (ucast (f 3))"

definition le16 :: "(nat \<Rightarrow> u8) \<Rightarrow> u16" where
  "le16 f = ucast (f 0) OR push_bit 8 (ucast (f 1))"

lemma no_high_bit: "8 \<le> n \<Longrightarrow> \<not> bit (w :: u8) n"
  using bit_imp_le_length [of w n] by auto

lemma bit_le64_aux:
  assumes "q < 8" "r < 8"
  shows "bit (le64 f) (8 * q + r) = bit (f q) r"
proof -
  from assms(1) consider "q = 0" | "q = 1" | "q = 2" | "q = 3" | "q = 4" | "q = 5" | "q = 6"
    | "q = 7" by linarith
  then show ?thesis
    by cases (use assms(2) in \<open>simp_all add: le64_def bit_simps no_high_bit\<close>)
qed

lemma bit_le64: "bit (le64 f) n \<longleftrightarrow> n < 64 \<and> bit (f (n div 8)) (n mod 8)"
proof (cases "n < 64")
  case True
  have "bit (le64 f) (8 * (n div 8) + n mod 8) = bit (f (n div 8)) (n mod 8)"
    by (rule bit_le64_aux) (use True in auto)
  with True show ?thesis by simp
qed (use bit_imp_le_length [of "le64 f" n] in auto)

lemma bit_le32_aux:
  assumes "q < 4" "r < 8"
  shows "bit (le32 f) (8 * q + r) = bit (f q) r"
proof -
  from assms(1) consider "q = 0" | "q = 1" | "q = 2" | "q = 3" by linarith
  then show ?thesis
    by cases (use assms(2) in \<open>simp_all add: le32_def bit_simps no_high_bit\<close>)
qed

lemma bit_le32: "bit (le32 f) n \<longleftrightarrow> n < 32 \<and> bit (f (n div 8)) (n mod 8)"
proof (cases "n < 32")
  case True
  have "bit (le32 f) (8 * (n div 8) + n mod 8) = bit (f (n div 8)) (n mod 8)"
    by (rule bit_le32_aux) (use True in auto)
  with True show ?thesis by simp
qed (use bit_imp_le_length [of "le32 f" n] in auto)

lemma bit_byte_of: "bit (byte_of v i) j \<longleftrightarrow> j < 8 \<and> bit v (8 * i + j)"
  by (auto simp: byte_of_def bit_simps dest: bit_imp_le_length)

lemma le64_byte_of: "le64 (byte_of v) = v"
  by (rule bit_word_eqI) (simp add: bit_le64 bit_byte_of)

lemma le32_byte_of: "le32 (byte_of v) = ucast v"
  by (rule bit_word_eqI) (auto simp add: bit_le32 bit_byte_of bit_simps)

lemma le64_cong: "(\<And>i. i < 8 \<Longrightarrow> f i = g i) \<Longrightarrow> le64 f = le64 g"
  by (rule bit_word_eqI) (simp add: bit_le64)

lemma le32_cong: "(\<And>i. i < 4 \<Longrightarrow> f i = g i) \<Longrightarrow> le32 f = le32 g"
  by (rule bit_word_eqI) (simp add: bit_le32)

text \<open>Loads and stores at a byte offset of a mapped region.\<close>

type_synonym mem = "nat \<Rightarrow> u8"

definition rd64 :: "mem \<Rightarrow> nat \<Rightarrow> u64" where "rd64 m a = le64 (\<lambda>i. m (a + i))"
definition rd32 :: "mem \<Rightarrow> nat \<Rightarrow> u32" where "rd32 m a = le32 (\<lambda>i. m (a + i))"
definition rd16 :: "mem \<Rightarrow> nat \<Rightarrow> u16" where "rd16 m a = le16 (\<lambda>i. m (a + i))"
definition rd_bytes :: "mem \<Rightarrow> nat \<Rightarrow> nat \<Rightarrow> u8 list"
  where "rd_bytes m a n = map (\<lambda>i. m (a + i)) [0..<n]"

definition wr64 :: "mem \<Rightarrow> nat \<Rightarrow> u64 \<Rightarrow> mem" where
  "wr64 m a v = (\<lambda>x. if a \<le> x \<and> x < a + 8 then byte_of v (x - a) else m x)"
definition wr32 :: "mem \<Rightarrow> nat \<Rightarrow> u32 \<Rightarrow> mem" where
  "wr32 m a v = (\<lambda>x. if a \<le> x \<and> x < a + 4 then byte_of (ucast v) (x - a) else m x)"
definition wr_bytes :: "mem \<Rightarrow> nat \<Rightarrow> u8 list \<Rightarrow> mem" where
  "wr_bytes m a bs = (\<lambda>x. if a \<le> x \<and> x < a + length bs then bs ! (x - a) else m x)"

lemma rd64_wr64_same [simp]: "rd64 (wr64 m a v) a = v"
proof -
  have "rd64 (wr64 m a v) a = le64 (byte_of v)"
    unfolding rd64_def by (rule le64_cong) (simp add: wr64_def)
  then show ?thesis by (simp add: le64_byte_of)
qed

lemma rd32_wr32_same [simp]: "rd32 (wr32 m a v) a = v"
proof -
  have "rd32 (wr32 m a v) a = le32 (byte_of (ucast v))"
    unfolding rd32_def by (rule le32_cong) (simp add: wr32_def)
  also have "\<dots> = v" unfolding le32_byte_of by (rule bit_word_eqI) (simp add: bit_simps)
  finally show ?thesis .
qed

lemma rd_bytes_wr_bytes_same [simp]: "n = length bs \<Longrightarrow> rd_bytes (wr_bytes m a bs) a n = bs"
  by (auto simp: rd_bytes_def wr_bytes_def intro: nth_equalityI)

lemma rd64_wr64_other [simp]:
  "a + 8 \<le> b \<or> b + 8 \<le> a \<Longrightarrow> rd64 (wr64 m a v) b = rd64 m b"
  unfolding rd64_def by (rule le64_cong) (auto simp: wr64_def)
lemma rd64_wr32_other [simp]:
  "a + 4 \<le> b \<or> b + 8 \<le> a \<Longrightarrow> rd64 (wr32 m a v) b = rd64 m b"
  unfolding rd64_def by (rule le64_cong) (auto simp: wr32_def)
lemma rd32_wr64_other [simp]:
  "a + 8 \<le> b \<or> b + 4 \<le> a \<Longrightarrow> rd32 (wr64 m a v) b = rd32 m b"
  unfolding rd32_def by (rule le32_cong) (auto simp: wr64_def)
lemma rd32_wr32_other [simp]:
  "a + 4 \<le> b \<or> b + 4 \<le> a \<Longrightarrow> rd32 (wr32 m a v) b = rd32 m b"
  unfolding rd32_def by (rule le32_cong) (auto simp: wr32_def)
lemma rd64_wr_bytes_other [simp]:
  "a + length bs \<le> b \<or> b + 8 \<le> a \<Longrightarrow> rd64 (wr_bytes m a bs) b = rd64 m b"
  unfolding rd64_def by (rule le64_cong) (auto simp: wr_bytes_def)
lemma rd32_wr_bytes_other [simp]:
  "a + length bs \<le> b \<or> b + 4 \<le> a \<Longrightarrow> rd32 (wr_bytes m a bs) b = rd32 m b"
  unfolding rd32_def by (rule le32_cong) (auto simp: wr_bytes_def)
lemma rd_bytes_wr64_other [simp]:
  "a + 8 \<le> b \<or> b + n \<le> a \<Longrightarrow> rd_bytes (wr64 m a v) b n = rd_bytes m b n"
  by (auto simp: rd_bytes_def wr64_def)
lemma rd_bytes_wr_bytes_other [simp]:
  "a + length bs \<le> b \<or> b + n \<le> a \<Longrightarrow> rd_bytes (wr_bytes m a bs) b n = rd_bytes m b n"
  by (auto simp: rd_bytes_def wr_bytes_def)

text \<open>Storing what is already there changes nothing.\<close>

lemma byte_of_le64: "i < 8 \<Longrightarrow> byte_of (le64 f) i = f i"
  by (rule bit_word_eqI) (simp add: bit_byte_of bit_le64)

lemma wr64_rd64_id [simp]: "wr64 m a (rd64 m a) = m"
  by (rule ext) (auto simp: wr64_def rd64_def byte_of_le64)

lemma wr64_wr64_same [simp]: "wr64 (wr64 m a v) a w = wr64 m a w"
  by (rule ext) (simp add: wr64_def)

text \<open>A 64-bit load is the two 32-bit loads it covers, the higher address in the high half.\<close>

lemma le64_halves: "le64 f = ucast (le32 f) OR push_bit 32 (ucast (le32 (\<lambda>i. f (4 + i))))"
proof (rule bit_word_eqI)
  fix n
  assume "n < LENGTH(64)"
  define q r where "q = n div 8" and "r = n mod 8"
  with \<open>n < LENGTH(64)\<close> have n: "n = 8 * q + r" "q < 8" "r < 8" by auto
  from n(2) consider "q = 0" | "q = 1" | "q = 2" | "q = 3" | "q = 4" | "q = 5" | "q = 6"
    | "q = 7" by linarith
  then show "bit (le64 f) n =
    bit (ucast (le32 f) OR push_bit 32 (ucast (le32 (\<lambda>i. f (4 + i)))) :: u64) n"
    unfolding n(1) by cases
      (use n(3) in \<open>simp_all add: le64_def le32_def bit_or_iff bit_push_bit_iff
        bit_unsigned_iff no_high_bit\<close>)
qed

lemma rd64_halves: "rd64 m a = ucast (rd32 m a) OR push_bit 32 (ucast (rd32 m (a + 4)))"
  unfolding rd64_def rd32_def using le64_halves [of "\<lambda>i. m (a + i)"] by (simp add: add.assoc)

text \<open>Memory that reads zero everywhere, the state a freshly mapped page is in.\<close>

definition zero_mem :: mem where "zero_mem = (\<lambda>_. 0)"

lemma rd_zero_mem [simp]: "rd64 zero_mem a = 0" "rd32 zero_mem a = 0" "rd16 zero_mem a = 0"
  by (simp_all add: rd64_def rd32_def rd16_def le64_def le32_def le16_def zero_mem_def)

subsection \<open>The store interface\<close>

locale byte_store =
  fixes rd :: "'m \<Rightarrow> nat \<Rightarrow> u64"
    and wr :: "'m \<Rightarrow> nat \<Rightarrow> u64 \<Rightarrow> 'm"
  assumes rd_wr_same: "rd (wr m a v) a = v"
    and rd_wr_apart: "a + 8 \<le> b \<or> b + 8 \<le> a \<Longrightarrow> rd (wr m a v) b = rd m b"
begin

fun wr_all :: "'m \<Rightarrow> (nat \<times> u64) list \<Rightarrow> 'm" where
  "wr_all m [] = m"
| "wr_all m ((a, v) # ws) = wr_all (wr m a v) ws"

definition apart :: "nat \<Rightarrow> nat \<Rightarrow> bool" where
  "apart a b \<longleftrightarrow> a + 8 \<le> b \<or> b + 8 \<le> a"

lemma rd_wr_all_frame: "\<forall>w \<in> set ws. apart (fst w) b \<Longrightarrow> rd (wr_all m ws) b = rd m b"
  by (induction ws arbitrary: m) (auto simp: rd_wr_apart apart_def)

lemma rd_wr_all_last:
  "\<forall>w \<in> set ws. apart (fst w) a \<Longrightarrow> rd (wr_all (wr m a v) ws) a = v"
  by (simp add: rd_wr_all_frame rd_wr_same)

lemma rd_slot_wr_slot:
  "rd (wr m (base + 8 * i) v) (base + 8 * j) = (if i = j then v else rd m (base + 8 * j))"
  by (cases "i = j") (auto simp: rd_wr_same intro: rd_wr_apart)

end

interpretation page: byte_store rd64 wr64
  by unfold_locales simp_all

section \<open>Fixed-capacity association arrays\<close>

text \<open>
  Several components keep \<open>struct { key; value } a[N]; unsigned used;\<close> and search it by
  key from the front, appending a zero entry when the key is new and there is room.  The
  list is the used prefix of the array.
\<close>

type_synonym 'k assoc_array = "('k \<times> u64) list"

fun find_key :: "'k \<Rightarrow> 'k assoc_array \<Rightarrow> nat option" where
  "find_key k [] = None"
| "find_key k ((k', v) # es) = (if k' = k then Some 0 else map_option Suc (find_key k es))"

definition claim_key :: "nat \<Rightarrow> 'k \<Rightarrow> 'k assoc_array \<Rightarrow> ('k assoc_array \<times> nat) option" where
  "claim_key cap k es =
     (case find_key k es of
        Some i \<Rightarrow> Some (es, i)
      | None \<Rightarrow> if cap \<le> length es then None else Some (es @ [(k, 0)], length es))"

definition slot_val :: "'k assoc_array \<Rightarrow> nat \<Rightarrow> u64" where
  "slot_val es i = snd (es ! i)"

definition slot_put :: "'k assoc_array \<Rightarrow> nat \<Rightarrow> u64 \<Rightarrow> 'k assoc_array" where
  "slot_put es i v = es[i := (fst (es ! i), v)]"

definition assoc_wf :: "nat \<Rightarrow> 'k assoc_array \<Rightarrow> bool" where
  "assoc_wf cap es \<longleftrightarrow> length es \<le> cap \<and> distinct (map fst es)"

lemma find_key_None: "find_key k es = None \<longleftrightarrow> k \<notin> fst ` set es"
  by (induction k es rule: find_key.induct) auto

lemma find_key_Some: "find_key k es = Some i \<Longrightarrow> i < length es \<and> fst (es ! i) = k"
  by (induction es arbitrary: i) (auto split: if_splits)

lemma find_key_append: "find_key k es = None \<Longrightarrow> find_key k (es @ [(k, v)]) = Some (length es)"
  by (induction es) (auto split: if_splits)

lemma find_key_append_other:
  "find_key k es = Some i \<Longrightarrow> find_key k (es @ xs) = Some i"
  by (induction es arbitrary: i) (auto split: if_splits)

lemma find_key_fst: "map fst es = map fst fs \<Longrightarrow> find_key k es = find_key k fs"
proof (induction es arbitrary: fs)
  case (Cons e es)
  then show ?case by (cases fs; cases e; cases "hd fs") auto
qed simp

lemma map_fst_slot_put [simp]: "map fst (slot_put es i v) = map fst es"
  by (cases "i < length es")
    (simp_all add: slot_put_def map_update list_update_same_conv list_update_beyond)

lemma slot_put_length [simp]: "length (slot_put es i v) = length es"
  by (simp add: slot_put_def)

lemma find_key_slot_put [simp]: "find_key k (slot_put es i v) = find_key k es"
  by (rule find_key_fst) simp

lemma slot_val_slot_put:
  "i < length es \<Longrightarrow> slot_val (slot_put es i v) j = (if i = j then v else slot_val es j)"
  by (auto simp: slot_val_def slot_put_def)

lemma claim_key_Some:
  assumes "claim_key cap k es = Some (fs, i)"
  shows "find_key k fs = Some i" and "i < length fs" and "length fs \<le> max cap (length es)"
  using assms
  by (auto simp: claim_key_def find_key_append split: option.splits if_splits
      dest: find_key_Some)

lemma claim_key_wf:
  assumes "claim_key cap k es = Some (fs, i)" and "assoc_wf cap es"
  shows "assoc_wf cap fs"
  using assms by (auto simp: claim_key_def assoc_wf_def find_key_None split: option.splits if_splits)

lemma assoc_wf_slot_put [simp]: "assoc_wf cap (slot_put es i v) \<longleftrightarrow> assoc_wf cap es"
  by (simp add: assoc_wf_def)

lemma claim_key_again:
  assumes "claim_key cap k es = Some (fs, i)"
  shows "claim_key cap k (slot_put fs i v) = Some (slot_put fs i v, i)"
  using claim_key_Some(1) [OF assms] by (simp add: claim_key_def)

end
