(* ===== verification/Ohv_Context.thy ===== *)
theory Ohv_Context
  imports Ohv_Prelude
begin

text \<open>
  The user-mapped vCPU context of \<open>include/openhyp/ohv_context.h\<close>: two 16 KiB pages, page 0
  the read/write scratch shared with the kernel, page 1 (from offset 0x4000) the kernel's
  exit and state page.

  The context is a byte array (\<open>mem\<close>).  The structs of the header are lists of C fields
  (name, size, alignment) and \<open>c_offsetof\<close> computes the offsets a C compiler gives them; the
  \<open>#define\<close>d offsets are constants of their own.  The header's static assertions are
  theorems here, and so is what it does not assert: the read-only page's struct and the
  read-only page's offsets disagree.
\<close>

section \<open>C struct layout\<close>

type_synonym c_field = "string \<times> nat \<times> nat"

definition align_up :: "nat \<Rightarrow> nat \<Rightarrow> nat" where
  "align_up n a = (n + a - 1) div a * a"

fun c_layout :: "nat \<Rightarrow> c_field list \<Rightarrow> (string \<times> nat) list" where
  "c_layout off [] = []"
| "c_layout off ((f, sz, al) # fs) =
     (f, align_up off al) # c_layout (align_up off al + sz) fs"

fun c_end :: "nat \<Rightarrow> c_field list \<Rightarrow> nat" where
  "c_end off [] = off"
| "c_end off ((f, sz, al) # fs) = c_end (align_up off al + sz) fs"

definition c_offsetof :: "c_field list \<Rightarrow> string \<Rightarrow> nat option" where
  "c_offsetof fs f = map_of (c_layout 0 fs) f"

definition c_alignof :: "c_field list \<Rightarrow> nat" where
  "c_alignof fs = foldr (\<lambda>(f, sz, al) m. max al m) fs 1"

definition c_sizeof :: "c_field list \<Rightarrow> nat" where
  "c_sizeof fs = align_up (c_end 0 fs) (c_alignof fs)"

definition u64_fields :: "string list \<Rightarrow> c_field list" where
  "u64_fields fs = map (\<lambda>f. (f, 8, 8)) fs"

section \<open>The register blocks\<close>

definition ohv_shared_sysregs_t :: "string list" where
  "ohv_shared_sysregs_t =
    [''mdscr_el1'', ''tpidr_el1'', ''tpidr_el0'', ''tpidrro_el0'', ''sp_el0'',
     ''sp_el1'', ''par_el1'', ''csselr_el1'', ''apstate'', ''afpcr_el0'',
     ''scxtnum_el0'', ''tpidr2_el0'', ''smpri_el1'']"

definition ohv_banked_sysregs_t :: "string list" where
  "ohv_banked_sysregs_t =
    [''ttbr0_el1'', ''ttbr1_el1'', ''tcr_el1'', ''elr_el1'', ''far_el1'',
     ''esr_el1'', ''mair_el1'', ''amair_el1'', ''vbar_el1'', ''cntv_cval_el0'',
     ''cntp_cval_el0'', ''actlr_el1'', ''sctlr_el1'', ''cpacr_el1'', ''spsr_el1'',
     ''afsr0_el1'', ''afsr1_el1'', ''contextidr_el1'', ''cntv_ctl_el0'', ''cntp_ctl_el0'',
     ''cntkctl_el1'', ''ich_vmcr_el2'', ''scxtnum_el1'', ''smcr_el1'']"

definition ohv_dbgregs_t :: "c_field list" where
  "ohv_dbgregs_t =
    [(''bp'', 16 * 16, 8), (''wp'', 16 * 16, 8), (''mdccint_el1'', 8, 8),
     (''osdtrrx_el1'', 8, 8), (''osdtrtx_el1'', 8, 8), (''dbgclaim_el1'', 1, 1)]"

definition ohv_vgic_sysregs_t :: "c_field list" where
  "ohv_vgic_sysregs_t = u64_fields [''ich_ap0r0_el2'', ''ich_ap1r0_el2'']"

definition ohv_controls_t :: "c_field list" where
  "ohv_controls_t =
    u64_fields [''hcr_el2'', ''hacr_el2'', ''cptr_el2'', ''mdcr_el2'', ''vmpidr_el2'',
       ''vpidr_el2'', ''virtual_timer_offset'', ''hfgrtr_el2'', ''hfgwtr_el2'', ''hfgitr_el2'',
       ''hdfgrtr_el2'', ''hdfgwtr_el2'', ''cnthctl_el2'', ''timer'', ''vmkeyhi_el2'',
       ''vmkeylo_el2'', ''apsts_el1'', ''ich_hcr_el2'']
    @ [(''ich_lr_el2'', 8 * 8, 8), (''hcrx_el2'', 8, 8)]"

definition ohv_frozen_t :: "c_field list" where
  "ohv_frozen_t = u64_fields [''actlr_el1'']"

definition ohv_extregs_t :: "string list" where
  "ohv_extregs_t =
    [''amx_state_t_el1'', ''amx_config_el1'', ''aspsr_el1'', ''ctrr_ctl_el1'',
     ''ctrr_lock_el1'', ''ctrr_a_lwr_el1'', ''ctrr_a_upr_el1'', ''ctrr_b_lwr_el1'',
     ''ctrr_b_upr_el1'', ''ctrr_c_lwr_el1'', ''ctrr_c_upr_el1'', ''ctrr_c_ctl_el1'',
     ''ctrr_d_lwr_el1'', ''ctrr_d_upr_el1'', ''ctrr_d_ctl_el1'', ''ctxr_a_lwr_el1'',
     ''ctxr_a_upr_el1'', ''ctxr_a_ctl_el1'', ''ctxr_b_lwr_el1'', ''ctxr_b_upr_el1'',
     ''ctxr_b_ctl_el1'', ''ctxr_c_lwr_el1'', ''ctxr_c_upr_el1'', ''ctxr_c_ctl_el1'',
     ''ctxr_d_lwr_el1'', ''ctxr_d_upr_el1'', ''ctxr_d_ctl_el1'', ''vmsa_lock_el1'',
     ''pmcr1_el1'', ''apctl_el1'', ''apgakeyhi_el1'', ''apgakeylo_el1'',
     ''apiakeyhi_el1'', ''apiakeylo_el1'', ''apibkeyhi_el1'', ''apibkeylo_el1'',
     ''apdakeyhi_el1'', ''apdakeylo_el1'', ''apdbkeyhi_el1'', ''apdbkeylo_el1'',
     ''kernkeyhi_el1'', ''kernkeylo_el1'', ''gxf_config_el1'', ''gxf_entry_el1'',
     ''gxf_pabentry_el1'', ''sp_gl1'', ''tpidr_gl1'', ''aspsr_gl1'',
     ''vbar_gl1'', ''far_gl1'', ''esr_gl1'', ''elr_gl1'',
     ''spsr_gl1'', ''pmcr1_gl1'', ''afsr1_gl1'', ''sprr_config_el1'',
     ''sprr_amrange_el1'', ''sprr_pperm_el1'', ''sprr_uperm_el0'', ''sprr_pmprr_el1'',
     ''sprr_umprr_el1'', ''sprr_pperm_sh1_el1'', ''sprr_pperm_sh2_el1'', ''sprr_pperm_sh3_el1'',
     ''sprr_pperm_sh4_el1'', ''sprr_pperm_sh5_el1'', ''sprr_pperm_sh6_el1'', ''sprr_pperm_sh7_el1'',
     ''sprr_uperm_sh1_el1'', ''sprr_uperm_sh2_el1'', ''sprr_uperm_sh3_el1'', ''sprr_uperm_sh4_el1'',
     ''sprr_uperm_sh5_el1'', ''sprr_uperm_sh6_el1'', ''sprr_uperm_sh7_el1'', ''acfg_el1'',
     ''jrange_el1'', ''jctl_el1'', ''japiakeyhi_el1'', ''japiakeylo_el1'',
     ''japibkeyhi_el1'', ''japibkeylo_el1'', ''agtcntrdir_el1'']"

section \<open>Offsets\<close>

definition OHV_RW_HEAD :: nat where [layout]: "OHV_RW_HEAD = 0x000"
definition OHV_RW_REGS_X0 :: nat where [layout]: "OHV_RW_REGS_X0 = 0x008"
definition OHV_RW_FP :: nat where [layout]: "OHV_RW_FP = 0x0f0"
definition OHV_RW_LR :: nat where [layout]: "OHV_RW_LR = 0x0f8"
definition OHV_RW_SP :: nat where [layout]: "OHV_RW_SP = 0x100"
definition OHV_RW_PC :: nat where [layout]: "OHV_RW_PC = 0x108"
definition OHV_RW_CPSR :: nat where [layout]: "OHV_RW_CPSR = 0x110"
definition OHV_RW_NEON_Q0 :: nat where [layout]: "OHV_RW_NEON_Q0 = 0x140"
definition OHV_RW_FPSR :: nat where [layout]: "OHV_RW_FPSR = 0x340"
definition OHV_RW_FPCR :: nat where [layout]: "OHV_RW_FPCR = 0x344"
definition OHV_RW_SHARED_SYSREGS :: nat where [layout]: "OHV_RW_SHARED_SYSREGS = 0x350"
definition OHV_RW_BANKED_SYSREGS :: nat where [layout]: "OHV_RW_BANKED_SYSREGS = 0x3b8"
definition OHV_RW_DBGREGS :: nat where [layout]: "OHV_RW_DBGREGS = 0x478"
definition OHV_RW_VGIC_SYSREGS :: nat where [layout]: "OHV_RW_VGIC_SYSREGS = 0x698"
definition OHV_EXT_SPSR_GL1 :: nat where [layout]: "OHV_EXT_SPSR_GL1 = 0xbb0"
definition OHV_VNCR_BASE :: nat where [layout]: "OHV_VNCR_BASE = 0x1000"
definition OHV_NESTED_VTTBR_EL2 :: nat where [layout]: "OHV_NESTED_VTTBR_EL2 = 0x1020"
definition OHV_NESTED_VTCR_EL2 :: nat where [layout]: "OHV_NESTED_VTCR_EL2 = 0x1040"
definition OHV_NESTED_CNTVOFF_EL2 :: nat where [layout]: "OHV_NESTED_CNTVOFF_EL2 = 0x1060"
definition OHV_NESTED_HCR_EL2 :: nat where [layout]: "OHV_NESTED_HCR_EL2 = 0x1078"
definition OHV_NESTED_TPIDR_EL2 :: nat where [layout]: "OHV_NESTED_TPIDR_EL2 = 0x1090"
definition OHV_RW_CONTROLS :: nat where [layout]: "OHV_RW_CONTROLS = 0x920"
definition OHV_RW_VTIMER_OFFSET :: nat where [layout]: "OHV_RW_VTIMER_OFFSET = 0x950"
definition OHV_RW_TIMER :: nat where [layout]: "OHV_RW_TIMER = 0x988"
definition OHV_RW_FROZEN :: nat where [layout]: "OHV_RW_FROZEN = 0x9f8"
definition OHV_RW_STATE_DIRTY :: nat where [layout]: "OHV_RW_STATE_DIRTY = 0xa00"
definition OHV_RW_GUEST_TICKS :: nat where [layout]: "OHV_RW_GUEST_TICKS = 0xa08"
definition OHV_RW_EXTREGS :: nat where [layout]: "OHV_RW_EXTREGS = 0xa10"
definition OHV_RW_VNCR :: nat where [layout]: "OHV_RW_VNCR = 0x1000"
definition OHV_RW_AVNCR :: nat where [layout]: "OHV_RW_AVNCR = 0x2000"
definition OHV_RO_VER :: nat where [layout]: "OHV_RO_VER = 0x4000"
definition OHV_RO_EXIT :: nat where [layout]: "OHV_RO_EXIT = 0x4008"
definition OHV_RO_EXIT_REASON :: nat where [layout]: "OHV_RO_EXIT_REASON = 0x4008"
definition OHV_RO_EXIT_ESR :: nat where [layout]: "OHV_RO_EXIT_ESR = 0x4010"
definition OHV_RO_EXIT_FAR :: nat where [layout]: "OHV_RO_EXIT_FAR = 0x4020"
definition OHV_RO_EXIT_HPFAR :: nat where [layout]: "OHV_RO_EXIT_HPFAR = 0x4028"
definition OHV_RO_CONTROLS :: nat where [layout]: "OHV_RO_CONTROLS = 0x4028"
definition OHV_RO_STATE_VALID :: nat where [layout]: "OHV_RO_STATE_VALID = 0x4108"
definition OHV_RO_STATE_DIRTY :: nat where [layout]: "OHV_RO_STATE_DIRTY = 0x4108"
definition OHV_RO_STATE_USED :: nat where [layout]: "OHV_RO_STATE_USED = 0x4110"
definition OHV_RO_ICH_VTR :: nat where [layout]: "OHV_RO_ICH_VTR = 0x4118"
definition OHV_RO_ICH_MISR :: nat where [layout]: "OHV_RO_ICH_MISR = 0x411c"
definition OHV_RO_ICH_ELRSR :: nat where [layout]: "OHV_RO_ICH_ELRSR = 0x4120"
definition OHV_RO_SVCR :: nat where [layout]: "OHV_RO_SVCR = 0x4128"
definition OHV_RO_SVL_B :: nat where [layout]: "OHV_RO_SVL_B = 0x4130"
definition OHV_RO_SME_PTR :: nat where [layout]: "OHV_RO_SME_PTR = 0x4138"
definition OHV_RO_AMX_PTR :: nat where [layout]: "OHV_RO_AMX_PTR = 0x4140"

section \<open>The two pages\<close>

text \<open>The read/write page's head, nested structs flattened: every nested struct starts at a
  multiple of its own alignment and its size is a multiple of it, so flattening moves
  nothing.\<close>

definition ohv_rw_page_head_t :: "c_field list" where
  "ohv_rw_page_head_t =
    [(''__head'', 8, 8), (''regs.x'', 29 * 8, 8), (''regs.fp'', 8, 8), (''regs.lr'', 8, 8),
     (''regs.sp'', 8, 8), (''regs.pc'', 8, 8), (''regs.cpsr'', 4, 4), (''regs.pad'', 4, 4),
     (''__pad_to_neon'', OHV_RW_NEON_Q0 - 0x118, 1),
     (''neon.q'', 32 * 16, 16), (''neon.fpsr'', 4, 4), (''neon.fpcr'', 4, 4),
     (''neon.pad'', 2 * 4, 4),
     (''shared_sysregs'', c_sizeof (u64_fields ohv_shared_sysregs_t), 8),
     (''banked_sysregs'', c_sizeof (u64_fields ohv_banked_sysregs_t), 8),
     (''dbgregs'', c_sizeof ohv_dbgregs_t, 8),
     (''vgic_sysregs'', c_sizeof ohv_vgic_sysregs_t, 8),
     (''__pad_to_controls'',
        OHV_RW_CONTROLS - (OHV_RW_VGIC_SYSREGS + c_sizeof ohv_vgic_sysregs_t), 1),
     (''controls'', c_sizeof ohv_controls_t, 8),
     (''frozen'', c_sizeof ohv_frozen_t, 8),
     (''__pad_to_state_dirty'',
        OHV_RW_STATE_DIRTY - (OHV_RW_FROZEN + c_sizeof ohv_frozen_t), 1),
     (''state_dirty'', 8, 8), (''guest_tick_count'', 8, 8),
     (''extregs'', c_sizeof (u64_fields ohv_extregs_t), 8),
     (''__pad_to_vncr'',
        OHV_RW_VNCR - (OHV_RW_EXTREGS + c_sizeof (u64_fields ohv_extregs_t)), 1)]"

definition ohv_vmexit_info_t :: "c_field list" where
  "ohv_vmexit_info_t =
    [(''vmexit_reason'', 4, 4), (''__pad'', 4, 4), (''vmexit_esr'', 8, 8),
     (''__unread'', 8, 8), (''vmexit_far'', 8, 8), (''vmexit_hpfar'', 8, 8)]"

definition ohv_ro_page_t :: "c_field list" where
  "ohv_ro_page_t =
    [(''ver'', 8, 8), (''exit'', c_sizeof ohv_vmexit_info_t, 8),
     (''controls'', c_sizeof ohv_controls_t, 8),
     (''state_valid'', 8, 8), (''state_dirty'', 8, 8), (''state_used'', 8, 8),
     (''ich_vtr_el2'', 4, 4), (''ich_misr_el2'', 4, 4), (''ich_elrsr_el2'', 4, 4),
     (''__pad0'', 4, 4), (''svcr'', 8, 8), (''svl_b'', 2, 2), (''padding'', 3 * 2, 2),
     (''sme'', 8, 8), (''amx'', 8, 8)]"

definition OHV_RO_PAGE_OFFSET :: nat where [layout]: "OHV_RO_PAGE_OFFSET = 0x4000"

text \<open>Where the read-only page's struct puts \<open>svl_b\<close>, \<open>sme\<close> and \<open>amx\<close>: the accessors that go
  through \<open>ohv_ro(ctx)->\<close> use these and not the \<open>#define\<close>s above.\<close>

definition ro_struct_svl_b :: nat where [layout]: "ro_struct_svl_b = 0x4138"
definition ro_struct_sme :: nat where [layout]: "ro_struct_sme = 0x4140"
definition ro_struct_amx :: nat where [layout]: "ro_struct_amx = 0x4148"

section \<open>Fields by name\<close>

text \<open>The fields the library names through \<open>ohv_rw(ctx)->shared_sysregs\<close>, \<open>banked_sysregs\<close>,
  \<open>controls\<close> and \<open>extregs\<close>, as byte offsets into the context; \<open>struct_fields_at\<close> below checks
  each against the struct it belongs to.\<close>


definition sh_mdscr_el1 :: nat where [layout]: "sh_mdscr_el1 = 0x350"
definition sh_tpidr_el1 :: nat where [layout]: "sh_tpidr_el1 = 0x358"
definition sh_tpidr_el0 :: nat where [layout]: "sh_tpidr_el0 = 0x360"
definition sh_tpidrro_el0 :: nat where [layout]: "sh_tpidrro_el0 = 0x368"
definition sh_sp_el0 :: nat where [layout]: "sh_sp_el0 = 0x370"
definition sh_sp_el1 :: nat where [layout]: "sh_sp_el1 = 0x378"
definition sh_par_el1 :: nat where [layout]: "sh_par_el1 = 0x380"
definition sh_csselr_el1 :: nat where [layout]: "sh_csselr_el1 = 0x388"
definition sh_apstate :: nat where [layout]: "sh_apstate = 0x390"
definition sh_afpcr_el0 :: nat where [layout]: "sh_afpcr_el0 = 0x398"
definition sh_scxtnum_el0 :: nat where [layout]: "sh_scxtnum_el0 = 0x3a0"
definition sh_tpidr2_el0 :: nat where [layout]: "sh_tpidr2_el0 = 0x3a8"
definition sh_smpri_el1 :: nat where [layout]: "sh_smpri_el1 = 0x3b0"

definition bk_ttbr0_el1 :: nat where [layout]: "bk_ttbr0_el1 = 0x3b8"
definition bk_ttbr1_el1 :: nat where [layout]: "bk_ttbr1_el1 = 0x3c0"
definition bk_tcr_el1 :: nat where [layout]: "bk_tcr_el1 = 0x3c8"
definition bk_elr_el1 :: nat where [layout]: "bk_elr_el1 = 0x3d0"
definition bk_far_el1 :: nat where [layout]: "bk_far_el1 = 0x3d8"
definition bk_esr_el1 :: nat where [layout]: "bk_esr_el1 = 0x3e0"
definition bk_mair_el1 :: nat where [layout]: "bk_mair_el1 = 0x3e8"
definition bk_amair_el1 :: nat where [layout]: "bk_amair_el1 = 0x3f0"
definition bk_vbar_el1 :: nat where [layout]: "bk_vbar_el1 = 0x3f8"
definition bk_cntv_cval_el0 :: nat where [layout]: "bk_cntv_cval_el0 = 0x400"
definition bk_cntp_cval_el0 :: nat where [layout]: "bk_cntp_cval_el0 = 0x408"
definition bk_actlr_el1 :: nat where [layout]: "bk_actlr_el1 = 0x410"
definition bk_sctlr_el1 :: nat where [layout]: "bk_sctlr_el1 = 0x418"
definition bk_cpacr_el1 :: nat where [layout]: "bk_cpacr_el1 = 0x420"
definition bk_spsr_el1 :: nat where [layout]: "bk_spsr_el1 = 0x428"
definition bk_afsr0_el1 :: nat where [layout]: "bk_afsr0_el1 = 0x430"
definition bk_afsr1_el1 :: nat where [layout]: "bk_afsr1_el1 = 0x438"
definition bk_contextidr_el1 :: nat where [layout]: "bk_contextidr_el1 = 0x440"
definition bk_cntv_ctl_el0 :: nat where [layout]: "bk_cntv_ctl_el0 = 0x448"
definition bk_cntp_ctl_el0 :: nat where [layout]: "bk_cntp_ctl_el0 = 0x450"
definition bk_cntkctl_el1 :: nat where [layout]: "bk_cntkctl_el1 = 0x458"
definition bk_ich_vmcr_el2 :: nat where [layout]: "bk_ich_vmcr_el2 = 0x460"
definition bk_scxtnum_el1 :: nat where [layout]: "bk_scxtnum_el1 = 0x468"
definition bk_smcr_el1 :: nat where [layout]: "bk_smcr_el1 = 0x470"

definition ctl_hcr_el2 :: nat where [layout]: "ctl_hcr_el2 = 0x920"
definition ctl_hacr_el2 :: nat where [layout]: "ctl_hacr_el2 = 0x928"
definition ctl_cptr_el2 :: nat where [layout]: "ctl_cptr_el2 = 0x930"
definition ctl_mdcr_el2 :: nat where [layout]: "ctl_mdcr_el2 = 0x938"
definition ctl_vmpidr_el2 :: nat where [layout]: "ctl_vmpidr_el2 = 0x940"
definition ctl_vpidr_el2 :: nat where [layout]: "ctl_vpidr_el2 = 0x948"
definition ctl_virtual_timer_offset :: nat where [layout]: "ctl_virtual_timer_offset = 0x950"
definition ctl_hfgrtr_el2 :: nat where [layout]: "ctl_hfgrtr_el2 = 0x958"
definition ctl_hfgwtr_el2 :: nat where [layout]: "ctl_hfgwtr_el2 = 0x960"
definition ctl_hfgitr_el2 :: nat where [layout]: "ctl_hfgitr_el2 = 0x968"
definition ctl_hdfgrtr_el2 :: nat where [layout]: "ctl_hdfgrtr_el2 = 0x970"
definition ctl_hdfgwtr_el2 :: nat where [layout]: "ctl_hdfgwtr_el2 = 0x978"
definition ctl_cnthctl_el2 :: nat where [layout]: "ctl_cnthctl_el2 = 0x980"
definition ctl_timer :: nat where [layout]: "ctl_timer = 0x988"
definition ctl_vmkeyhi_el2 :: nat where [layout]: "ctl_vmkeyhi_el2 = 0x990"
definition ctl_vmkeylo_el2 :: nat where [layout]: "ctl_vmkeylo_el2 = 0x998"
definition ctl_apsts_el1 :: nat where [layout]: "ctl_apsts_el1 = 0x9a0"
definition ctl_ich_hcr_el2 :: nat where [layout]: "ctl_ich_hcr_el2 = 0x9a8"
definition ctl_ich_lr_el2 :: nat where [layout]: "ctl_ich_lr_el2 = 0x9b0"
definition ctl_hcrx_el2 :: nat where [layout]: "ctl_hcrx_el2 = 0x9f0"

definition ext_amx_state_t_el1 :: nat where [layout]: "ext_amx_state_t_el1 = 0xa10"
definition ext_amx_config_el1 :: nat where [layout]: "ext_amx_config_el1 = 0xa18"
definition ext_aspsr_el1 :: nat where [layout]: "ext_aspsr_el1 = 0xa20"
definition ext_ctrr_ctl_el1 :: nat where [layout]: "ext_ctrr_ctl_el1 = 0xa28"
definition ext_ctrr_lock_el1 :: nat where [layout]: "ext_ctrr_lock_el1 = 0xa30"
definition ext_ctrr_a_lwr_el1 :: nat where [layout]: "ext_ctrr_a_lwr_el1 = 0xa38"
definition ext_ctrr_a_upr_el1 :: nat where [layout]: "ext_ctrr_a_upr_el1 = 0xa40"
definition ext_ctrr_b_lwr_el1 :: nat where [layout]: "ext_ctrr_b_lwr_el1 = 0xa48"
definition ext_ctrr_b_upr_el1 :: nat where [layout]: "ext_ctrr_b_upr_el1 = 0xa50"
definition ext_ctrr_c_lwr_el1 :: nat where [layout]: "ext_ctrr_c_lwr_el1 = 0xa58"
definition ext_ctrr_c_upr_el1 :: nat where [layout]: "ext_ctrr_c_upr_el1 = 0xa60"
definition ext_ctrr_c_ctl_el1 :: nat where [layout]: "ext_ctrr_c_ctl_el1 = 0xa68"
definition ext_ctrr_d_lwr_el1 :: nat where [layout]: "ext_ctrr_d_lwr_el1 = 0xa70"
definition ext_ctrr_d_upr_el1 :: nat where [layout]: "ext_ctrr_d_upr_el1 = 0xa78"
definition ext_ctrr_d_ctl_el1 :: nat where [layout]: "ext_ctrr_d_ctl_el1 = 0xa80"
definition ext_ctxr_a_lwr_el1 :: nat where [layout]: "ext_ctxr_a_lwr_el1 = 0xa88"
definition ext_ctxr_a_upr_el1 :: nat where [layout]: "ext_ctxr_a_upr_el1 = 0xa90"
definition ext_ctxr_a_ctl_el1 :: nat where [layout]: "ext_ctxr_a_ctl_el1 = 0xa98"
definition ext_ctxr_b_lwr_el1 :: nat where [layout]: "ext_ctxr_b_lwr_el1 = 0xaa0"
definition ext_ctxr_b_upr_el1 :: nat where [layout]: "ext_ctxr_b_upr_el1 = 0xaa8"
definition ext_ctxr_b_ctl_el1 :: nat where [layout]: "ext_ctxr_b_ctl_el1 = 0xab0"
definition ext_ctxr_c_lwr_el1 :: nat where [layout]: "ext_ctxr_c_lwr_el1 = 0xab8"
definition ext_ctxr_c_upr_el1 :: nat where [layout]: "ext_ctxr_c_upr_el1 = 0xac0"
definition ext_ctxr_c_ctl_el1 :: nat where [layout]: "ext_ctxr_c_ctl_el1 = 0xac8"
definition ext_ctxr_d_lwr_el1 :: nat where [layout]: "ext_ctxr_d_lwr_el1 = 0xad0"
definition ext_ctxr_d_upr_el1 :: nat where [layout]: "ext_ctxr_d_upr_el1 = 0xad8"
definition ext_ctxr_d_ctl_el1 :: nat where [layout]: "ext_ctxr_d_ctl_el1 = 0xae0"
definition ext_vmsa_lock_el1 :: nat where [layout]: "ext_vmsa_lock_el1 = 0xae8"
definition ext_pmcr1_el1 :: nat where [layout]: "ext_pmcr1_el1 = 0xaf0"
definition ext_apctl_el1 :: nat where [layout]: "ext_apctl_el1 = 0xaf8"
definition ext_apgakeyhi_el1 :: nat where [layout]: "ext_apgakeyhi_el1 = 0xb00"
definition ext_apgakeylo_el1 :: nat where [layout]: "ext_apgakeylo_el1 = 0xb08"
definition ext_apiakeyhi_el1 :: nat where [layout]: "ext_apiakeyhi_el1 = 0xb10"
definition ext_apiakeylo_el1 :: nat where [layout]: "ext_apiakeylo_el1 = 0xb18"
definition ext_apibkeyhi_el1 :: nat where [layout]: "ext_apibkeyhi_el1 = 0xb20"
definition ext_apibkeylo_el1 :: nat where [layout]: "ext_apibkeylo_el1 = 0xb28"
definition ext_apdakeyhi_el1 :: nat where [layout]: "ext_apdakeyhi_el1 = 0xb30"
definition ext_apdakeylo_el1 :: nat where [layout]: "ext_apdakeylo_el1 = 0xb38"
definition ext_apdbkeyhi_el1 :: nat where [layout]: "ext_apdbkeyhi_el1 = 0xb40"
definition ext_apdbkeylo_el1 :: nat where [layout]: "ext_apdbkeylo_el1 = 0xb48"
definition ext_kernkeyhi_el1 :: nat where [layout]: "ext_kernkeyhi_el1 = 0xb50"
definition ext_kernkeylo_el1 :: nat where [layout]: "ext_kernkeylo_el1 = 0xb58"
definition ext_gxf_config_el1 :: nat where [layout]: "ext_gxf_config_el1 = 0xb60"
definition ext_gxf_entry_el1 :: nat where [layout]: "ext_gxf_entry_el1 = 0xb68"
definition ext_gxf_pabentry_el1 :: nat where [layout]: "ext_gxf_pabentry_el1 = 0xb70"
definition ext_sp_gl1 :: nat where [layout]: "ext_sp_gl1 = 0xb78"
definition ext_tpidr_gl1 :: nat where [layout]: "ext_tpidr_gl1 = 0xb80"
definition ext_aspsr_gl1 :: nat where [layout]: "ext_aspsr_gl1 = 0xb88"
definition ext_vbar_gl1 :: nat where [layout]: "ext_vbar_gl1 = 0xb90"
definition ext_far_gl1 :: nat where [layout]: "ext_far_gl1 = 0xb98"
definition ext_esr_gl1 :: nat where [layout]: "ext_esr_gl1 = 0xba0"
definition ext_elr_gl1 :: nat where [layout]: "ext_elr_gl1 = 0xba8"
definition ext_spsr_gl1 :: nat where [layout]: "ext_spsr_gl1 = 0xbb0"
definition ext_pmcr1_gl1 :: nat where [layout]: "ext_pmcr1_gl1 = 0xbb8"
definition ext_afsr1_gl1 :: nat where [layout]: "ext_afsr1_gl1 = 0xbc0"
definition ext_sprr_config_el1 :: nat where [layout]: "ext_sprr_config_el1 = 0xbc8"
definition ext_sprr_amrange_el1 :: nat where [layout]: "ext_sprr_amrange_el1 = 0xbd0"
definition ext_sprr_pperm_el1 :: nat where [layout]: "ext_sprr_pperm_el1 = 0xbd8"
definition ext_sprr_uperm_el0 :: nat where [layout]: "ext_sprr_uperm_el0 = 0xbe0"
definition ext_sprr_pmprr_el1 :: nat where [layout]: "ext_sprr_pmprr_el1 = 0xbe8"
definition ext_sprr_umprr_el1 :: nat where [layout]: "ext_sprr_umprr_el1 = 0xbf0"
definition ext_sprr_pperm_sh1_el1 :: nat where [layout]: "ext_sprr_pperm_sh1_el1 = 0xbf8"
definition ext_sprr_pperm_sh2_el1 :: nat where [layout]: "ext_sprr_pperm_sh2_el1 = 0xc00"
definition ext_sprr_pperm_sh3_el1 :: nat where [layout]: "ext_sprr_pperm_sh3_el1 = 0xc08"
definition ext_sprr_pperm_sh4_el1 :: nat where [layout]: "ext_sprr_pperm_sh4_el1 = 0xc10"
definition ext_sprr_pperm_sh5_el1 :: nat where [layout]: "ext_sprr_pperm_sh5_el1 = 0xc18"
definition ext_sprr_pperm_sh6_el1 :: nat where [layout]: "ext_sprr_pperm_sh6_el1 = 0xc20"
definition ext_sprr_pperm_sh7_el1 :: nat where [layout]: "ext_sprr_pperm_sh7_el1 = 0xc28"
definition ext_sprr_uperm_sh1_el1 :: nat where [layout]: "ext_sprr_uperm_sh1_el1 = 0xc30"
definition ext_sprr_uperm_sh2_el1 :: nat where [layout]: "ext_sprr_uperm_sh2_el1 = 0xc38"
definition ext_sprr_uperm_sh3_el1 :: nat where [layout]: "ext_sprr_uperm_sh3_el1 = 0xc40"
definition ext_sprr_uperm_sh4_el1 :: nat where [layout]: "ext_sprr_uperm_sh4_el1 = 0xc48"
definition ext_sprr_uperm_sh5_el1 :: nat where [layout]: "ext_sprr_uperm_sh5_el1 = 0xc50"
definition ext_sprr_uperm_sh6_el1 :: nat where [layout]: "ext_sprr_uperm_sh6_el1 = 0xc58"
definition ext_sprr_uperm_sh7_el1 :: nat where [layout]: "ext_sprr_uperm_sh7_el1 = 0xc60"
definition ext_acfg_el1 :: nat where [layout]: "ext_acfg_el1 = 0xc68"
definition ext_jrange_el1 :: nat where [layout]: "ext_jrange_el1 = 0xc70"
definition ext_jctl_el1 :: nat where [layout]: "ext_jctl_el1 = 0xc78"
definition ext_japiakeyhi_el1 :: nat where [layout]: "ext_japiakeyhi_el1 = 0xc80"
definition ext_japiakeylo_el1 :: nat where [layout]: "ext_japiakeylo_el1 = 0xc88"
definition ext_japibkeyhi_el1 :: nat where [layout]: "ext_japibkeyhi_el1 = 0xc90"
definition ext_japibkeylo_el1 :: nat where [layout]: "ext_japibkeylo_el1 = 0xc98"
definition ext_agtcntrdir_el1 :: nat where [layout]: "ext_agtcntrdir_el1 = 0xca0"
section \<open>Dirty bits\<close>

definition OHV_STATE_SYSREGS :: u64 where [masks]: "OHV_STATE_SYSREGS = bit_mask 0"
definition OHV_STATE_DEBUG :: u64 where [masks]: "OHV_STATE_DEBUG = bit_mask 1"
definition OHV_STATE_CONTROLS :: u64 where [masks]: "OHV_STATE_CONTROLS = bit_mask 2"
definition OHV_STATE_GIC :: u64 where [masks]: "OHV_STATE_GIC = bit_mask 3"
definition OHV_STATE_SME_CONTEXT :: u64 where [masks]: "OHV_STATE_SME_CONTEXT = bit_mask 4"
definition OHV_STATE_AMX_CONTEXT :: u64 where [masks]: "OHV_STATE_AMX_CONTEXT = bit_mask 54"
definition OHV_STATE_APPLE_GENERIC_TIMER :: u64 where [masks]: "OHV_STATE_APPLE_GENERIC_TIMER = bit_mask 55"
definition OHV_STATE_JITBOX :: u64 where [masks]: "OHV_STATE_JITBOX = bit_mask 56"
definition OHV_STATE_AMX :: u64 where [masks]: "OHV_STATE_AMX = bit_mask 57"
definition OHV_STATE_GXF :: u64 where [masks]: "OHV_STATE_GXF = bit_mask 58"
definition OHV_STATE_SPRR :: u64 where [masks]: "OHV_STATE_SPRR = bit_mask 59"
definition OHV_STATE_PTRAUTH_APPLE :: u64 where [masks]: "OHV_STATE_PTRAUTH_APPLE = bit_mask 60"
definition OHV_STATE_PTRAUTH_ARM :: u64 where [masks]: "OHV_STATE_PTRAUTH_ARM = bit_mask 61"
definition OHV_STATE_CTRR :: u64 where [masks]: "OHV_STATE_CTRR = bit_mask 62"
definition OHV_STATE_APPLE :: u64 where [masks]: "OHV_STATE_APPLE = bit_mask 63"

definition mark_dirty :: "mem \<Rightarrow> u64 \<Rightarrow> mem" where
  "mark_dirty ctx b = wr64 ctx OHV_RW_STATE_DIRTY (rd64 ctx OHV_RW_STATE_DIRTY OR b)"

lemma mark_dirty_state: "rd64 (mark_dirty ctx b) OHV_RW_STATE_DIRTY = rd64 ctx OHV_RW_STATE_DIRTY OR b"
  by (simp add: mark_dirty_def)

lemma rd64_mark_dirty_other [simp]:
  "a + 8 \<le> OHV_RW_STATE_DIRTY \<or> OHV_RW_STATE_DIRTY + 8 \<le> a
     \<Longrightarrow> rd64 (mark_dirty ctx b) a = rd64 ctx a"
  unfolding mark_dirty_def by (rule rd64_wr64_other) auto

lemma rd32_mark_dirty_other [simp]:
  "a + 4 \<le> OHV_RW_STATE_DIRTY \<or> OHV_RW_STATE_DIRTY + 8 \<le> a
     \<Longrightarrow> rd32 (mark_dirty ctx b) a = rd32 ctx a"
  unfolding mark_dirty_def by (rule rd32_wr64_other) auto

section \<open>Layout facts\<close>

lemmas c_layout_eval =
  c_offsetof_def c_sizeof_def c_alignof_def align_up_def u64_fields_def

lemmas struct_defs =
  ohv_shared_sysregs_t_def ohv_banked_sysregs_t_def ohv_dbgregs_t_def ohv_vgic_sysregs_t_def
  ohv_controls_t_def ohv_frozen_t_def ohv_extregs_t_def ohv_rw_page_head_t_def
  ohv_vmexit_info_t_def ohv_ro_page_t_def

lemma struct_sizes [simp]:
  "c_sizeof (u64_fields ohv_shared_sysregs_t) = 104"
  "c_sizeof (u64_fields ohv_banked_sysregs_t) = 192"
  "c_sizeof ohv_dbgregs_t = 544" "c_sizeof ohv_vgic_sysregs_t = 16"
  "c_sizeof ohv_controls_t = 216" "c_sizeof ohv_frozen_t = 8"
  "c_sizeof (u64_fields ohv_extregs_t) = 664" "c_sizeof ohv_vmexit_info_t = 40"
  by (simp_all add: c_layout_eval ohv_shared_sysregs_t_def ohv_banked_sysregs_t_def
      ohv_dbgregs_t_def ohv_vgic_sysregs_t_def ohv_controls_t_def ohv_frozen_t_def
      ohv_extregs_t_def ohv_vmexit_info_t_def)

lemma rw_page_eval:
  "ohv_rw_page_head_t =
    [(''__head'', 8, 8), (''regs.x'', 232, 8), (''regs.fp'', 8, 8), (''regs.lr'', 8, 8),
     (''regs.sp'', 8, 8), (''regs.pc'', 8, 8), (''regs.cpsr'', 4, 4), (''regs.pad'', 4, 4),
     (''__pad_to_neon'', 40, 1),
     (''neon.q'', 512, 16), (''neon.fpsr'', 4, 4), (''neon.fpcr'', 4, 4), (''neon.pad'', 8, 4),
     (''shared_sysregs'', 104, 8), (''banked_sysregs'', 192, 8), (''dbgregs'', 544, 8),
     (''vgic_sysregs'', 16, 8), (''__pad_to_controls'', 632, 1), (''controls'', 216, 8),
     (''frozen'', 8, 8), (''__pad_to_state_dirty'', 0, 1),
     (''state_dirty'', 8, 8), (''guest_tick_count'', 8, 8), (''extregs'', 664, 8),
     (''__pad_to_vncr'', 856, 1)]"
  by (simp add: ohv_rw_page_head_t_def layout)


text \<open>The read-only page is not: the kernel's exit description grew to 40 bytes
  and moved every later field of the struct by eight bytes past where the offsets put it, so
  \<open>ohv_ro(ctx)->svl_b\<close>, \<open>->sme\<close> and \<open>->amx\<close> read one word past the words that \<open>OHV_RO_SVL_B\<close>,
  \<open>OHV_RO_SME_PTR\<close> and \<open>OHV_RO_AMX_PTR\<close> name, and the exit description itself agrees.\<close>

theorem ro_page_drift:
  "c_layout OHV_RO_PAGE_OFFSET ohv_ro_page_t =
     [(''ver'', OHV_RO_VER), (''exit'', OHV_RO_EXIT), (''controls'', OHV_RO_CONTROLS + 8),
      (''state_valid'', OHV_RO_STATE_VALID), (''state_dirty'', OHV_RO_STATE_DIRTY + 8),
      (''state_used'', OHV_RO_STATE_USED + 8), (''ich_vtr_el2'', OHV_RO_ICH_VTR + 8),
      (''ich_misr_el2'', OHV_RO_ICH_MISR + 8), (''ich_elrsr_el2'', OHV_RO_ICH_ELRSR + 8),
      (''__pad0'', OHV_RO_ICH_ELRSR + 12), (''svcr'', OHV_RO_SVCR + 8),
      (''svl_b'', ro_struct_svl_b), (''padding'', ro_struct_svl_b + 2),
      (''sme'', ro_struct_sme), (''amx'', ro_struct_amx)]
   \<and> c_layout OHV_RO_EXIT ohv_vmexit_info_t =
     [(''vmexit_reason'', OHV_RO_EXIT_REASON), (''__pad'', OHV_RO_EXIT_REASON + 4),
      (''vmexit_esr'', OHV_RO_EXIT_ESR), (''__unread'', OHV_RO_EXIT_ESR + 8),
      (''vmexit_far'', OHV_RO_EXIT_FAR), (''vmexit_hpfar'', OHV_RO_EXIT_HPFAR)]
   \<and> ro_struct_svl_b = OHV_RO_SVL_B + 8 \<and> ro_struct_sme = OHV_RO_SME_PTR + 8
   \<and> ro_struct_amx = OHV_RO_AMX_PTR + 8"
  by (simp add: ohv_ro_page_t_def ohv_vmexit_info_t_def align_up_def layout
      struct_sizes [unfolded ohv_vmexit_info_t_def])

lemma struct_fields_at:
  "c_layout OHV_RW_SHARED_SYSREGS (u64_fields ohv_shared_sysregs_t) =
    [(''mdscr_el1'', sh_mdscr_el1), (''tpidr_el1'', sh_tpidr_el1), (''tpidr_el0'', sh_tpidr_el0),
     (''tpidrro_el0'', sh_tpidrro_el0), (''sp_el0'', sh_sp_el0), (''sp_el1'', sh_sp_el1),
     (''par_el1'', sh_par_el1), (''csselr_el1'', sh_csselr_el1), (''apstate'', sh_apstate),
     (''afpcr_el0'', sh_afpcr_el0), (''scxtnum_el0'', sh_scxtnum_el0),
     (''tpidr2_el0'', sh_tpidr2_el0), (''smpri_el1'', sh_smpri_el1)]"
  "c_layout OHV_RW_BANKED_SYSREGS (u64_fields ohv_banked_sysregs_t) =
    [(''ttbr0_el1'', bk_ttbr0_el1), (''ttbr1_el1'', bk_ttbr1_el1), (''tcr_el1'', bk_tcr_el1),
     (''elr_el1'', bk_elr_el1), (''far_el1'', bk_far_el1), (''esr_el1'', bk_esr_el1),
     (''mair_el1'', bk_mair_el1), (''amair_el1'', bk_amair_el1), (''vbar_el1'', bk_vbar_el1),
     (''cntv_cval_el0'', bk_cntv_cval_el0), (''cntp_cval_el0'', bk_cntp_cval_el0),
     (''actlr_el1'', bk_actlr_el1), (''sctlr_el1'', bk_sctlr_el1), (''cpacr_el1'', bk_cpacr_el1),
     (''spsr_el1'', bk_spsr_el1), (''afsr0_el1'', bk_afsr0_el1), (''afsr1_el1'', bk_afsr1_el1),
     (''contextidr_el1'', bk_contextidr_el1), (''cntv_ctl_el0'', bk_cntv_ctl_el0),
     (''cntp_ctl_el0'', bk_cntp_ctl_el0), (''cntkctl_el1'', bk_cntkctl_el1),
     (''ich_vmcr_el2'', bk_ich_vmcr_el2), (''scxtnum_el1'', bk_scxtnum_el1),
     (''smcr_el1'', bk_smcr_el1)]"
  "c_layout OHV_RW_CONTROLS ohv_controls_t =
    [(''hcr_el2'', ctl_hcr_el2), (''hacr_el2'', ctl_hacr_el2), (''cptr_el2'', ctl_cptr_el2),
     (''mdcr_el2'', ctl_mdcr_el2), (''vmpidr_el2'', ctl_vmpidr_el2),
     (''vpidr_el2'', ctl_vpidr_el2), (''virtual_timer_offset'', ctl_virtual_timer_offset),
     (''hfgrtr_el2'', ctl_hfgrtr_el2), (''hfgwtr_el2'', ctl_hfgwtr_el2),
     (''hfgitr_el2'', ctl_hfgitr_el2), (''hdfgrtr_el2'', ctl_hdfgrtr_el2),
     (''hdfgwtr_el2'', ctl_hdfgwtr_el2), (''cnthctl_el2'', ctl_cnthctl_el2),
     (''timer'', ctl_timer), (''vmkeyhi_el2'', ctl_vmkeyhi_el2),
     (''vmkeylo_el2'', ctl_vmkeylo_el2), (''apsts_el1'', ctl_apsts_el1),
     (''ich_hcr_el2'', ctl_ich_hcr_el2), (''ich_lr_el2'', ctl_ich_lr_el2),
     (''hcrx_el2'', ctl_hcrx_el2)]"
  "c_layout OHV_RW_EXTREGS (u64_fields ohv_extregs_t) =
    [(''amx_state_t_el1'', ext_amx_state_t_el1), (''amx_config_el1'', ext_amx_config_el1),
     (''aspsr_el1'', ext_aspsr_el1), (''ctrr_ctl_el1'', ext_ctrr_ctl_el1),
     (''ctrr_lock_el1'', ext_ctrr_lock_el1), (''ctrr_a_lwr_el1'', ext_ctrr_a_lwr_el1),
     (''ctrr_a_upr_el1'', ext_ctrr_a_upr_el1), (''ctrr_b_lwr_el1'', ext_ctrr_b_lwr_el1),
     (''ctrr_b_upr_el1'', ext_ctrr_b_upr_el1), (''ctrr_c_lwr_el1'', ext_ctrr_c_lwr_el1),
     (''ctrr_c_upr_el1'', ext_ctrr_c_upr_el1), (''ctrr_c_ctl_el1'', ext_ctrr_c_ctl_el1),
     (''ctrr_d_lwr_el1'', ext_ctrr_d_lwr_el1), (''ctrr_d_upr_el1'', ext_ctrr_d_upr_el1),
     (''ctrr_d_ctl_el1'', ext_ctrr_d_ctl_el1), (''ctxr_a_lwr_el1'', ext_ctxr_a_lwr_el1),
     (''ctxr_a_upr_el1'', ext_ctxr_a_upr_el1), (''ctxr_a_ctl_el1'', ext_ctxr_a_ctl_el1),
     (''ctxr_b_lwr_el1'', ext_ctxr_b_lwr_el1), (''ctxr_b_upr_el1'', ext_ctxr_b_upr_el1),
     (''ctxr_b_ctl_el1'', ext_ctxr_b_ctl_el1), (''ctxr_c_lwr_el1'', ext_ctxr_c_lwr_el1),
     (''ctxr_c_upr_el1'', ext_ctxr_c_upr_el1), (''ctxr_c_ctl_el1'', ext_ctxr_c_ctl_el1),
     (''ctxr_d_lwr_el1'', ext_ctxr_d_lwr_el1), (''ctxr_d_upr_el1'', ext_ctxr_d_upr_el1),
     (''ctxr_d_ctl_el1'', ext_ctxr_d_ctl_el1), (''vmsa_lock_el1'', ext_vmsa_lock_el1),
     (''pmcr1_el1'', ext_pmcr1_el1), (''apctl_el1'', ext_apctl_el1),
     (''apgakeyhi_el1'', ext_apgakeyhi_el1), (''apgakeylo_el1'', ext_apgakeylo_el1),
     (''apiakeyhi_el1'', ext_apiakeyhi_el1), (''apiakeylo_el1'', ext_apiakeylo_el1),
     (''apibkeyhi_el1'', ext_apibkeyhi_el1), (''apibkeylo_el1'', ext_apibkeylo_el1),
     (''apdakeyhi_el1'', ext_apdakeyhi_el1), (''apdakeylo_el1'', ext_apdakeylo_el1),
     (''apdbkeyhi_el1'', ext_apdbkeyhi_el1), (''apdbkeylo_el1'', ext_apdbkeylo_el1),
     (''kernkeyhi_el1'', ext_kernkeyhi_el1), (''kernkeylo_el1'', ext_kernkeylo_el1),
     (''gxf_config_el1'', ext_gxf_config_el1), (''gxf_entry_el1'', ext_gxf_entry_el1),
     (''gxf_pabentry_el1'', ext_gxf_pabentry_el1), (''sp_gl1'', ext_sp_gl1),
     (''tpidr_gl1'', ext_tpidr_gl1), (''aspsr_gl1'', ext_aspsr_gl1),
     (''vbar_gl1'', ext_vbar_gl1), (''far_gl1'', ext_far_gl1), (''esr_gl1'', ext_esr_gl1),
     (''elr_gl1'', ext_elr_gl1), (''spsr_gl1'', ext_spsr_gl1), (''pmcr1_gl1'', ext_pmcr1_gl1),
     (''afsr1_gl1'', ext_afsr1_gl1), (''sprr_config_el1'', ext_sprr_config_el1),
     (''sprr_amrange_el1'', ext_sprr_amrange_el1), (''sprr_pperm_el1'', ext_sprr_pperm_el1),
     (''sprr_uperm_el0'', ext_sprr_uperm_el0), (''sprr_pmprr_el1'', ext_sprr_pmprr_el1),
     (''sprr_umprr_el1'', ext_sprr_umprr_el1), (''sprr_pperm_sh1_el1'', ext_sprr_pperm_sh1_el1),
     (''sprr_pperm_sh2_el1'', ext_sprr_pperm_sh2_el1),
     (''sprr_pperm_sh3_el1'', ext_sprr_pperm_sh3_el1),
     (''sprr_pperm_sh4_el1'', ext_sprr_pperm_sh4_el1),
     (''sprr_pperm_sh5_el1'', ext_sprr_pperm_sh5_el1),
     (''sprr_pperm_sh6_el1'', ext_sprr_pperm_sh6_el1),
     (''sprr_pperm_sh7_el1'', ext_sprr_pperm_sh7_el1),
     (''sprr_uperm_sh1_el1'', ext_sprr_uperm_sh1_el1),
     (''sprr_uperm_sh2_el1'', ext_sprr_uperm_sh2_el1),
     (''sprr_uperm_sh3_el1'', ext_sprr_uperm_sh3_el1),
     (''sprr_uperm_sh4_el1'', ext_sprr_uperm_sh4_el1),
     (''sprr_uperm_sh5_el1'', ext_sprr_uperm_sh5_el1),
     (''sprr_uperm_sh6_el1'', ext_sprr_uperm_sh6_el1),
     (''sprr_uperm_sh7_el1'', ext_sprr_uperm_sh7_el1), (''acfg_el1'', ext_acfg_el1),
     (''jrange_el1'', ext_jrange_el1), (''jctl_el1'', ext_jctl_el1),
     (''japiakeyhi_el1'', ext_japiakeyhi_el1), (''japiakeylo_el1'', ext_japiakeylo_el1),
     (''japibkeyhi_el1'', ext_japibkeyhi_el1), (''japibkeylo_el1'', ext_japibkeylo_el1),
     (''agtcntrdir_el1'', ext_agtcntrdir_el1)]"
  by (simp_all add: struct_defs u64_fields_def align_up_def layout)

lemma align_up_8: "align_up (8 * k) 8 = 8 * k"
proof -
  have "(8 * k + 7) div 8 = k" by presburger
  then show ?thesis by (simp add: align_up_def)
qed

lemma u64_fields_offset:
  "i < length fs \<Longrightarrow> c_layout (8 * k) (u64_fields fs) ! i = (fs ! i, 8 * (k + i))"
proof (induction fs arbitrary: k i)
  case (Cons f fs)
  have step: "8 * k + 8 = 8 * Suc k" by simp
  show ?case
  proof (cases i)
    case (Suc j)
    with Cons.prems Cons.IH [of j "Suc k"] show ?thesis
      by (simp add: u64_fields_def align_up_8 step del: mult_Suc_right)
  qed (simp add: u64_fields_def align_up_8)
qed simp

end
