(* ===== verification/Ohv_Cfg.thy ===== *)
theory Ohv_Cfg
  imports Ohv_Prelude
begin

text \<open>
  The settings \<open>src/ohv_vcpu.cpp\<close> takes from the environment: the struct \<open>OhvCfg\<close> with one
  member per variable (here a function on the type of its members), the reading of all of
  them, and the "read twice" rule -- once at load time, once more at the first
  \<open>hv_vcpu_run\<close>, and never again.

  The numeric settings go through \<open>strtoull(s, nullptr, 0)\<close>, written out below for the C
  locale.
\<close>

datatype cfg_var =
    cfg_OHV_ALLOW_APSTS_WRITE | cfg_OHV_AMXIDR | cfg_OHV_CNTHCTL | cfg_OHV_HACR_TACTL0
    | cfg_OHV_HCR_NESTED_MASK | cfg_OHV_HCR_TIDCP | cfg_OHV_HCR_XMO | cfg_OHV_IPI_UNGATED
    | cfg_OHV_IRQ_UNGATED | cfg_OHV_MIRROR_GL1 | cfg_OHV_NO_EL2_INJECTION
    | cfg_OHV_NO_ERET_EMULATION | cfg_OHV_NO_HW_GERET | cfg_OHV_NO_MONITOR_NV
    | cfg_OHV_NO_NESTED_SPACE | cfg_OHV_NO_TWE | cfg_OHV_SPIN_WFI | cfg_OHV_SURVEY_SYSREG
    | cfg_OHV_TIMER_GATE | cfg_OHV_TIMER_IRQ_VCPUS | cfg_OHV_TRACE_AFTER | cfg_OHV_TRACE_ALL
    | cfg_OHV_TRACE_AT | cfg_OHV_TRACE_BAND | cfg_OHV_TRACE_CTRR | cfg_OHV_TRACE_ERET
    | cfg_OHV_TRACE_EXIT | cfg_OHV_TRACE_FAULT | cfg_OHV_TRACE_FIRSTRUN | cfg_OHV_TRACE_FROM
    | cfg_OHV_TRACE_GATE | cfg_OHV_TRACE_GL1 | cfg_OHV_TRACE_GLVL | cfg_OHV_TRACE_GXFSTATE
    | cfg_OHV_TRACE_HACR | cfg_OHV_TRACE_HCR | cfg_OHV_TRACE_IMPDEF | cfg_OHV_TRACE_IRQ
    | cfg_OHV_TRACE_KFAULT | cfg_OHV_TRACE_KICK | cfg_OHV_TRACE_KIRQ | cfg_OHV_TRACE_KTIMER
    | cfg_OHV_TRACE_MAX | cfg_OHV_TRACE_NESTED | cfg_OHV_TRACE_ONE | cfg_OHV_TRACE_PAC
    | cfg_OHV_TRACE_SYSREG | cfg_OHV_TRACE_TID2 | cfg_OHV_TRACE_TIMER | cfg_OHV_TRACE_TIMERREG
    | cfg_OHV_TRACE_TMRENA | cfg_OHV_TRACE_UNMATCHED | cfg_OHV_TRACE_USED | cfg_OHV_TRACE_VCPU
    | cfg_OHV_TRACE_VF | cfg_OHV_TRACE_VF_K | cfg_OHV_TRAP_GXF | cfg_OHV_TRY_14C8
    | cfg_OHV_VMKEY_MIRROR

primrec cfg_name :: "cfg_var \<Rightarrow> string" where
  "cfg_name cfg_OHV_ALLOW_APSTS_WRITE = ''OHV_ALLOW_APSTS_WRITE''"
| "cfg_name cfg_OHV_AMXIDR = ''OHV_AMXIDR''"
| "cfg_name cfg_OHV_CNTHCTL = ''OHV_CNTHCTL''"
| "cfg_name cfg_OHV_HACR_TACTL0 = ''OHV_HACR_TACTL0''"
| "cfg_name cfg_OHV_HCR_NESTED_MASK = ''OHV_HCR_NESTED_MASK''"
| "cfg_name cfg_OHV_HCR_TIDCP = ''OHV_HCR_TIDCP''"
| "cfg_name cfg_OHV_HCR_XMO = ''OHV_HCR_XMO''"
| "cfg_name cfg_OHV_IPI_UNGATED = ''OHV_IPI_UNGATED''"
| "cfg_name cfg_OHV_IRQ_UNGATED = ''OHV_IRQ_UNGATED''"
| "cfg_name cfg_OHV_MIRROR_GL1 = ''OHV_MIRROR_GL1''"
| "cfg_name cfg_OHV_NO_EL2_INJECTION = ''OHV_NO_EL2_INJECTION''"
| "cfg_name cfg_OHV_NO_ERET_EMULATION = ''OHV_NO_ERET_EMULATION''"
| "cfg_name cfg_OHV_NO_HW_GERET = ''OHV_NO_HW_GERET''"
| "cfg_name cfg_OHV_NO_MONITOR_NV = ''OHV_NO_MONITOR_NV''"
| "cfg_name cfg_OHV_NO_NESTED_SPACE = ''OHV_NO_NESTED_SPACE''"
| "cfg_name cfg_OHV_NO_TWE = ''OHV_NO_TWE''"
| "cfg_name cfg_OHV_SPIN_WFI = ''OHV_SPIN_WFI''"
| "cfg_name cfg_OHV_SURVEY_SYSREG = ''OHV_SURVEY_SYSREG''"
| "cfg_name cfg_OHV_TIMER_GATE = ''OHV_TIMER_GATE''"
| "cfg_name cfg_OHV_TIMER_IRQ_VCPUS = ''OHV_TIMER_IRQ_VCPUS''"
| "cfg_name cfg_OHV_TRACE_AFTER = ''OHV_TRACE_AFTER''"
| "cfg_name cfg_OHV_TRACE_ALL = ''OHV_TRACE_ALL''"
| "cfg_name cfg_OHV_TRACE_AT = ''OHV_TRACE_AT''"
| "cfg_name cfg_OHV_TRACE_BAND = ''OHV_TRACE_BAND''"
| "cfg_name cfg_OHV_TRACE_CTRR = ''OHV_TRACE_CTRR''"
| "cfg_name cfg_OHV_TRACE_ERET = ''OHV_TRACE_ERET''"
| "cfg_name cfg_OHV_TRACE_EXIT = ''OHV_TRACE_EXIT''"
| "cfg_name cfg_OHV_TRACE_FAULT = ''OHV_TRACE_FAULT''"
| "cfg_name cfg_OHV_TRACE_FIRSTRUN = ''OHV_TRACE_FIRSTRUN''"
| "cfg_name cfg_OHV_TRACE_FROM = ''OHV_TRACE_FROM''"
| "cfg_name cfg_OHV_TRACE_GATE = ''OHV_TRACE_GATE''"
| "cfg_name cfg_OHV_TRACE_GL1 = ''OHV_TRACE_GL1''"
| "cfg_name cfg_OHV_TRACE_GLVL = ''OHV_TRACE_GLVL''"
| "cfg_name cfg_OHV_TRACE_GXFSTATE = ''OHV_TRACE_GXFSTATE''"
| "cfg_name cfg_OHV_TRACE_HACR = ''OHV_TRACE_HACR''"
| "cfg_name cfg_OHV_TRACE_HCR = ''OHV_TRACE_HCR''"
| "cfg_name cfg_OHV_TRACE_IMPDEF = ''OHV_TRACE_IMPDEF''"
| "cfg_name cfg_OHV_TRACE_IRQ = ''OHV_TRACE_IRQ''"
| "cfg_name cfg_OHV_TRACE_KFAULT = ''OHV_TRACE_KFAULT''"
| "cfg_name cfg_OHV_TRACE_KICK = ''OHV_TRACE_KICK''"
| "cfg_name cfg_OHV_TRACE_KIRQ = ''OHV_TRACE_KIRQ''"
| "cfg_name cfg_OHV_TRACE_KTIMER = ''OHV_TRACE_KTIMER''"
| "cfg_name cfg_OHV_TRACE_MAX = ''OHV_TRACE_MAX''"
| "cfg_name cfg_OHV_TRACE_NESTED = ''OHV_TRACE_NESTED''"
| "cfg_name cfg_OHV_TRACE_ONE = ''OHV_TRACE_ONE''"
| "cfg_name cfg_OHV_TRACE_PAC = ''OHV_TRACE_PAC''"
| "cfg_name cfg_OHV_TRACE_SYSREG = ''OHV_TRACE_SYSREG''"
| "cfg_name cfg_OHV_TRACE_TID2 = ''OHV_TRACE_TID2''"
| "cfg_name cfg_OHV_TRACE_TIMER = ''OHV_TRACE_TIMER''"
| "cfg_name cfg_OHV_TRACE_TIMERREG = ''OHV_TRACE_TIMERREG''"
| "cfg_name cfg_OHV_TRACE_TMRENA = ''OHV_TRACE_TMRENA''"
| "cfg_name cfg_OHV_TRACE_UNMATCHED = ''OHV_TRACE_UNMATCHED''"
| "cfg_name cfg_OHV_TRACE_USED = ''OHV_TRACE_USED''"
| "cfg_name cfg_OHV_TRACE_VCPU = ''OHV_TRACE_VCPU''"
| "cfg_name cfg_OHV_TRACE_VF = ''OHV_TRACE_VF''"
| "cfg_name cfg_OHV_TRACE_VF_K = ''OHV_TRACE_VF_K''"
| "cfg_name cfg_OHV_TRAP_GXF = ''OHV_TRAP_GXF''"
| "cfg_name cfg_OHV_TRY_14C8 = ''OHV_TRY_14C8''"
| "cfg_name cfg_OHV_VMKEY_MIRROR = ''OHV_VMKEY_MIRROR''"

type_synonym OhvCfg = "cfg_var \<Rightarrow> string option"
type_synonym environment = "string \<Rightarrow> string option"

definition ohv_cfg_read :: "environment \<Rightarrow> OhvCfg" where
  "ohv_cfg_read getenv = (\<lambda>v. getenv (cfg_name v))"

text \<open>The file's two statics: the settings and whether they have been read for good.\<close>

record cfg_state =
  g_ohv_cfg :: OhvCfg
  g_ohv_cfg_settled :: bool

definition ohv_cfg_init :: "environment \<Rightarrow> cfg_state" where
  "ohv_cfg_init getenv = \<lparr>g_ohv_cfg = ohv_cfg_read getenv, g_ohv_cfg_settled = False\<rparr>"

definition ohv_cfg_settle :: "environment \<Rightarrow> cfg_state \<Rightarrow> cfg_state" where
  "ohv_cfg_settle getenv c =
     (if \<not> g_ohv_cfg_settled c
      then c\<lparr>g_ohv_cfg := ohv_cfg_read getenv, g_ohv_cfg_settled := True\<rparr> else c)"

definition ohv_env :: "OhvCfg \<Rightarrow> cfg_var \<Rightarrow> bool" where
  "ohv_env c v \<longleftrightarrow> c v \<noteq> None"

definition no_settings :: OhvCfg where "no_settings = (\<lambda>_. None)"

lemma ohv_env_no_settings [simp]: "\<not> ohv_env no_settings v" "no_settings v = None"
  by (simp_all add: ohv_env_def no_settings_def)

section \<open>strtoull with base 0\<close>

definition digit_of :: "char \<Rightarrow> nat option" where
  "digit_of ch =
     (let n = of_char ch :: nat in
      if 48 \<le> n \<and> n \<le> 57 then Some (n - 48)
      else if 97 \<le> n \<and> n \<le> 122 then Some (n - 87)
      else if 65 \<le> n \<and> n \<le> 90 then Some (n - 55)
      else None)"

definition digit_in :: "nat \<Rightarrow> char \<Rightarrow> nat option" where
  "digit_in base ch = (case digit_of ch of None \<Rightarrow> None | Some d \<Rightarrow> if d < base then Some d else None)"

fun digits_value :: "nat \<Rightarrow> nat \<Rightarrow> string \<Rightarrow> nat" where
  "digits_value base acc [] = acc"
| "digits_value base acc (ch # cs) =
     (case digit_in base ch of None \<Rightarrow> acc | Some d \<Rightarrow> digits_value base (acc * base + d) cs)"

definition unsigned_value :: "string \<Rightarrow> nat" where
  "unsigned_value s =
     (if s = [] \<or> hd s \<noteq> CHR ''0'' then digits_value 10 0 s
      else if 3 \<le> length s \<and> (s ! 1 = CHR ''x'' \<or> s ! 1 = CHR ''X'') \<and> digit_in 16 (s ! 2) \<noteq> None
      then digits_value 16 0 (drop 2 s)
      else digits_value 8 0 s)"

definition clamp64 :: "nat \<Rightarrow> u64" where
  "clamp64 n = (if n < 2 ^ 64 then of_nat n else - 1)"

definition is_space :: "char \<Rightarrow> bool" where
  "is_space ch \<longleftrightarrow> of_char ch \<in> {9, 10, 11, 12, 13, 32 :: nat}"

definition strtoull :: "string \<Rightarrow> u64" where
  "strtoull s =
     (let t = dropWhile is_space s in
      if t \<noteq> [] \<and> hd t = CHR ''-''
      then (if unsigned_value (tl t) < 2 ^ 64 then - clamp64 (unsigned_value (tl t)) else - 1)
      else if t \<noteq> [] \<and> hd t = CHR ''+'' then clamp64 (unsigned_value (tl t))
      else clamp64 (unsigned_value t))"

text \<open>A numeric setting with its default.\<close>

definition cfg_num :: "OhvCfg \<Rightarrow> cfg_var \<Rightarrow> u64 \<Rightarrow> u64" where
  "cfg_num c v dflt = (case c v of None \<Rightarrow> dflt | Some s \<Rightarrow> strtoull s)"

lemma cfg_num_no_settings [simp]: "cfg_num no_settings v d = d"
  by (simp add: cfg_num_def)

lemma strtoull_examples:
  "strtoull ''0x3f'' = 0x3f" "strtoull ''4'' = 4" "strtoull ''017'' = 15" "strtoull ''0'' = 0"
  "strtoull '' -1'' = - 1" "strtoull ''99999999999999999999'' = - 1" "strtoull ''0xg'' = 0"
  by (simp_all add: strtoull_def unsigned_value_def clamp64_def is_space_def digit_in_def digit_of_def)

section \<open>Settling\<close>

lemma ohv_cfg_settle_read:
  "\<not> g_ohv_cfg_settled c \<Longrightarrow> g_ohv_cfg (ohv_cfg_settle getenv c) = ohv_cfg_read getenv"
  by (simp add: ohv_cfg_settle_def)

lemma ohv_cfg_settle_idem:
  "ohv_cfg_settle getenv' (ohv_cfg_settle getenv c) = ohv_cfg_settle getenv c"
  by (simp add: ohv_cfg_settle_def)

text \<open>The settings are those of the environment at the first run: whatever the
  environment was at load time or becomes later, any number of runs leaves the library with
  what the first of them read, one variable per member.\<close>

theorem cfg_settles_once:
  "g_ohv_cfg (foldl (\<lambda>c e. ohv_cfg_settle e c) (ohv_cfg_init load_env) (first # later)) v
     = first (cfg_name v)"
proof -
  have "foldl (\<lambda>c e. ohv_cfg_settle e c) c later = c" if "g_ohv_cfg_settled c" for c
    using that by (induction later arbitrary: c) (simp_all add: ohv_cfg_settle_def)
  then show ?thesis by (simp add: ohv_cfg_init_def ohv_cfg_settle_def ohv_cfg_read_def)
qed

end
