(* ===== verification/Ohv_State.thy ===== *)
theory Ohv_State
  imports Ohv_Context Ohv_Cfg
begin

text \<open>
  The process-wide state of \<open>src/ohv_internal.h\<close> and \<open>src/ohv_state.cpp\<close>, with the file-local
  statics of the other source files: the VM singleton, the 64 vCPU slots and the kernel's
  trap interface.

  A vCPU's mapped context is \<open>ctx\<close> (two pages of bytes); \<open>ctx_mapped\<close> is whether the pointer
  is non-null.  The small fixed arrays of a slot that are indexed by constants are functions
  on \<open>nat\<close>; the three searched arrays (\<open>ctrr\<close>, \<open>apple_shadow\<close>, \<open>gic_if\<close>) are association
  arrays.  Threads are numbers, and \<open>tl_current_vcpu\<close> maps a thread to the slot it is bound
  to.

  The kernel is not part of the repository: \<open>kernel\<close> is a record with one function per trap,
  each taking the kernel's own state and the trap's argument structure and answering the
  return code, what the structure's output fields hold and the new kernel state.
\<close>

section \<open>Exit records\<close>

record hv_vcpu_exit_exception =
  syndrome :: u64
  virtual_address :: u64
  physical_address :: u64

record hv_vcpu_exit =
  exit_reason :: u32
  exit_exception :: hv_vcpu_exit_exception

definition HV_EXIT_REASON_CANCELED :: u32 where [masks]: "HV_EXIT_REASON_CANCELED = 0"
definition HV_EXIT_REASON_EXCEPTION :: u32 where [masks]: "HV_EXIT_REASON_EXCEPTION = 1"
definition HV_EXIT_REASON_VTIMER_ACTIVATED :: u32
  where [masks]: "HV_EXIT_REASON_VTIMER_ACTIVATED = 2"
definition HV_EXIT_REASON_UNKNOWN :: u32 where [masks]: "HV_EXIT_REASON_UNKNOWN = 3"

section \<open>The vCPU slot\<close>

definition kMaxVcpuIds :: nat where "kMaxVcpuIds = 64"
definition OHV_SHADOW_CNTP_CTL :: nat where [layout]: "OHV_SHADOW_CNTP_CTL = 30"
definition GIC_IF_CAP :: nat where [layout]: "GIC_IF_CAP = 48"
definition CTRR_CAP :: nat where [layout]: "CTRR_CAP = 6"
definition APPLE_SHADOW_CAP :: nat where [layout]: "APPLE_SHADOW_CAP = 96"

record VcpuSlot =
  used :: bool
  owner :: nat
  ctx :: mem
  ctx_mapped :: bool
  slot_id :: u64
  run_count :: u64
  wfi_ticks :: u64
  pub_exit :: hv_vcpu_exit
  exit_requested :: bool
  el2_shadow :: "nat \<Rightarrow> u64"
  nv_off_for_geret :: bool
  vm_tmr_fiq_ena :: u64
  vmm_fiq :: bool
  timer_fiq :: bool
  timer_fired_v :: bool
  timer_fired_p :: bool
  sptm_base :: u64
  gl2_bank :: "nat \<Rightarrow> u64"
  ctrr :: "u8 assoc_array"
  ctx_trace :: "nat \<Rightarrow> u64"
  monitor_hcr :: u64
  kernel_exits :: u32
  vmm_irq :: bool
  in_wfx :: bool
  last_reason :: u32
  last_esr :: u64
  apple_shadow :: "u32 assoc_array"
  id_regs :: "nat \<Rightarrow> u64"
  id_regs_loaded :: bool
  gic_if :: "u16 assoc_array"
  gic_if_ready :: bool
  guest_at_el2 :: bool

definition zero_exit :: hv_vcpu_exit where
  "zero_exit = \<lparr>exit_reason = 0,
     exit_exception = \<lparr>syndrome = 0, virtual_address = 0, physical_address = 0\<rparr>\<rparr>"

text \<open>\<open>VcpuSlot()\<close>: value initialization, with the members' default initializers.\<close>

definition new_VcpuSlot :: VcpuSlot where
  "new_VcpuSlot = \<lparr>used = False, owner = 0, ctx = zero_mem, ctx_mapped = False, slot_id = 0,
     run_count = 0, wfi_ticks = 0, pub_exit = zero_exit, exit_requested = False,
     el2_shadow = (\<lambda>_. 0), nv_off_for_geret = False, vm_tmr_fiq_ena = 3, vmm_fiq = False,
     timer_fiq = False, timer_fired_v = False, timer_fired_p = False, sptm_base = 0,
     gl2_bank = (\<lambda>_. 0), ctrr = [], ctx_trace = (\<lambda>_. 0), monitor_hcr = 0, kernel_exits = 0,
     vmm_irq = False, in_wfx = False, last_reason = 0, last_esr = 0, apple_shadow = [],
     id_regs = (\<lambda>_. 0), id_regs_loaded = False, gic_if = [], gic_if_ready = False,
     guest_at_el2 = False\<rparr>"

text \<open>What every slot keeps of its searched arrays: within their bounds, one entry a key.\<close>

definition slot_wf :: "VcpuSlot \<Rightarrow> bool" where
  "slot_wf s \<longleftrightarrow> assoc_wf GIC_IF_CAP (gic_if s) \<and> assoc_wf CTRR_CAP (ctrr s)
     \<and> assoc_wf APPLE_SHADOW_CAP (apple_shadow s) \<and> (\<not> gic_if_ready s \<longrightarrow> gic_if s = [])"

lemma slot_wf_new [simp]: "slot_wf new_VcpuSlot"
  by (simp add: slot_wf_def assoc_wf_def new_VcpuSlot_def layout)

text \<open>Most operations of a slot change the context or the scalar fields and leave the arrays
  alone.\<close>

lemma slot_wf_cong:
  "gic_if s = gic_if t \<Longrightarrow> ctrr s = ctrr t \<Longrightarrow> apple_shadow s = apple_shadow t
     \<Longrightarrow> gic_if_ready s = gic_if_ready t \<Longrightarrow> slot_wf s = slot_wf t"
  by (simp add: slot_wf_def)

text \<open>Access to the mapped context through the slot.\<close>

definition ctx_rd :: "VcpuSlot \<Rightarrow> nat \<Rightarrow> u64" where
  "ctx_rd s off = rd64 (ctx s) off"
definition ctx_wr :: "nat \<Rightarrow> u64 \<Rightarrow> VcpuSlot \<Rightarrow> VcpuSlot" where
  "ctx_wr off v s = s\<lparr>ctx := wr64 (ctx s) off v\<rparr>"
definition ctx_dirty :: "u64 \<Rightarrow> VcpuSlot \<Rightarrow> VcpuSlot" where
  "ctx_dirty b s = (if ctx_mapped s then s\<lparr>ctx := mark_dirty (ctx s) b\<rparr> else s)"
definition slot_pc :: "VcpuSlot \<Rightarrow> u64" where
  "slot_pc s = ctx_rd s OHV_RW_PC"
definition slot_cpsr :: "VcpuSlot \<Rightarrow> u32" where
  "slot_cpsr s = rd32 (ctx s) OHV_RW_CPSR"
definition set_slot_cpsr :: "u32 \<Rightarrow> VcpuSlot \<Rightarrow> VcpuSlot" where
  "set_slot_cpsr v s = s\<lparr>ctx := wr32 (ctx s) OHV_RW_CPSR v\<rparr>"

definition off_x :: "nat \<Rightarrow> nat" where "off_x n = OHV_RW_REGS_X0 + 8 * n"

lemma ctx_rd_wr [simp]: "ctx_rd (ctx_wr off v s) off = v"
  by (simp add: ctx_rd_def ctx_wr_def)

lemma ctx_rd_wr_other [simp]:
  "a + 8 \<le> b \<or> b + 8 \<le> a \<Longrightarrow> ctx_rd (ctx_wr a v s) b = ctx_rd s b"
  by (simp add: ctx_rd_def ctx_wr_def)

lemma ctx_rd_dirty [simp]:
  "a + 8 \<le> OHV_RW_STATE_DIRTY \<or> OHV_RW_STATE_DIRTY + 8 \<le> a
     \<Longrightarrow> ctx_rd (ctx_dirty b s) a = ctx_rd s a"
  by (simp add: ctx_rd_def ctx_dirty_def)

lemma ctx_rd_set_cpsr [simp]:
  "OHV_RW_CPSR + 4 \<le> a \<or> a + 8 \<le> OHV_RW_CPSR \<Longrightarrow> ctx_rd (set_slot_cpsr v s) a = ctx_rd s a"
  by (auto simp: ctx_rd_def set_slot_cpsr_def)

lemma slot_cpsr_set [simp]: "slot_cpsr (set_slot_cpsr v s) = v"
  by (simp add: slot_cpsr_def set_slot_cpsr_def)

lemma slot_cpsr_wr [simp]:
  "a + 8 \<le> OHV_RW_CPSR \<or> OHV_RW_CPSR + 4 \<le> a \<Longrightarrow> slot_cpsr (ctx_wr a v s) = slot_cpsr s"
  by (simp add: slot_cpsr_def ctx_wr_def)

lemma slot_cpsr_dirty [simp]: "slot_cpsr (ctx_dirty b s) = slot_cpsr s"
  by (simp add: slot_cpsr_def ctx_dirty_def layout)

lemma slot_wf_ctx [simp]:
  "slot_wf (ctx_wr off v s) = slot_wf s" "slot_wf (ctx_dirty b s) = slot_wf s"
  "slot_wf (set_slot_cpsr c s) = slot_wf s" "slot_wf (s\<lparr>ctx := m\<rparr>) = slot_wf s"
  by (simp_all add: slot_wf_def ctx_wr_def ctx_dirty_def set_slot_cpsr_def)

lemma ctx_wr_frame [simp]:
  "ctx_mapped (ctx_wr off v s) = ctx_mapped s" "ctx_mapped (ctx_dirty b s) = ctx_mapped s"
  "ctx_mapped (set_slot_cpsr c s) = ctx_mapped s"
  "used (ctx_wr off v s) = used s" "used (ctx_dirty b s) = used s"
  "used (set_slot_cpsr c s) = used s"
  "guest_at_el2 (ctx_wr off v s) = guest_at_el2 s" "guest_at_el2 (ctx_dirty b s) = guest_at_el2 s"
  "guest_at_el2 (set_slot_cpsr c s) = guest_at_el2 s"
  by (simp_all add: ctx_wr_def ctx_dirty_def set_slot_cpsr_def)

section \<open>Capabilities and the kernel's traps\<close>

text \<open>The fields of \<open>ohv_capabilities_t\<close> the library reads.\<close>

record ohv_capabilities =
  control_hcr :: u64
  ctr_el0 :: u64
  dczid_el0 :: u64
  clidr_el1 :: u64
  ccsidr_el1_inst :: "nat \<Rightarrow> u64"
  ccsidr_el1_data_or_unified :: "nat \<Rightarrow> u64"
  id_aa64dfr0_el1 :: u64
  id_aa64isar0_el1 :: u64
  id_aa64isar1_el1 :: u64
  id_aa64mmfr0_el1 :: u64
  id_aa64mmfr1_el1 :: u64
  id_aa64mmfr2_el1 :: u64
  id_aa64pfr0_el1 :: u64
  id_aa64pfr1_el1 :: u64
  id_aa64smfr0_el1 :: u64
  id_aa64zfr0_el1 :: u64
  ipa_bits_4k :: u64

definition zero_caps :: ohv_capabilities where
  "zero_caps = \<lparr>control_hcr = 0, ctr_el0 = 0, dczid_el0 = 0, clidr_el1 = 0,
     ccsidr_el1_inst = (\<lambda>_. 0), ccsidr_el1_data_or_unified = (\<lambda>_. 0), id_aa64dfr0_el1 = 0,
     id_aa64isar0_el1 = 0, id_aa64isar1_el1 = 0, id_aa64mmfr0_el1 = 0, id_aa64mmfr1_el1 = 0,
     id_aa64mmfr2_el1 = 0, id_aa64pfr0_el1 = 0, id_aa64pfr1_el1 = 0, id_aa64smfr0_el1 = 0,
     id_aa64zfr0_el1 = 0, ipa_bits_4k = 0\<rparr>"

record ohv_vm_create_t =
  vc_min_ipa :: u64
  vc_ipa_size :: u64
  vc_granule :: u32
  vc_flags :: u32
  vc_isa :: u32

record ohv_vm_map_item_t =
  mi_uva :: u64
  mi_ipa :: u64
  mi_size :: u64
  mi_flags :: u64
  mi_asid :: u64

record ohv_vm_addrspace_create_t =
  as_min_ipa :: u64
  as_ipa_size :: u64
  as_granule :: u32
  as_flags :: u32

record ohv_vm_stage1_tlb_op_t =
  tlb_asid :: u64
  tlb_op :: u64
  tlb_param :: u64

record ohv_vm_monitor_data_abort_t =
  mda_cmd :: u64
  mda_asid :: u64
  mda_context :: u64
  mda_base_ipa :: u64
  mda_size :: u64
  mda_access_type :: u64
  mda_port_name :: u32

datatype map_trap = TRAP_VM_MAP | TRAP_VM_UNMAP | TRAP_VM_PROTECT

text \<open>\<open>k_vcpu_create\<close> answers the new context's bytes and whether the interface pointer it
  copied out is non-null.  The two traps that change a mapped context, run and sync, are part
  of the surroundings a vCPU operation sees (\<open>world\<close> below).\<close>

record 'k kernel =
  k_capabilities :: "'k \<Rightarrow> hv_return \<times> ohv_capabilities \<times> 'k"
  k_vm_create :: "'k \<Rightarrow> ohv_vm_create_t \<Rightarrow> hv_return \<times> 'k"
  k_vm_destroy :: "'k \<Rightarrow> hv_return \<times> 'k"
  k_map :: "'k \<Rightarrow> map_trap \<Rightarrow> ohv_vm_map_item_t \<Rightarrow> hv_return \<times> 'k"
  k_addrspace_create :: "'k \<Rightarrow> ohv_vm_addrspace_create_t \<Rightarrow> hv_return \<times> u64 \<times> 'k"
  k_stage1_tlb_op :: "'k \<Rightarrow> ohv_vm_stage1_tlb_op_t \<Rightarrow> hv_return \<times> 'k"
  k_monitor_data_abort :: "'k \<Rightarrow> ohv_vm_monitor_data_abort_t \<Rightarrow> hv_return \<times> 'k"
  k_set_svcr :: "'k \<Rightarrow> u64 \<Rightarrow> hv_return \<times> 'k"
  k_amx_prepare :: "'k \<Rightarrow> hv_return \<times> 'k"
  k_vcpu_create :: "'k \<Rightarrow> u64 \<Rightarrow> hv_return \<times> bool \<times> mem \<times> 'k"
  k_vcpu_destroy :: "'k \<Rightarrow> hv_return \<times> 'k"
  k_set_address_space :: "'k \<Rightarrow> u64 \<Rightarrow> hv_return \<times> 'k"
  k_run_cancel :: "'k \<Rightarrow> u64 \<Rightarrow> hv_return \<times> 'k"

section \<open>The interrupt controller model\<close>

record hv_gic_config_s =
  distributor_base :: u64
  redistributor_base :: u64
  msi_region_base :: u64
  msi_intid_base :: u32
  msi_intid_count :: u32

record GicModel =
  gic_cfg :: hv_gic_config_s
  dist :: "nat \<Rightarrow> u64"
  redist :: "nat \<Rightarrow> nat \<Rightarrow> u64"
  icc :: "nat \<Rightarrow> nat \<Rightarrow> u64"
  ich :: "nat \<Rightarrow> nat \<Rightarrow> u64"
  icv :: "nat \<Rightarrow> nat \<Rightarrow> u64"
  msi :: "nat \<Rightarrow> u64"

section \<open>Process globals\<close>

record map_record =
  mr_uva :: u64
  mr_ipa :: u64
  mr_size :: u64

record ohv_vm_state =
  g_vm_alive :: bool
  g_vm_isa :: u32
  g_vm_el2 :: bool
  g_vm_vhe :: bool
  g_nested_asid :: "u64 list"
  g_maps :: "map_record list"
  g_machine_ipa :: "u32 option"
  g_caps :: "ohv_capabilities option"
  g_vcpus :: "nat \<Rightarrow> VcpuSlot"
  tl_current_vcpu :: "nat \<Rightarrow> nat option"
  g_max_vcpus :: u32
  g_gic :: "GicModel option"

definition OHV_VM_ISA_NONE :: u32 where [masks]: "OHV_VM_ISA_NONE = 0"
definition OHV_VM_ISA_GENERIC :: u32 where [masks]: "OHV_VM_ISA_GENERIC = 1"
definition OHV_VM_ISA_APPLE :: u32 where [masks]: "OHV_VM_ISA_APPLE = 3"
definition OHV_VM_ISA_INTERNAL :: u32 where [masks]: "OHV_VM_ISA_INTERNAL = 4"

definition initial_state :: ohv_vm_state where
  "initial_state = \<lparr>g_vm_alive = False, g_vm_isa = OHV_VM_ISA_NONE, g_vm_el2 = False,
     g_vm_vhe = False, g_nested_asid = [], g_maps = [], g_machine_ipa = None, g_caps = None,
     g_vcpus = (\<lambda>_. new_VcpuSlot), tl_current_vcpu = (\<lambda>_. None), g_max_vcpus = 64,
     g_gic = None\<rparr>"

definition require_vm :: "ohv_vm_state \<Rightarrow> hv_return" where
  "require_vm g = (if g_vm_alive g then HV_SUCCESS else HV_NO_DEVICE)"

definition find_vcpu :: "ohv_vm_state \<Rightarrow> u64 \<Rightarrow> nat option" where
  "find_vcpu g i =
     (if of_nat kMaxVcpuIds \<le> i then None
      else if used (g_vcpus g (unat i)) then Some (unat i) else None)"

definition owned_vcpu :: "nat \<Rightarrow> ohv_vm_state \<Rightarrow> u64 \<Rightarrow> nat option" where
  "owned_vcpu me g i =
     (case find_vcpu g i of
        None \<Rightarrow> None
      | Some n \<Rightarrow>
          (case tl_current_vcpu g me of
             None \<Rightarrow> Some n
           | Some c \<Rightarrow> if c \<noteq> n then None else Some n))"

definition upd_slot :: "nat \<Rightarrow> (VcpuSlot \<Rightarrow> VcpuSlot) \<Rightarrow> ohv_vm_state \<Rightarrow> ohv_vm_state" where
  "upd_slot n f g = g\<lparr>g_vcpus := (g_vcpus g)(n := f (g_vcpus g n))\<rparr>"

lemma find_vcpu_Some: "find_vcpu g i = Some n \<Longrightarrow> n < 64 \<and> n = unat i \<and> used (g_vcpus g n)"
  by (auto simp: find_vcpu_def kMaxVcpuIds_def word_le_nat_alt split: if_splits)

lemma owned_vcpu_Some: "owned_vcpu me g i = Some n \<Longrightarrow> n < 64 \<and> n = unat i \<and> used (g_vcpus g n)"
  by (auto simp: owned_vcpu_def dest: find_vcpu_Some split: option.splits if_splits)

lemma owned_vcpu_bound:
  "owned_vcpu me g i = Some n \<Longrightarrow> tl_current_vcpu g me = None \<or> tl_current_vcpu g me = Some n"
  by (auto simp: owned_vcpu_def split: option.splits if_splits)

section \<open>What a vCPU operation sees\<close>

text \<open>
  The statics the exit path of \<open>src/ohv_vcpu.cpp\<close> keeps across vCPUs: the PSTATE field it
  swallows (\<open>held\<close>), the capabilities two functions cache for themselves, the lowest monitor
  band any vCPU has seen and the kernel-is-running mark.
\<close>

record ohv_statics =
  held :: u64
  tid2_caps :: "ohv_capabilities option"
  id_caps :: "ohv_capabilities option"
  g_monitor_band :: u64
  g_kernel_running :: bool

definition initial_statics :: ohv_statics where
  "initial_statics = \<lparr>held = 0, tid2_caps = None, id_caps = None, g_monitor_band = 0,
     g_kernel_running = False\<rparr>"

text \<open>
  The surroundings of one operation: the settings, the host's counter (\<open>mach_absolute_time\<close>)
  and its frequency, the guest memory map with the process memory behind it, the machine's
  IPA size (what \<open>machine_ipa_bits\<close> of \<open>src/ohv_vm.cpp\<close> answers), what trap 0 answers and
  what the sync trap does to the context.
\<close>

record world =
  w_cfg :: OhvCfg
  w_now :: u64
  w_cntfrq :: u64
  w_maps :: "map_record list"
  w_host :: "u64 \<Rightarrow> u8"
  w_machine_ipa :: u32
  w_capabilities :: "hv_return \<times> ohv_capabilities"
  w_sync :: "mem \<Rightarrow> hv_return \<times> mem"

definition sync_ctx :: "world \<Rightarrow> VcpuSlot \<Rightarrow> hv_return \<times> VcpuSlot" where
  "sync_ctx w s = (case w_sync w (ctx s) of (r, m) \<Rightarrow> (r, s\<lparr>ctx := m\<rparr>))"

text \<open>A failed trap 0 copies nothing out and leaves the caller's zeroed structure.\<close>

definition trap_capabilities :: "world \<Rightarrow> ohv_capabilities" where
  "trap_capabilities w =
     (case w_capabilities w of (r, c) \<Rightarrow> if r = HV_SUCCESS then c else zero_caps)"

lemma sync_ctx_frame [simp]:
  "sync_ctx w s = (r, s') \<Longrightarrow> ctx_mapped s' = ctx_mapped s \<and> slot_wf s' = slot_wf s
     \<and> guest_at_el2 s' = guest_at_el2 s \<and> used s' = used s"
  by (auto simp: sync_ctx_def split: prod.splits)

section \<open>Cached capabilities\<close>

text \<open>\<open>ohv_caps_cached\<close>: one successful trap 0, remembered; until then every call tries again
  and answers whatever its failed copy-out left, which the model takes as the zeroes the
  static starts from.\<close>

definition ohv_caps_cached ::
  "'k kernel \<Rightarrow> ohv_vm_state \<Rightarrow> 'k \<Rightarrow> ohv_capabilities \<times> ohv_vm_state \<times> 'k" where
  "ohv_caps_cached K g k =
     (case g_caps g of
        Some c \<Rightarrow> (c, g, k)
      | None \<Rightarrow>
          (case k_capabilities K k of
             (r, c, k') \<Rightarrow>
               if r = HV_SUCCESS then (c, g\<lparr>g_caps := Some c\<rparr>, k') else (zero_caps, g, k')))"

lemma ohv_caps_cached_again:
  assumes "ohv_caps_cached K g k = (c, g', k')" and "g_caps g' \<noteq> None"
  shows "ohv_caps_cached K g' k'' = (c, g', k'')"
  using assms by (auto simp: ohv_caps_cached_def split: option.splits prod.splits if_splits)

end
