(* ===== verification/Ohv_Vm.thy ===== *)
theory Ohv_Vm
  imports Ohv_State "HOL-Library.Multiset"
begin

text \<open>
  \<open>src/ohv_vm.cpp\<close>: the VM configuration object, the VM's life cycle with the nested address
  spaces a guest hypervisor needs, and guest memory: the map, unmap and protect traps and the
  record of mappings behind \<open>ohv_guest_ptr\<close>.

  A handle that may be null is an option; an out-parameter that may be null is a \<open>bool\<close>
  argument saying it is not, and what an operation stores through it is an option (\<open>None\<close>
  when it stores nothing).
\<close>

section \<open>Configuration\<close>

record hv_vm_config_s =
  ipa_bits :: u32
  granule :: u32
  el2_enabled :: u8
  vhe_enabled :: u8
  isa :: u32

definition hv_vm_config_create :: "bool \<Rightarrow> hv_vm_config_s option" where
  "hv_vm_config_create have_memory =
     (if \<not> have_memory then None
      else Some \<lparr>ipa_bits = 0, granule = 0, el2_enabled = 0, vhe_enabled = 0,
                 isa = OHV_VM_ISA_APPLE\<rparr>)"

definition hv_vm_get_isa :: "ohv_vm_state \<Rightarrow> u32" where
  "hv_vm_get_isa g = (if g_vm_alive g then g_vm_isa g else OHV_VM_ISA_NONE)"

definition hv_vm_get_isa_out :: "ohv_vm_state \<Rightarrow> bool \<Rightarrow> hv_return \<times> u32 option" where
  "hv_vm_get_isa_out g p =
     (if \<not> p then (HV_BAD_ARGUMENT, None)
      else if \<not> g_vm_alive g then (HV_BAD_ARGUMENT, None)
      else (HV_SUCCESS, Some (g_vm_isa g)))"

definition machine_ipa_bits ::
  "'k kernel \<Rightarrow> ohv_vm_state \<Rightarrow> 'k \<Rightarrow> u32 \<times> ohv_vm_state \<times> 'k" where
  "machine_ipa_bits K g k =
     (case g_machine_ipa g of
        Some b \<Rightarrow> (b, g, k)
      | None \<Rightarrow>
          (case k_capabilities K k of
             (r, c, k') \<Rightarrow>
               let b = (if r = HV_SUCCESS \<and> 24 \<le> ipa_bits_4k c \<and> ipa_bits_4k c \<le> 52
                        then ucast (ipa_bits_4k c) else 40)
               in (b, g\<lparr>g_machine_ipa := Some b\<rparr>, k')))"

definition hv_vm_config_get_max_ipa_size ::
  "'k kernel \<Rightarrow> bool \<Rightarrow> ohv_vm_state \<Rightarrow> 'k \<Rightarrow> hv_return \<times> u32 option \<times> ohv_vm_state \<times> 'k" where
  "hv_vm_config_get_max_ipa_size K p g k =
     (if \<not> p then (HV_BAD_ARGUMENT, None, g, k)
      else case machine_ipa_bits K g k of (b, g', k') \<Rightarrow> (HV_SUCCESS, Some b, g', k'))"

definition hv_vm_config_set_ipa_size ::
  "hv_vm_config_s option \<Rightarrow> u32 \<Rightarrow> hv_return \<times> hv_vm_config_s option" where
  "hv_vm_config_set_ipa_size c bits =
     (case c of None \<Rightarrow> (HV_BAD_ARGUMENT, None) | Some c \<Rightarrow> (HV_SUCCESS, Some (c\<lparr>ipa_bits := bits\<rparr>)))"

definition hv_vm_config_get_ipa_size ::
  "hv_vm_config_s option \<Rightarrow> bool \<Rightarrow> hv_return \<times> u32 option" where
  "hv_vm_config_get_ipa_size c p =
     (case c of None \<Rightarrow> (HV_BAD_ARGUMENT, None)
      | Some c \<Rightarrow> if \<not> p then (HV_BAD_ARGUMENT, None) else (HV_SUCCESS, Some (ipa_bits c)))"

definition hv_vm_config_get_el2_enabled ::
  "hv_vm_config_s option \<Rightarrow> bool \<Rightarrow> hv_return \<times> bool option" where
  "hv_vm_config_get_el2_enabled c p =
     (case c of None \<Rightarrow> (HV_BAD_ARGUMENT, None)
      | Some c \<Rightarrow> if \<not> p then (HV_BAD_ARGUMENT, None) else (HV_SUCCESS, Some (el2_enabled c \<noteq> 0)))"

definition hv_vm_config_set_el2_enabled ::
  "hv_vm_config_s option \<Rightarrow> bool \<Rightarrow> hv_return \<times> hv_vm_config_s option" where
  "hv_vm_config_set_el2_enabled c en =
     (case c of None \<Rightarrow> (HV_BAD_ARGUMENT, None)
      | Some c \<Rightarrow> (HV_SUCCESS, Some (c\<lparr>el2_enabled := (if en then 1 else 0)\<rparr>)))"

definition hv_vm_config_set_vhe_enabled ::
  "hv_vm_config_s option \<Rightarrow> bool \<Rightarrow> hv_return \<times> hv_vm_config_s option" where
  "hv_vm_config_set_vhe_enabled c en =
     (case c of None \<Rightarrow> (HV_BAD_ARGUMENT, None)
      | Some c \<Rightarrow>
          if en \<and> el2_enabled c = 0 then (HV_BAD_ARGUMENT, Some c)
          else (HV_SUCCESS, Some (c\<lparr>vhe_enabled := (if en then 1 else 0)\<rparr>)))"

definition hv_vm_config_get_vhe_enabled ::
  "hv_vm_config_s option \<Rightarrow> bool \<Rightarrow> hv_return \<times> bool option" where
  "hv_vm_config_get_vhe_enabled c p =
     (case c of None \<Rightarrow> (HV_BAD_ARGUMENT, None)
      | Some c \<Rightarrow> if \<not> p then (HV_BAD_ARGUMENT, None) else (HV_SUCCESS, Some (vhe_enabled c \<noteq> 0)))"

definition hv_vm_config_set_isa ::
  "hv_vm_config_s option \<Rightarrow> u32 \<Rightarrow> hv_return \<times> hv_vm_config_s option" where
  "hv_vm_config_set_isa c i =
     (case c of None \<Rightarrow> (HV_BAD_ARGUMENT, None)
      | Some c \<Rightarrow> if OHV_VM_ISA_INTERNAL < i then (HV_BAD_ARGUMENT, Some c)
                  else (HV_SUCCESS, Some (c\<lparr>isa := i\<rparr>)))"

definition hv_vm_config_get_isa ::
  "hv_vm_config_s option \<Rightarrow> bool \<Rightarrow> hv_return \<times> u32 option" where
  "hv_vm_config_get_isa c p =
     (case c of None \<Rightarrow> (HV_BAD_ARGUMENT, None)
      | Some c \<Rightarrow> if \<not> p then (HV_BAD_ARGUMENT, None) else (HV_SUCCESS, Some (isa c)))"

definition hv_vm_config_get_default_ipa_granule :: "bool \<Rightarrow> hv_return \<times> u32 option" where
  "hv_vm_config_get_default_ipa_granule p =
     (if \<not> p then (HV_BAD_ARGUMENT, None) else (HV_SUCCESS, Some 0x4000))"

definition hv_vm_config_get_ipa_granule ::
  "hv_vm_config_s option \<Rightarrow> bool \<Rightarrow> hv_return \<times> u32 option" where
  "hv_vm_config_get_ipa_granule c p =
     (case c of None \<Rightarrow> (HV_BAD_ARGUMENT, None)
      | Some c \<Rightarrow> if \<not> p then (HV_BAD_ARGUMENT, None)
                  else (HV_SUCCESS, Some (if granule c \<noteq> 0 then granule c else 0x4000)))"

definition hv_vm_config_set_ipa_granule ::
  "hv_vm_config_s option \<Rightarrow> u32 \<Rightarrow> hv_return \<times> hv_vm_config_s option" where
  "hv_vm_config_set_ipa_granule c v =
     (case c of None \<Rightarrow> (HV_BAD_ARGUMENT, None)
      | Some c \<Rightarrow> if v \<noteq> 0x1000 \<and> v \<noteq> 0x4000 \<and> v \<noteq> 0x10000 then (HV_BAD_ARGUMENT, Some c)
                  else (HV_SUCCESS, Some (c\<lparr>granule := v\<rparr>)))"

section \<open>Life cycle\<close>

definition kNestedSpaces :: nat where "kNestedSpaces = 8"

definition ohv_nested_asid :: "ohv_vm_state \<Rightarrow> nat \<Rightarrow> u64" where
  "ohv_nested_asid g index =
     (if index < length (g_nested_asid g) then g_nested_asid g ! index else 0)"

text \<open>The loop of \<open>nested_spaces_create\<close>, \<open>n\<close> spaces still to ask for.\<close>

fun nested_spaces_create ::
  "'k kernel \<Rightarrow> nat \<Rightarrow> ohv_vm_state \<Rightarrow> 'k \<Rightarrow> ohv_vm_state \<times> 'k" where
  "nested_spaces_create K 0 g k = (g, k)"
| "nested_spaces_create K (Suc n) g k =
     (case k_addrspace_create K k
             \<lparr>as_min_ipa = 0, as_ipa_size = 0, as_granule = 0x1000, as_flags = 0\<rparr> of
        (r, asid, k') \<Rightarrow>
          if r \<noteq> HV_SUCCESS then (g, k')
          else nested_spaces_create K n
                 (if length (g_nested_asid g) < kNestedSpaces
                  then g\<lparr>g_nested_asid := g_nested_asid g @ [asid]\<rparr> else g) k')"

text \<open>\<open>1ull << bits\<close> is undefined in C for 64 and more; the model shifts as the target does,
  by the low six bits.\<close>

definition shl64 :: "u64 \<Rightarrow> u32 \<Rightarrow> u64" where
  "shl64 v n = push_bit (unat n mod 64) v"

text \<open>The IPA size of a new VM: the configuration's, or the machine's.\<close>

definition create_ipa_bits ::
  "'k kernel \<Rightarrow> hv_vm_config_s option \<Rightarrow> ohv_vm_state \<Rightarrow> 'k \<Rightarrow> u32 \<times> ohv_vm_state \<times> 'k" where
  "create_ipa_bits K config g k =
     (case config of
        Some c \<Rightarrow> if ipa_bits c \<noteq> 0 then (ipa_bits c, g, k) else machine_ipa_bits K g k
      | None \<Rightarrow> machine_ipa_bits K g k)"

definition config_el2 :: "hv_vm_config_s option \<Rightarrow> bool" where
  "config_el2 config = (case config of Some c \<Rightarrow> el2_enabled c \<noteq> 0 | None \<Rightarrow> False)"
definition config_vhe :: "hv_vm_config_s option \<Rightarrow> bool" where
  "config_vhe config = (case config of Some c \<Rightarrow> vhe_enabled c \<noteq> 0 | None \<Rightarrow> False)"

definition vm_create_args :: "hv_vm_config_s option \<Rightarrow> u32 \<Rightarrow> ohv_vm_create_t" where
  "vm_create_args config bits =
     \<lparr>vc_min_ipa = 0,
      vc_ipa_size = (if bits \<noteq> 0 then shl64 1 bits else 0),
      vc_granule = (case config of Some c \<Rightarrow> granule c | None \<Rightarrow> 0),
      vc_flags = 0,
      vc_isa = (case config of Some c \<Rightarrow> isa c | None \<Rightarrow> OHV_VM_ISA_APPLE)\<rparr>"

definition hv_vm_create ::
  "'k kernel \<Rightarrow> hv_vm_config_s option \<Rightarrow> ohv_vm_state \<Rightarrow> 'k \<Rightarrow> hv_return \<times> ohv_vm_state \<times> 'k" where
  "hv_vm_create K config g k =
     (if g_vm_alive g then (HV_BUSY, g, k)
      else
        let (bits, g1, k1) = create_ipa_bits K config g k;
            args = vm_create_args config bits;
            (r, k2) = k_vm_create K k1 args
        in if r = HV_SUCCESS
           then let g2 = g1\<lparr>g_vm_alive := True, g_vm_isa := vc_isa args,
                      g_vm_el2 := config_el2 config, g_vm_vhe := config_vhe config\<rparr>;
                    (g3, k3) = (if g_vm_el2 g2 then nested_spaces_create K kNestedSpaces g2 k2
                                else (g2, k2))
                in (r, g3, k3)
           else (r, g1, k2))"

definition hv_vm_destroy ::
  "'k kernel \<Rightarrow> ohv_vm_state \<Rightarrow> 'k \<Rightarrow> hv_return \<times> ohv_vm_state \<times> 'k" where
  "hv_vm_destroy K g k =
     (if \<not> g_vm_alive g then (HV_NO_DEVICE, g, k)
      else case k_vm_destroy K k of
        (r, k') \<Rightarrow>
          if r = HV_SUCCESS
          then (r, g\<lparr>g_vm_alive := False, g_gic := None,
                      g_vcpus := (\<lambda>i. if i < kMaxVcpuIds then new_VcpuSlot else g_vcpus g i)\<rparr>, k')
          else (r, g, k'))"

definition hv_vm_get_max_vcpu_count :: "ohv_vm_state \<Rightarrow> bool \<Rightarrow> hv_return \<times> u32 option" where
  "hv_vm_get_max_vcpu_count g p =
     (if \<not> p then (HV_BAD_ARGUMENT, None) else (HV_SUCCESS, Some (g_max_vcpus g)))"

section \<open>Guest memory\<close>

text \<open>The same memory into every nested space, whatever each of them answers.\<close>

fun map_in_spaces ::
  "'k kernel \<Rightarrow> map_trap \<Rightarrow> ohv_vm_map_item_t \<Rightarrow> u64 list \<Rightarrow> 'k \<Rightarrow> 'k" where
  "map_in_spaces K t item [] k = k"
| "map_in_spaces K t item (a # as) k =
     map_in_spaces K t item as (snd (k_map K k t (item\<lparr>mi_asid := a\<rparr>)))"

definition map_op ::
  "'k kernel \<Rightarrow> map_trap \<Rightarrow> u64 \<Rightarrow> u64 \<Rightarrow> u64 \<Rightarrow> u64 \<Rightarrow> ohv_vm_state \<Rightarrow> 'k \<Rightarrow> hv_return \<times> 'k" where
  "map_op K t uva ipa sz flags g k =
     (if require_vm g \<noteq> HV_SUCCESS then (require_vm g, k)
      else if sz = 0 \<or> sz AND 0x3fff \<noteq> 0 \<or> ipa AND 0x3ff \<noteq> 0 then (HV_BAD_ARGUMENT, k)
      else
        let item = \<lparr>mi_uva = uva, mi_ipa = ipa, mi_size = sz, mi_flags = flags, mi_asid = 0\<rparr>;
            (r, k') = k_map K k t item
        in if r = HV_SUCCESS \<and> g_vm_el2 g
           then (r, map_in_spaces K t item (g_nested_asid g) k') else (r, k'))"

fun replace_map :: "map_record \<Rightarrow> map_record list \<Rightarrow> map_record list option" where
  "replace_map n [] = None"
| "replace_map n (m # ms) =
     (if mr_ipa m = mr_ipa n then Some (n # ms) else map_option ((#) m) (replace_map n ms))"

definition map_remember :: "map_record \<Rightarrow> map_record list \<Rightarrow> map_record list" where
  "map_remember n ms =
     (case replace_map n ms of
        Some ms' \<Rightarrow> ms'
      | None \<Rightarrow> if length ms < 64 then ms @ [n] else ms)"

text \<open>\<open>g_maps[i] = g_maps[--g_map_count]\<close>: the last record takes the forgotten one's place.\<close>

fun index_map :: "u64 \<Rightarrow> map_record list \<Rightarrow> nat option" where
  "index_map a [] = None"
| "index_map a (m # ms) = (if mr_ipa m = a then Some 0 else map_option Suc (index_map a ms))"

definition map_forget :: "u64 \<Rightarrow> map_record list \<Rightarrow> map_record list" where
  "map_forget a ms =
     (case index_map a ms of None \<Rightarrow> ms | Some i \<Rightarrow> butlast (ms[i := last ms]))"

definition covers :: "map_record \<Rightarrow> u64 \<Rightarrow> u64 \<Rightarrow> bool" where
  "covers m ipa len \<longleftrightarrow> mr_ipa m \<le> ipa \<and> ipa + len \<le> mr_ipa m + mr_size m"

fun ohv_guest_ptr :: "map_record list \<Rightarrow> u64 \<Rightarrow> u64 \<Rightarrow> u64 option" where
  "ohv_guest_ptr [] ipa len = None"
| "ohv_guest_ptr (m # ms) ipa len =
     (if covers m ipa len then Some (mr_uva m + (ipa - mr_ipa m)) else ohv_guest_ptr ms ipa len)"

definition hv_vm_map ::
  "'k kernel \<Rightarrow> u64 \<Rightarrow> u64 \<Rightarrow> u64 \<Rightarrow> u64 \<Rightarrow> ohv_vm_state \<Rightarrow> 'k \<Rightarrow> hv_return \<times> ohv_vm_state \<times> 'k" where
  "hv_vm_map K addr ipa sz flags g k =
     (if addr = 0 then (HV_BAD_ARGUMENT, g, k)
      else case map_op K TRAP_VM_MAP addr ipa sz flags g k of
        (r, k') \<Rightarrow>
          if r = HV_SUCCESS
          then (r, g\<lparr>g_maps := map_remember \<lparr>mr_uva = addr, mr_ipa = ipa, mr_size = sz\<rparr>
                                 (g_maps g)\<rparr>, k')
          else (r, g, k'))"

definition hv_vm_unmap ::
  "'k kernel \<Rightarrow> u64 \<Rightarrow> u64 \<Rightarrow> ohv_vm_state \<Rightarrow> 'k \<Rightarrow> hv_return \<times> ohv_vm_state \<times> 'k" where
  "hv_vm_unmap K ipa sz g k =
     (let g' = g\<lparr>g_maps := map_forget ipa (g_maps g)\<rparr>;
          (r, k') = map_op K TRAP_VM_UNMAP 0 ipa sz 0 g' k
      in (r, g', k'))"

definition hv_vm_protect ::
  "'k kernel \<Rightarrow> u64 \<Rightarrow> u64 \<Rightarrow> u64 \<Rightarrow> ohv_vm_state \<Rightarrow> 'k \<Rightarrow> hv_return \<times> 'k" where
  "hv_vm_protect K ipa sz flags g k = map_op K TRAP_VM_PROTECT 0 ipa sz flags g k"

text \<open>\<open>mmap\<close> and \<open>munmap\<close> are the operating system's: what they answer is an argument.\<close>

definition hv_vm_allocate :: "bool \<Rightarrow> u64 \<Rightarrow> u64 option \<Rightarrow> hv_return \<times> u64 option" where
  "hv_vm_allocate p sz mapped =
     (if \<not> p \<or> sz = 0 then (HV_BAD_ARGUMENT, None)
      else case mapped of None \<Rightarrow> (HV_NO_RESOURCES, None) | Some a \<Rightarrow> (HV_SUCCESS, Some a))"

datatype munmap_result = Munmap_ok | Munmap_einval | Munmap_other

definition hv_vm_deallocate :: "u64 \<Rightarrow> u64 \<Rightarrow> munmap_result \<Rightarrow> hv_return" where
  "hv_vm_deallocate uva sz res =
     (if uva = 0 \<or> sz = 0 then HV_BAD_ARGUMENT
      else case res of Munmap_ok \<Rightarrow> HV_SUCCESS | Munmap_einval \<Rightarrow> HV_BAD_ARGUMENT
           | Munmap_other \<Rightarrow> HV_ERROR)"

text \<open>Loads from guest physical memory, through the pointer.\<close>

definition guest_rd64 :: "world \<Rightarrow> u64 \<Rightarrow> u64 option" where
  "guest_rd64 w ipa =
     map_option (\<lambda>p. le64 (\<lambda>i. w_host w (p + of_nat i))) (ohv_guest_ptr (w_maps w) ipa 8)"
definition guest_rd32 :: "world \<Rightarrow> u64 \<Rightarrow> u32 option" where
  "guest_rd32 w ipa =
     map_option (\<lambda>p. le32 (\<lambda>i. w_host w (p + of_nat i))) (ohv_guest_ptr (w_maps w) ipa 4)"

text \<open>A kernel that grants everything, numbering the address spaces from its state; the
  witnesses run on it.\<close>

definition granting_kernel :: "nat kernel" where
  "granting_kernel = \<lparr>k_capabilities = (\<lambda>k. (HV_SUCCESS, zero_caps, k)),
     k_vm_create = (\<lambda>k _. (HV_SUCCESS, k)), k_vm_destroy = (\<lambda>k. (HV_SUCCESS, k)),
     k_map = (\<lambda>k _ _. (HV_SUCCESS, k)),
     k_addrspace_create = (\<lambda>k _. (HV_SUCCESS, of_nat k, Suc k)),
     k_stage1_tlb_op = (\<lambda>k _. (HV_SUCCESS, k)), k_monitor_data_abort = (\<lambda>k _. (HV_SUCCESS, k)),
     k_set_svcr = (\<lambda>k _. (HV_SUCCESS, k)), k_amx_prepare = (\<lambda>k. (HV_SUCCESS, k)),
     k_vcpu_create = (\<lambda>k _. (HV_SUCCESS, True, wr64 zero_mem 0x4000 0x2068797000000000, k)),
     k_vcpu_destroy = (\<lambda>k. (HV_SUCCESS, k)), k_set_address_space = (\<lambda>k _. (HV_SUCCESS, k)),
     k_run_cancel = (\<lambda>k _. (HV_SUCCESS, k))\<rparr>"

section \<open>The record of mappings\<close>

definition maps_wf :: "map_record list \<Rightarrow> bool" where
  "maps_wf ms \<longleftrightarrow> length ms \<le> 64 \<and> distinct (map mr_ipa ms)"

lemma replace_map_None: "replace_map n ms = None \<longleftrightarrow> mr_ipa n \<notin> mr_ipa ` set ms"
  by (induction ms) auto

lemma replace_map_Some:
  assumes "replace_map n ms = Some ms'"
  shows "map mr_ipa ms' = map mr_ipa ms" and "n \<in> set ms'"
    and "set ms' \<subseteq> insert n (set ms)"
  using assms by (induction ms arbitrary: ms') (auto split: if_splits)

lemma index_map_None: "index_map a ms = None \<longleftrightarrow> a \<notin> mr_ipa ` set ms"
  by (induction ms) auto

lemma index_map_Some: "index_map a ms = Some i \<Longrightarrow> i < length ms \<and> mr_ipa (ms ! i) = a"
  by (induction ms arbitrary: i) (auto split: if_splits)

lemma maps_wf_remember:
  assumes "maps_wf ms" shows "maps_wf (map_remember n ms)"
proof (cases "replace_map n ms")
  case None
  then have "mr_ipa n \<notin> mr_ipa ` set ms" by (simp add: replace_map_None)
  with None assms show ?thesis by (auto simp: map_remember_def maps_wf_def)
next
  case (Some ms')
  from arg_cong [OF replace_map_Some(1) [OF Some], of length] have "length ms' = length ms" by simp
  with assms Some replace_map_Some(1) [OF Some] show ?thesis
    by (simp add: map_remember_def maps_wf_def)
qed

text \<open>Moving the last record into the hole drops exactly the record at the hole.\<close>

lemma mset_swap_remove:
  assumes "i < length ms"
  shows "add_mset (ms ! i) (mset (butlast (ms[i := last ms]))) = mset ms"
proof -
  from assms have ne: "ms \<noteq> []" by auto
  then obtain xs x where ms: "ms = xs @ [x]" by (cases ms rule: rev_cases) auto
  show ?thesis
  proof (cases "i = length xs")
    case True then show ?thesis by (simp add: ms)
  next
    case False
    with assms ms have i: "i < length xs" by simp
    then have "add_mset (xs ! i) (mset (xs[i := x])) = add_mset x (mset xs)"
      by (simp add: mset_update)
    with i show ?thesis by (simp add: ms nth_append list_update_append butlast_append)
  qed
qed

lemma map_forget_set:
  assumes "maps_wf ms"
  shows "set (map_forget a ms) = {m \<in> set ms. mr_ipa m \<noteq> a}" and "maps_wf (map_forget a ms)"
proof -
  show "set (map_forget a ms) = {m \<in> set ms. mr_ipa m \<noteq> a}"
  proof (cases "index_map a ms")
    case None
    then have "a \<notin> mr_ipa ` set ms" by (simp add: index_map_None)
    with None show ?thesis by (auto simp: map_forget_def)
  next
    case (Some i)
    with index_map_Some have i: "i < length ms" "mr_ipa (ms ! i) = a" by auto
    define r where "r = butlast (ms[i := last ms])"
    have ms: "add_mset (ms ! i) (mset r) = mset ms"
      unfolding r_def using i(1) by (rule mset_swap_remove)
    have "distinct (map mr_ipa ms)" using assms by (simp add: maps_wf_def)
    then have "\<forall>m. count (image_mset mr_ipa (mset ms)) m \<le> 1"
      by (metis distinct_count_atmost_1 le_refl linorder_le_less_linear mset_map not_less_zero
          less_one zero_le)
    then have "mr_ipa (ms ! i) \<notin> mr_ipa ` set r"
      unfolding ms [symmetric] by (auto simp: dest!: spec [of _ a] simp: i(2) count_eq_zero_iff)
    moreover have "set ms = insert (ms ! i) (set r)"
      using arg_cong [OF ms, of set_mset] by simp
    ultimately show ?thesis using i Some by (auto simp: map_forget_def r_def image_iff)
  qed
  show "maps_wf (map_forget a ms)"
  proof (cases "index_map a ms")
    case None with assms show ?thesis by (simp add: map_forget_def)
  next
    case (Some i)
    with index_map_Some have i: "i < length ms" by auto
    have "mset (map mr_ipa ms) = add_mset (mr_ipa (ms ! i))
        (mset (map mr_ipa (butlast (ms[i := last ms]))))"
      using arg_cong [OF mset_swap_remove [OF i], of "image_mset mr_ipa"] by simp
    then have "distinct (map mr_ipa (butlast (ms[i := last ms])))"
      using assms unfolding maps_wf_def
      by (metis distinct.simps(2) mset.simps(2) mset_eq_imp_distinct_iff)
    with assms Some i show ?thesis by (auto simp: map_forget_def maps_wf_def)
  qed
qed

section \<open>Translation\<close>

text \<open>The record as intervals of addresses: no region wraps round the end of the address
  space.\<close>

definition region_ok :: "map_record \<Rightarrow> bool" where
  "region_ok m \<longleftrightarrow> unat (mr_ipa m) + unat (mr_size m) < 2 ^ 64"

lemma no_wrap_unat_add:
  fixes a b :: u64
  assumes "unat a + unat b < 2 ^ 64" shows "unat (a + b) = unat a + unat b"
  using assms by (simp add: unat_add_lem [symmetric])

lemma covers_unat:
  assumes "region_ok m" and "unat ipa + unat len < 2 ^ 64"
  shows "covers m ipa len \<longleftrightarrow>
    unat (mr_ipa m) \<le> unat ipa \<and> unat ipa + unat len \<le> unat (mr_ipa m) + unat (mr_size m)"
  using assms by (auto simp: covers_def region_ok_def word_le_nat_alt no_wrap_unat_add)

lemma ohv_guest_ptr_Some:
  "ohv_guest_ptr ms ipa len = Some p
     \<Longrightarrow> \<exists>m \<in> set ms. covers m ipa len \<and> p = mr_uva m + (ipa - mr_ipa m)"
  by (induction ms) (auto split: if_splits)

lemma ohv_guest_ptr_None: "ohv_guest_ptr ms ipa len = None \<longleftrightarrow> (\<forall>m \<in> set ms. \<not> covers m ipa len)"
  by (induction ms) auto

lemma ohv_guest_ptr_unique:
  assumes "m \<in> set ms" and "covers m ipa len" and "\<forall>n \<in> set ms. covers n ipa len \<longrightarrow> n = m"
  shows "ohv_guest_ptr ms ipa len = Some (mr_uva m + (ipa - mr_ipa m))"
proof -
  from assms(1,2) have "ohv_guest_ptr ms ipa len \<noteq> None" by (simp add: ohv_guest_ptr_None) blast
  then obtain p where p: "ohv_guest_ptr ms ipa len = Some p" by blast
  from ohv_guest_ptr_Some [OF p] assms(3) p show ?thesis by blast
qed



text \<open>The condition on the range is needed: \<open>ipa + len\<close> is computed in 64 bits, so
  with any mapping at guest address zero the last four bytes of the address space translate,
  to a host address just below the end of the whole host address space counted from the
  mapping's base -- nothing that was ever mapped.\<close>

theorem guest_ptr_wraps:
  "ohv_guest_ptr [\<lparr>mr_uva = u, mr_ipa = 0, mr_size = 0x4000\<rparr>] 0xfffffffffffffffc 4
     = Some (u - 4)"
  by (simp add: covers_def)

text \<open>C22: Map and look up: when mapping a region succeeds and there is room in the
  record, the region's addresses translate to the memory it was mapped at, and a record with
  distinct base addresses stays one; unmapping the same base takes exactly that record out.
  No other region overlapping the address is assumed.\<close>

theorem map_then_translate:
  assumes "hv_vm_map K addr ipa sz flags g k = (HV_SUCCESS, g', k')"
    and "maps_wf (g_maps g)" and "length (g_maps g) < 64"
    and "covers \<lparr>mr_uva = addr, mr_ipa = ipa, mr_size = sz\<rparr> a len"
    and "\<forall>m \<in> set (g_maps g). covers m a len \<longrightarrow> mr_ipa m = ipa"
  shows "ohv_guest_ptr (g_maps g') a len = Some (addr + (a - ipa))
     \<and> maps_wf (g_maps g')
     \<and> ohv_guest_ptr (g_maps (fst (snd (hv_vm_unmap K' ipa sz' g' k'')))) a len = None"
proof -
  define n where "n = \<lparr>mr_uva = addr, mr_ipa = ipa, mr_size = sz\<rparr>"
  from assms(1) have g': "g_maps g' = map_remember n (g_maps g)"
    by (auto simp: hv_vm_map_def n_def split: if_splits prod.splits)
  have wf: "maps_wf (g_maps g')" unfolding g' by (rule maps_wf_remember) (rule assms)
  have in_set: "n \<in> set (g_maps g')"
    using assms(3) by (auto simp: g' map_remember_def split: option.splits dest: replace_map_Some(2))
  have sub: "set (g_maps g') \<subseteq> insert n (set (g_maps g))"
    by (auto simp: g' map_remember_def split: option.splits if_splits dest: replace_map_Some(3))
  have uniq: "m = n" if "m \<in> set (g_maps g')" "mr_ipa m = ipa" for m
    using that in_set wf unfolding maps_wf_def distinct_map inj_on_def by (simp add: n_def)
  have "\<forall>m \<in> set (g_maps g'). covers m a len \<longrightarrow> m = n"
    using sub assms(5) uniq by (auto simp: n_def)
  from ohv_guest_ptr_unique [OF in_set assms(4) [folded n_def] this]
  have "ohv_guest_ptr (g_maps g') a len = Some (addr + (a - ipa))" by (simp add: n_def)
  moreover have "ohv_guest_ptr (map_forget ipa (g_maps g')) a len = None"
    unfolding ohv_guest_ptr_None map_forget_set(1) [OF wf] using sub assms(5) by (auto simp: n_def)
  moreover have "g_maps (fst (snd (hv_vm_unmap K' ipa sz' g' k''))) = map_forget ipa (g_maps g')"
    by (simp add: hv_vm_unmap_def Let_def split: prod.splits)
  ultimately show ?thesis using wf by simp
qed

theorem map_then_translate_witness:
  "ohv_guest_ptr (g_maps (fst (snd (hv_vm_map granting_kernel 0x7000 0x4000 0x8000 7
      (initial_state\<lparr>g_vm_alive := True\<rparr>) 1)))) 0x5000 8 = Some 0x8000"
proof -
  let ?g = "initial_state\<lparr>g_vm_alive := True\<rparr>"
  have call: "hv_vm_map granting_kernel 0x7000 0x4000 0x8000 7 ?g 1 =
     (HV_SUCCESS, ?g\<lparr>g_maps := [\<lparr>mr_uva = 0x7000, mr_ipa = 0x4000, mr_size = 0x8000\<rparr>]\<rparr>, 1)"
    by (simp add: hv_vm_map_def map_op_def require_vm_def granting_kernel_def initial_state_def
        map_remember_def)
  have "ohv_guest_ptr (g_maps (?g\<lparr>g_maps := [\<lparr>mr_uva = 0x7000, mr_ipa = 0x4000,
      mr_size = 0x8000\<rparr>]\<rparr>)) 0x5000 8 = Some (0x7000 + (0x5000 - 0x4000))"
    by (rule map_then_translate [OF call, THEN conjunct1])
      (simp_all add: initial_state_def maps_wf_def covers_def)
  then show ?thesis unfolding call by simp
qed

section \<open>The nested address spaces\<close>

lemma nested_spaces_create_frame:
  assumes "nested_spaces_create K n g k = (g', k')"
  shows "g_vm_alive g' = g_vm_alive g \<and> g_vcpus g' = g_vcpus g \<and> g_maps g' = g_maps g
     \<and> g_gic g' = g_gic g \<and> tl_current_vcpu g' = tl_current_vcpu g \<and> g_vm_el2 g' = g_vm_el2 g
     \<and> g_vm_vhe g' = g_vm_vhe g \<and> g_vm_isa g' = g_vm_isa g"
  using assms by (induction K n g k rule: nested_spaces_create.induct)
    (auto split: prod.splits if_splits)

lemma nested_spaces_create_grows:
  assumes "nested_spaces_create K n g k = (g', k')"
    and "length (g_nested_asid g) \<le> kNestedSpaces"
  shows "length (g_nested_asid g') \<le> kNestedSpaces
     \<and> (\<exists>as. g_nested_asid g' = g_nested_asid g @ as)"
  using assms
proof (induction n arbitrary: g k)
  case (Suc n)
  let ?a = "\<lparr>as_min_ipa = 0, as_ipa_size = 0, as_granule = 0x1000, as_flags = 0\<rparr>"
  obtain r asid k1 where c: "k_addrspace_create K k ?a = (r, asid, k1)"
    by (rule prod_cases3)
  show ?case
  proof (cases "r = HV_SUCCESS \<and> length (g_nested_asid g) < kNestedSpaces")
    case True
    with c Suc.prems Suc.IH [of "g\<lparr>g_nested_asid := g_nested_asid g @ [asid]\<rparr>" k1]
    show ?thesis by auto
  next
    case False
    with c Suc.prems Suc.IH [of g k1] show ?thesis by (auto split: if_splits)
  qed
qed simp

lemma create_ipa_bits_frame:
  assumes "create_ipa_bits K config g k = (b, g', k')"
  shows "\<exists>i. g' = g\<lparr>g_machine_ipa := i\<rparr>"
proof -
  have "\<exists>i. g = g\<lparr>g_machine_ipa := i\<rparr>" by (rule exI [of _ "g_machine_ipa g"]) simp
  with assms show ?thesis
    by (auto simp: create_ipa_bits_def machine_ipa_bits_def Let_def
        split: option.splits if_splits prod.splits)
qed

text \<open>The three ways \<open>hv_vm_create\<close> can go.\<close>

lemma hv_vm_create_cases:
  assumes "hv_vm_create K config g k = (r, g', k')"
  obtains (busy) "g_vm_alive g" "r = HV_BUSY" "g' = g" "k' = k"
  | (refused) i where "\<not> g_vm_alive g" "r \<noteq> HV_SUCCESS" "g' = g\<lparr>g_machine_ipa := i\<rparr>"
  | (created) i lvl h k2 where "\<not> g_vm_alive g" "r = HV_SUCCESS"
      "h = g\<lparr>g_machine_ipa := i, g_vm_alive := True, g_vm_isa := lvl,
             g_vm_el2 := config_el2 config, g_vm_vhe := config_vhe config\<rparr>"
      "(g', k') = (if config_el2 config then nested_spaces_create K kNestedSpaces h k2 else (h, k2))"
proof (cases "g_vm_alive g")
  case True
  with assms show ?thesis by (intro busy) (auto simp: hv_vm_create_def)
next
  case False
  obtain b g1 k1 where b: "create_ipa_bits K config g k = (b, g1, k1)" by (rule prod_cases3)
  from create_ipa_bits_frame [OF this] obtain i where i: "g1 = g\<lparr>g_machine_ipa := i\<rparr>" by blast
  obtain r2 k2 where v: "k_vm_create K k1 (vm_create_args config b) = (r2, k2)" by force
  show ?thesis
  proof (cases "r2 = HV_SUCCESS")
    case True
    with False assms b i v have "r = HV_SUCCESS"
      "(g', k') = (let h = g\<lparr>g_machine_ipa := i, g_vm_alive := True,
          g_vm_isa := vc_isa (vm_create_args config b), g_vm_el2 := config_el2 config,
          g_vm_vhe := config_vhe config\<rparr>
        in if config_el2 config then nested_spaces_create K kNestedSpaces h k2 else (h, k2))"
      by (auto simp: hv_vm_create_def Let_def split: prod.splits if_splits)
    then show ?thesis by (intro created [OF False _ refl]) (simp_all add: Let_def)
  next
    case r: False
    with False assms b i v show ?thesis by (intro refused) (auto simp: hv_vm_create_def Let_def)
  qed
qed

text \<open>Creating a VM twice is refused and asks the kernel nothing; a creation
  the kernel refuses leaves the VM as it was; one it grants makes the VM alive with the
  level and the guest-EL2 switches of the configuration, and never more than eight nested
  spaces are recorded.\<close>

theorem vm_create_outcome:
  assumes "hv_vm_create K config g k = (r, g', k')"
    and "length (g_nested_asid g) \<le> kNestedSpaces"
  shows "(g_vm_alive g \<longrightarrow> r = HV_BUSY \<and> g' = g \<and> k' = k)
     \<and> (\<not> g_vm_alive g \<and> r \<noteq> HV_SUCCESS \<longrightarrow> \<not> g_vm_alive g')
     \<and> (\<not> g_vm_alive g \<and> r = HV_SUCCESS \<longrightarrow>
          g_vm_alive g'
          \<and> g_vm_el2 g' = config_el2 config \<and> g_vm_vhe g' = config_vhe config
          \<and> length (g_nested_asid g') \<le> kNestedSpaces
          \<and> g_vcpus g' = g_vcpus g \<and> g_maps g' = g_maps g)"
  using assms(1)
proof (cases rule: hv_vm_create_cases)
  case (created i lvl h k2)
  show ?thesis
  proof (cases "config_el2 config")
    case True
    with created have n: "nested_spaces_create K kNestedSpaces h k2 = (g', k')" by simp
    from nested_spaces_create_frame [OF n] nested_spaces_create_grows [OF n] created assms(2)
    show ?thesis by simp
  qed (use created assms(2) in simp)
qed simp_all

theorem vm_create_outcome_witness:
  "fst (hv_vm_create granting_kernel None (initial_state\<lparr>g_vm_alive := True\<rparr>) 1) = HV_BUSY"
proof -
  obtain r g' k' where c:
    "hv_vm_create granting_kernel None (initial_state\<lparr>g_vm_alive := True\<rparr>) 1 = (r, g', k')"
    by (rule prod_cases3)
  from vm_create_outcome [OF c] show ?thesis unfolding c by (simp add: initial_state_def)
qed

text \<open>Destroying the VM forgets its vCPUs and its interrupt controller but not
  its address spaces: with the eight of the first VM recorded, the guest-EL2 VM created next
  keeps those identifiers, whatever the kernel hands out for it.\<close>

theorem destroy_leaves_spaces:
  assumes "hv_vm_destroy K g k = (HV_SUCCESS, g1, k1)"
    and "hv_vm_create K config g1 k1 = (HV_SUCCESS, g2, k2)"
    and "length (g_nested_asid g) = kNestedSpaces"
  shows "g_nested_asid g2 = g_nested_asid g \<and> (\<forall>i < kMaxVcpuIds. g_vcpus g2 i = new_VcpuSlot)
     \<and> g_maps g2 = g_maps g"
proof -
  from assms(1) have g1: "g_nested_asid g1 = g_nested_asid g"
    "\<forall>i < kMaxVcpuIds. g_vcpus g1 i = new_VcpuSlot" "g_maps g1 = g_maps g"
    by (auto simp: hv_vm_destroy_def split: if_splits prod.splits)
  from assms(2) show ?thesis
  proof (cases rule: hv_vm_create_cases)
    case (created i lvl h k3)
    show ?thesis
    proof (cases "config_el2 config")
      case True
      with created have n: "nested_spaces_create K kNestedSpaces h k3 = (g2, k2)" by simp
      from nested_spaces_create_frame [OF n] nested_spaces_create_grows [OF n] created g1 assms(3)
      show ?thesis by auto
    qed (use created g1 in simp)
  qed simp_all
qed

text \<open>The witness: eight spaces 1 to 8, then a second guest-EL2 VM for which the kernel hands
  out 9 to 16.\<close>

definition el2_config :: hv_vm_config_s where
  "el2_config = \<lparr>ipa_bits = 40, granule = 0, el2_enabled = 1, vhe_enabled = 1, isa = 3\<rparr>"

lemma granting_spaces:
  "length (g_nested_asid g) + n \<le> 8
     \<Longrightarrow> nested_spaces_create granting_kernel n g k =
          (g\<lparr>g_nested_asid := g_nested_asid g @ map of_nat [k..<k + n]\<rparr>, k + n)"
proof (induction n arbitrary: g k)
  case (Suc n)
  have "[k..<k + Suc n] = k # [Suc k..<Suc k + n]" by (simp add: upt_conv_Cons)
  with Suc show ?case by (simp add: granting_kernel_def kNestedSpaces_def del: upt_Suc)
qed simp

lemma granting_spaces_full:
  "8 \<le> length (g_nested_asid g) \<Longrightarrow> nested_spaces_create granting_kernel n g k = (g, k + n)"
  by (induction n arbitrary: k) (simp_all add: granting_kernel_def kNestedSpaces_def)

lemma granting_create:
  "\<not> g_vm_alive g \<Longrightarrow> hv_vm_create granting_kernel (Some el2_config) g k =
     (let h = g\<lparr>g_vm_alive := True, g_vm_isa := 3, g_vm_el2 := True, g_vm_vhe := True\<rparr>;
          (g', k') = nested_spaces_create granting_kernel 8 h k
      in (HV_SUCCESS, g', k'))"
  by (simp add: hv_vm_create_def create_ipa_bits_def el2_config_def config_el2_def config_vhe_def
      vm_create_args_def kNestedSpaces_def Let_def granting_kernel_def)

lemma first_el2_vm:
  "hv_vm_create granting_kernel (Some el2_config) initial_state 1 =
     (HV_SUCCESS, initial_state\<lparr>g_vm_alive := True, g_vm_isa := 3, g_vm_el2 := True, g_vm_vhe := True,
        g_nested_asid := [1, 2, 3, 4, 5, 6, 7, 8]\<rparr>, 9)"
  by (simp add: granting_create granting_spaces Let_def initial_state_def upt_rec_numeral upt_rec)

theorem destroy_leaves_spaces_witness:
  "\<exists>g g1 k1 g2 k2. hv_vm_create granting_kernel (Some el2_config) initial_state 1 = (HV_SUCCESS, g, 9)
     \<and> hv_vm_destroy granting_kernel g 9 = (HV_SUCCESS, g1, k1)
     \<and> hv_vm_create granting_kernel (Some el2_config) g1 k1 = (HV_SUCCESS, g2, k2)
     \<and> k2 = 17 \<and> g_nested_asid g2 = [1, 2, 3, 4, 5, 6, 7, 8]"
proof -
  let ?g = "initial_state\<lparr>g_vm_alive := True, g_vm_isa := 3, g_vm_el2 := True, g_vm_vhe := True,
        g_nested_asid := [1, 2, 3, 4, 5, 6, 7, 8]\<rparr>"
  have d: "hv_vm_destroy granting_kernel ?g 9 = (HV_SUCCESS, ?g\<lparr>g_vm_alive := False, g_gic := None,
      g_vcpus := (\<lambda>i. if i < kMaxVcpuIds then new_VcpuSlot else g_vcpus ?g i)\<rparr>, 9)"
    (is "_ = (_, ?g1, _)")
    by (simp add: hv_vm_destroy_def granting_kernel_def)
  obtain r g2 k2 where c: "hv_vm_create granting_kernel (Some el2_config) ?g1 9 = (r, g2, k2)"
    by (rule prod_cases3)
  have r: "r = HV_SUCCESS" "k2 = 17"
    using c by (auto simp: granting_create granting_spaces_full Let_def)
  have "g_nested_asid g2 = g_nested_asid ?g"
    by (rule destroy_leaves_spaces [OF d c [unfolded r(1)], THEN conjunct1])
      (simp add: kNestedSpaces_def)
  with c r have "hv_vm_create granting_kernel (Some el2_config) ?g1 9 = (HV_SUCCESS, g2, k2)
      \<and> k2 = 17 \<and> g_nested_asid g2 = [1, 2, 3, 4, 5, 6, 7, 8]" by simp
  with first_el2_vm d show ?thesis by blast
qed

end
