(* ===== verification/Ohv_Sysreg.thy ===== *)
theory Ohv_Sysreg
  imports Ohv_State
begin

text \<open>
  The system register tables: the generated one of \<open>src/ohv_sysreg_table.cpp\<close> (\<open>kTable\<close> and
  the switch that selects from it), the hand-kept ones of \<open>src/ohv_sysreg_apple.cpp\<close>
  (\<open>kAppleTable\<close>, \<open>kEl2Table\<close>), the lookup that asks the hand-kept ones first, and the enum of
  \<open>include/openhyp/hv_compat_enums.h\<close> the names come from.

  The lemmas show that the switch selects entries by their own encoding, that every slot a
  descriptor names is inside the block it belongs to and is the field of the register's own
  name, and that no two encodings share a slot.
\<close>

record SysRegDesc =
  encoding :: u16
  kind :: nat
  reg_index :: nat
  dirty_bit :: u64
  sync_before :: bool

definition desc :: "u16 \<Rightarrow> nat \<Rightarrow> nat \<Rightarrow> u64 \<Rightarrow> bool \<Rightarrow> SysRegDesc" where
  "desc e k i d s = \<lparr>encoding = e, kind = k, reg_index = i, dirty_bit = d, sync_before = s\<rparr>"

lemma desc_sel [simp]:
  "encoding (desc e k i d s) = e" "kind (desc e k i d s) = k" "reg_index (desc e k i d s) = i"
  "dirty_bit (desc e k i d s) = d" "sync_before (desc e k i d s) = s"
  by (simp_all add: desc_def)

section \<open>The generated table\<close>

definition kTable :: "SysRegDesc list" where
  "kTable =
    [desc 0x8004 5 0 0 False, desc 0x8005 5 0 0 False, desc 0x8006 5 0 0 False,
     desc 0x8007 5 0 0 False, desc 0x800c 5 0 0 False, desc 0x800d 5 0 0 False,
     desc 0x800e 5 0 0 False, desc 0x800f 5 0 0 False, desc 0x8010 3 64 OHV_STATE_DEBUG True,
     desc 0x8012 0 0 0 False, desc 0x8014 5 0 0 False, desc 0x8015 5 0 0 False,
     desc 0x8016 5 0 0 False, desc 0x8017 5 0 0 False, desc 0x801c 5 0 0 False,
     desc 0x801d 5 0 0 False, desc 0x801e 5 0 0 False, desc 0x801f 5 0 0 False,
     desc 0x8024 5 0 0 False, desc 0x8025 5 0 0 False, desc 0x8026 5 0 0 False,
     desc 0x8027 5 0 0 False, desc 0x802c 5 0 0 False, desc 0x802d 5 0 0 False,
     desc 0x802e 5 0 0 False, desc 0x802f 5 0 0 False, desc 0x8034 5 0 0 False,
     desc 0x8035 5 0 0 False, desc 0x8036 5 0 0 False, desc 0x8037 5 0 0 False,
     desc 0x803c 5 0 0 False, desc 0x803d 5 0 0 False, desc 0x803e 5 0 0 False,
     desc 0x803f 5 0 0 False, desc 0x8044 5 0 0 False, desc 0x8045 5 0 0 False,
     desc 0x8046 5 0 0 False, desc 0x8047 5 0 0 False, desc 0x804c 5 0 0 False,
     desc 0x804d 5 0 0 False, desc 0x804e 5 0 0 False, desc 0x804f 5 0 0 False,
     desc 0x8054 5 0 0 False, desc 0x8055 5 0 0 False, desc 0x8056 5 0 0 False,
     desc 0x8057 5 0 0 False, desc 0x805c 5 0 0 False, desc 0x805d 5 0 0 False,
     desc 0x805e 5 0 0 False, desc 0x805f 5 0 0 False, desc 0x8064 5 0 0 False,
     desc 0x8065 5 0 0 False, desc 0x8066 5 0 0 False, desc 0x8067 5 0 0 False,
     desc 0x806c 5 0 0 False, desc 0x806d 5 0 0 False, desc 0x806e 5 0 0 False,
     desc 0x806f 5 0 0 False, desc 0x8074 5 0 0 False, desc 0x8075 5 0 0 False,
     desc 0x8076 5 0 0 False, desc 0x8077 5 0 0 False, desc 0x807c 5 0 0 False,
     desc 0x807d 5 0 0 False, desc 0x807e 5 0 0 False, desc 0x807f 5 0 0 False,
     desc 0xc000 5 0 0 False, desc 0xc005 5 0 0 False, desc 0xc020 5 0 0 False,
     desc 0xc021 5 0 0 False, desc 0xc028 5 0 0 False, desc 0xc029 5 0 0 False,
     desc 0xc030 5 0 0 False, desc 0xc031 5 0 0 False, desc 0xc038 5 0 0 False,
     desc 0xc039 5 0 0 False, desc 0xc03a 5 0 0 False, desc 0xc080 1 12 OHV_STATE_SYSREGS True,
     desc 0xc082 1 13 OHV_STATE_SYSREGS True, desc 0xc100 1 0 OHV_STATE_SYSREGS True,
     desc 0xc101 1 1 OHV_STATE_SYSREGS True, desc 0xc102 1 2 OHV_STATE_SYSREGS True,
     desc 0xc108 2 33 OHV_STATE_PTRAUTH_ARM True, desc 0xc109 2 32 OHV_STATE_PTRAUTH_ARM True,
     desc 0xc10a 2 35 OHV_STATE_PTRAUTH_ARM True, desc 0xc10b 2 34 OHV_STATE_PTRAUTH_ARM True,
     desc 0xc110 2 37 OHV_STATE_PTRAUTH_ARM True, desc 0xc111 2 36 OHV_STATE_PTRAUTH_ARM True,
     desc 0xc112 2 39 OHV_STATE_PTRAUTH_ARM True, desc 0xc113 2 38 OHV_STATE_PTRAUTH_ARM True,
     desc 0xc118 2 31 OHV_STATE_PTRAUTH_ARM True, desc 0xc119 2 30 OHV_STATE_PTRAUTH_ARM True,
     desc 0xc200 1 14 OHV_STATE_SYSREGS True, desc 0xc201 1 3 OHV_STATE_SYSREGS True,
     desc 0xc208 0 4 0 False, desc 0xc288 1 15 OHV_STATE_SYSREGS True,
     desc 0xc289 1 16 OHV_STATE_SYSREGS True, desc 0xc290 1 5 OHV_STATE_SYSREGS True,
     desc 0xc300 1 4 OHV_STATE_SYSREGS True, desc 0xc3a0 0 6 0 False,
     desc 0xc510 1 6 OHV_STATE_SYSREGS True, desc 0xc518 1 7 OHV_STATE_SYSREGS True,
     desc 0xc600 1 8 OHV_STATE_SYSREGS True, desc 0xc681 1 17 OHV_STATE_SYSREGS True,
     desc 0xc684 0 1 0 False, desc 0xc708 1 20 OHV_STATE_SYSREGS True, desc 0xd000 0 7 0 False,
     desc 0xde82 0 2 0 False, desc 0xde83 0 3 0 False, desc 0xdf19 1 18 OHV_STATE_SYSREGS True,
     desc 0xdf1a 1 9 OHV_STATE_SYSREGS True, desc 0xe208 0 5 0 False, desc 0xdf11 7 30 0 False,
     desc 0xdf12 1 10 OHV_STATE_SYSREGS True]"

text \<open>The switch of \<open>sysreg_lookup\<close>: case label and the table index it returns.\<close>

definition kTable_cases :: "(u16 \<times> nat) list" where
  "kTable_cases =
    [(0x8004, 0), (0x8005, 1), (0x8006, 2), (0x8007, 3), (0x800c, 4), (0x800d, 5), (0x800e, 6),
     (0x800f, 7), (0x8010, 8), (0x8012, 9), (0x8014, 10), (0x8015, 11), (0x8016, 12),
     (0x8017, 13), (0x801c, 14), (0x801d, 15), (0x801e, 16), (0x801f, 17), (0x8024, 18),
     (0x8025, 19), (0x8026, 20), (0x8027, 21), (0x802c, 22), (0x802d, 23), (0x802e, 24),
     (0x802f, 25), (0x8034, 26), (0x8035, 27), (0x8036, 28), (0x8037, 29), (0x803c, 30),
     (0x803d, 31), (0x803e, 32), (0x803f, 33), (0x8044, 34), (0x8045, 35), (0x8046, 36),
     (0x8047, 37), (0x804c, 38), (0x804d, 39), (0x804e, 40), (0x804f, 41), (0x8054, 42),
     (0x8055, 43), (0x8056, 44), (0x8057, 45), (0x805c, 46), (0x805d, 47), (0x805e, 48),
     (0x805f, 49), (0x8064, 50), (0x8065, 51), (0x8066, 52), (0x8067, 53), (0x806c, 54),
     (0x806d, 55), (0x806e, 56), (0x806f, 57), (0x8074, 58), (0x8075, 59), (0x8076, 60),
     (0x8077, 61), (0x807c, 62), (0x807d, 63), (0x807e, 64), (0x807f, 65), (0xc000, 66),
     (0xc005, 67), (0xc020, 68), (0xc021, 69), (0xc028, 70), (0xc029, 71), (0xc030, 72),
     (0xc031, 73), (0xc038, 74), (0xc039, 75), (0xc03a, 76), (0xc080, 77), (0xc082, 78),
     (0xc100, 79), (0xc101, 80), (0xc102, 81), (0xc108, 82), (0xc109, 83), (0xc10a, 84),
     (0xc10b, 85), (0xc110, 86), (0xc111, 87), (0xc112, 88), (0xc113, 89), (0xc118, 90),
     (0xc119, 91), (0xc200, 92), (0xc201, 93), (0xc208, 94), (0xc288, 95), (0xc289, 96),
     (0xc290, 97), (0xc300, 98), (0xc3a0, 99), (0xc510, 100), (0xc518, 101), (0xc600, 102),
     (0xc681, 103), (0xc684, 104), (0xc708, 105), (0xd000, 106), (0xde82, 107), (0xde83, 108),
     (0xdf19, 109), (0xdf1a, 110), (0xe208, 111), (0xdf11, 112), (0xdf12, 113)]"

text \<open>The enum \<open>hv_sys_reg_t\<close>, as the switch of \<open>sysreg_name\<close> spells it.\<close>

definition hv_sys_reg_names :: "(u16 \<times> string) list" where
  "hv_sys_reg_names =
    [(0x8004, ''HV_SYS_REG_DBGBVR0_EL1''), (0x8005, ''HV_SYS_REG_DBGBCR0_EL1''),
     (0x8006, ''HV_SYS_REG_DBGWVR0_EL1''), (0x8007, ''HV_SYS_REG_DBGWCR0_EL1''),
     (0x800c, ''HV_SYS_REG_DBGBVR1_EL1''), (0x800d, ''HV_SYS_REG_DBGBCR1_EL1''),
     (0x800e, ''HV_SYS_REG_DBGWVR1_EL1''), (0x800f, ''HV_SYS_REG_DBGWCR1_EL1''),
     (0x8010, ''HV_SYS_REG_MDCCINT_EL1''), (0x8012, ''HV_SYS_REG_MDSCR_EL1''),
     (0x8014, ''HV_SYS_REG_DBGBVR2_EL1''), (0x8015, ''HV_SYS_REG_DBGBCR2_EL1''),
     (0x8016, ''HV_SYS_REG_DBGWVR2_EL1''), (0x8017, ''HV_SYS_REG_DBGWCR2_EL1''),
     (0x801c, ''HV_SYS_REG_DBGBVR3_EL1''), (0x801d, ''HV_SYS_REG_DBGBCR3_EL1''),
     (0x801e, ''HV_SYS_REG_DBGWVR3_EL1''), (0x801f, ''HV_SYS_REG_DBGWCR3_EL1''),
     (0x8024, ''HV_SYS_REG_DBGBVR4_EL1''), (0x8025, ''HV_SYS_REG_DBGBCR4_EL1''),
     (0x8026, ''HV_SYS_REG_DBGWVR4_EL1''), (0x8027, ''HV_SYS_REG_DBGWCR4_EL1''),
     (0x802c, ''HV_SYS_REG_DBGBVR5_EL1''), (0x802d, ''HV_SYS_REG_DBGBCR5_EL1''),
     (0x802e, ''HV_SYS_REG_DBGWVR5_EL1''), (0x802f, ''HV_SYS_REG_DBGWCR5_EL1''),
     (0x8034, ''HV_SYS_REG_DBGBVR6_EL1''), (0x8035, ''HV_SYS_REG_DBGBCR6_EL1''),
     (0x8036, ''HV_SYS_REG_DBGWVR6_EL1''), (0x8037, ''HV_SYS_REG_DBGWCR6_EL1''),
     (0x803c, ''HV_SYS_REG_DBGBVR7_EL1''), (0x803d, ''HV_SYS_REG_DBGBCR7_EL1''),
     (0x803e, ''HV_SYS_REG_DBGWVR7_EL1''), (0x803f, ''HV_SYS_REG_DBGWCR7_EL1''),
     (0x8044, ''HV_SYS_REG_DBGBVR8_EL1''), (0x8045, ''HV_SYS_REG_DBGBCR8_EL1''),
     (0x8046, ''HV_SYS_REG_DBGWVR8_EL1''), (0x8047, ''HV_SYS_REG_DBGWCR8_EL1''),
     (0x804c, ''HV_SYS_REG_DBGBVR9_EL1''), (0x804d, ''HV_SYS_REG_DBGBCR9_EL1''),
     (0x804e, ''HV_SYS_REG_DBGWVR9_EL1''), (0x804f, ''HV_SYS_REG_DBGWCR9_EL1''),
     (0x8054, ''HV_SYS_REG_DBGBVR10_EL1''), (0x8055, ''HV_SYS_REG_DBGBCR10_EL1''),
     (0x8056, ''HV_SYS_REG_DBGWVR10_EL1''), (0x8057, ''HV_SYS_REG_DBGWCR10_EL1''),
     (0x805c, ''HV_SYS_REG_DBGBVR11_EL1''), (0x805d, ''HV_SYS_REG_DBGBCR11_EL1''),
     (0x805e, ''HV_SYS_REG_DBGWVR11_EL1''), (0x805f, ''HV_SYS_REG_DBGWCR11_EL1''),
     (0x8064, ''HV_SYS_REG_DBGBVR12_EL1''), (0x8065, ''HV_SYS_REG_DBGBCR12_EL1''),
     (0x8066, ''HV_SYS_REG_DBGWVR12_EL1''), (0x8067, ''HV_SYS_REG_DBGWCR12_EL1''),
     (0x806c, ''HV_SYS_REG_DBGBVR13_EL1''), (0x806d, ''HV_SYS_REG_DBGBCR13_EL1''),
     (0x806e, ''HV_SYS_REG_DBGWVR13_EL1''), (0x806f, ''HV_SYS_REG_DBGWCR13_EL1''),
     (0x8074, ''HV_SYS_REG_DBGBVR14_EL1''), (0x8075, ''HV_SYS_REG_DBGBCR14_EL1''),
     (0x8076, ''HV_SYS_REG_DBGWVR14_EL1''), (0x8077, ''HV_SYS_REG_DBGWCR14_EL1''),
     (0x807c, ''HV_SYS_REG_DBGBVR15_EL1''), (0x807d, ''HV_SYS_REG_DBGBCR15_EL1''),
     (0x807e, ''HV_SYS_REG_DBGWVR15_EL1''), (0x807f, ''HV_SYS_REG_DBGWCR15_EL1''),
     (0xc000, ''HV_SYS_REG_MIDR_EL1''), (0xc005, ''HV_SYS_REG_MPIDR_EL1''),
     (0xc020, ''HV_SYS_REG_ID_AA64PFR0_EL1''), (0xc021, ''HV_SYS_REG_ID_AA64PFR1_EL1''),
     (0xc028, ''HV_SYS_REG_ID_AA64DFR0_EL1''), (0xc029, ''HV_SYS_REG_ID_AA64DFR1_EL1''),
     (0xc030, ''HV_SYS_REG_ID_AA64ISAR0_EL1''), (0xc031, ''HV_SYS_REG_ID_AA64ISAR1_EL1''),
     (0xc038, ''HV_SYS_REG_ID_AA64MMFR0_EL1''), (0xc039, ''HV_SYS_REG_ID_AA64MMFR1_EL1''),
     (0xc03a, ''HV_SYS_REG_ID_AA64MMFR2_EL1''), (0xc080, ''HV_SYS_REG_SCTLR_EL1''),
     (0xc082, ''HV_SYS_REG_CPACR_EL1''), (0xc100, ''HV_SYS_REG_TTBR0_EL1''),
     (0xc101, ''HV_SYS_REG_TTBR1_EL1''), (0xc102, ''HV_SYS_REG_TCR_EL1''),
     (0xc108, ''HV_SYS_REG_APIAKEYLO_EL1''), (0xc109, ''HV_SYS_REG_APIAKEYHI_EL1''),
     (0xc10a, ''HV_SYS_REG_APIBKEYLO_EL1''), (0xc10b, ''HV_SYS_REG_APIBKEYHI_EL1''),
     (0xc110, ''HV_SYS_REG_APDAKEYLO_EL1''), (0xc111, ''HV_SYS_REG_APDAKEYHI_EL1''),
     (0xc112, ''HV_SYS_REG_APDBKEYLO_EL1''), (0xc113, ''HV_SYS_REG_APDBKEYHI_EL1''),
     (0xc118, ''HV_SYS_REG_APGAKEYLO_EL1''), (0xc119, ''HV_SYS_REG_APGAKEYHI_EL1''),
     (0xc200, ''HV_SYS_REG_SPSR_EL1''), (0xc201, ''HV_SYS_REG_ELR_EL1''),
     (0xc208, ''HV_SYS_REG_SP_EL0''), (0xc288, ''HV_SYS_REG_AFSR0_EL1''),
     (0xc289, ''HV_SYS_REG_AFSR1_EL1''), (0xc290, ''HV_SYS_REG_ESR_EL1''),
     (0xc300, ''HV_SYS_REG_FAR_EL1''), (0xc3a0, ''HV_SYS_REG_PAR_EL1''),
     (0xc510, ''HV_SYS_REG_MAIR_EL1''), (0xc518, ''HV_SYS_REG_AMAIR_EL1''),
     (0xc600, ''HV_SYS_REG_VBAR_EL1''), (0xc681, ''HV_SYS_REG_CONTEXTIDR_EL1''),
     (0xc684, ''HV_SYS_REG_TPIDR_EL1''), (0xc708, ''HV_SYS_REG_CNTKCTL_EL1''),
     (0xd000, ''HV_SYS_REG_CSSELR_EL1''), (0xde82, ''HV_SYS_REG_TPIDR_EL0''),
     (0xde83, ''HV_SYS_REG_TPIDRRO_EL0''), (0xdf19, ''HV_SYS_REG_CNTV_CTL_EL0''),
     (0xdf1a, ''HV_SYS_REG_CNTV_CVAL_EL0''), (0xe208, ''HV_SYS_REG_SP_EL1'')]"

definition sysreg_name :: "u16 \<Rightarrow> string" where
  "sysreg_name enc = (case map_of hv_sys_reg_names enc of Some n \<Rightarrow> n | None \<Rightarrow> ''?'')"

section \<open>The hand-kept tables\<close>

datatype slot_spec = EXT nat | RAW nat | SHADOW nat

fun adesc :: "u16 \<Rightarrow> slot_spec \<Rightarrow> u64 \<Rightarrow> bool \<Rightarrow> SysRegDesc" where
  "adesc e (EXT n) d s = desc e 2 n d s"
| "adesc e (RAW off) d s = desc e 6 (off div 8) d s"
| "adesc e (SHADOW n) d s = desc e 7 n d s"

definition kAppleTable :: "SysRegDesc list" where
  "kAppleTable =
    [adesc 0xf788 (EXT 55) OHV_STATE_SPRR True, adesc 0xf78d (EXT 58) OHV_STATE_SPRR True,
     adesc 0xf78e (EXT 57) OHV_STATE_SPRR True, adesc 0xf78a (EXT 42) OHV_STATE_GXF True,
     adesc 0xf7c1 (EXT 43) OHV_STATE_GXF True, adesc 0xf7c2 (EXT 44) OHV_STATE_GXF True,
     adesc 0xf7d0 (EXT 45) OHV_STATE_GXF True, adesc 0xf7d1 (EXT 46) OHV_STATE_GXF True,
     adesc 0xf7d2 (EXT 48) OHV_STATE_GXF True, adesc 0xf7d3 (EXT 52) OHV_STATE_GXF True,
     adesc 0xf7d4 (EXT 47) OHV_STATE_GXF True, adesc 0xf7d5 (EXT 50) OHV_STATE_GXF True,
     adesc 0xf7d6 (EXT 51) OHV_STATE_GXF True, adesc 0xf7d7 (EXT 49) OHV_STATE_GXF True]"

definition kEl2Table :: "SysRegDesc list" where
  "kEl2Table =
    [adesc 0xe000 (RAW 0x948) OHV_STATE_CONTROLS False,
     adesc 0xe005 (RAW 0x940) OHV_STATE_CONTROLS False,
     adesc 0xe08a (RAW 0x930) OHV_STATE_CONTROLS False,
     adesc 0xe089 (RAW 0x938) OHV_STATE_CONTROLS False,
     adesc 0xe088 (RAW 0x1078) OHV_STATE_CONTROLS False,
     adesc 0xe108 (RAW 0x1020) OHV_STATE_CONTROLS False,
     adesc 0xe10a (RAW 0x1040) OHV_STATE_CONTROLS False,
     adesc 0xe703 (RAW 0x1060) OHV_STATE_CONTROLS False,
     adesc 0xe682 (RAW 0x1090) OHV_STATE_CONTROLS False,
     adesc 0xe784 (EXT 29) OHV_STATE_PTRAUTH_APPLE True,
     adesc 0xe789 (EXT 40) OHV_STATE_PTRAUTH_APPLE True,
     adesc 0xe788 (EXT 41) OHV_STATE_PTRAUTH_APPLE True,
     adesc 0xf7c7 (EXT 53) OHV_STATE_GXF True, adesc 0xf781 (EXT 54) OHV_STATE_GXF True,
     adesc 0xf78b (EXT 56) OHV_STATE_SPRR True, adesc 0xf799 (EXT 59) OHV_STATE_SPRR True,
     adesc 0xe7f9 (EXT 76) OHV_STATE_JITBOX True, adesc 0xe7fc (EXT 77) OHV_STATE_JITBOX True,
     adesc 0xe7ed (EXT 78) OHV_STATE_JITBOX True, adesc 0xe7ec (EXT 79) OHV_STATE_JITBOX True,
     adesc 0xe7ef (EXT 80) OHV_STATE_JITBOX True, adesc 0xe7ee (EXT 81) OHV_STATE_JITBOX True,
     adesc 0xe080 (SHADOW 0) 0 False, adesc 0xe100 (SHADOW 2) 0 False,
     adesc 0xe101 (SHADOW 3) 0 False, adesc 0xe102 (SHADOW 4) 0 False,
     adesc 0xe200 (SHADOW 5) 0 False, adesc 0xe201 (SHADOW 6) 0 False,
     adesc 0xe290 (SHADOW 7) 0 False, adesc 0xe300 (SHADOW 8) 0 False,
     adesc 0xe304 (SHADOW 9) 0 False, adesc 0xe510 (SHADOW 10) 0 False,
     adesc 0xe600 (SHADOW 11) 0 False, adesc 0xe708 (SHADOW 12) 0 False,
     adesc 0xf208 (SHADOW 13) 0 False]"

section \<open>Lookup\<close>

definition find_desc :: "u16 \<Rightarrow> SysRegDesc list \<Rightarrow> SysRegDesc option" where
  "find_desc enc ds = find (\<lambda>d. encoding d = enc) ds"

definition sysreg_lookup_apple :: "u16 \<Rightarrow> SysRegDesc option" where
  "sysreg_lookup_apple enc =
     (case find_desc enc kAppleTable of Some d \<Rightarrow> Some d | None \<Rightarrow> find_desc enc kEl2Table)"

definition sysreg_lookup :: "u16 \<Rightarrow> SysRegDesc option" where
  "sysreg_lookup enc =
     (case sysreg_lookup_apple enc of
        Some d \<Rightarrow> Some d
      | None \<Rightarrow> map_option (\<lambda>i. kTable ! i) (map_of kTable_cases enc))"

text \<open>The region a kind indexes, as \<open>sysreg_access\<close> of \<open>src/ohv_vcpu.cpp\<close> resolves it: base and
  the size in words of the block; kind 6 indexes the whole read/write page.\<close>

definition kind_region :: "nat \<Rightarrow> (nat \<times> nat) option" where
  "kind_region k =
     (if k = 0 then Some (OHV_RW_SHARED_SYSREGS, 13)
      else if k = 1 then Some (OHV_RW_BANKED_SYSREGS, 24)
      else if k = 2 then Some (OHV_RW_EXTREGS, 83)
      else if k = 3 then Some (OHV_RW_DBGREGS, 68)
      else if k = 6 then Some (0, 0x4000 div 8)
      else None)"

definition desc_offset :: "SysRegDesc \<Rightarrow> nat option" where
  "desc_offset d = map_option (\<lambda>r. fst r + 8 * reg_index d) (kind_region (kind d))"

section \<open>Facts\<close>

definition all_descs :: "SysRegDesc list" where
  "all_descs = kAppleTable @ kEl2Table @ kTable"

text \<open>The encodings in the order the tables list them; the checks below compute on numbers.\<close>

definition desc_ok :: "SysRegDesc \<Rightarrow> bool" where
  "desc_ok d \<longleftrightarrow> (case kind_region (kind d) of
       Some (base, n) \<Rightarrow> reg_index d < n
     | None \<Rightarrow> kind d = 5 \<or> (kind d = 7 \<and> reg_index d < 32))"

lemma all_descs_ok: "list_all desc_ok all_descs"
  by (simp add: all_descs_def kAppleTable_def kEl2Table_def kTable_def desc_ok_def kind_region_def)

lemma cases_match: "map fst kTable_cases = map encoding kTable" "map snd kTable_cases = [0..<length kTable]"
  by (simp_all add: kTable_cases_def kTable_def upt_rec_numeral upt_rec)

lemma find_desc_Some: "find_desc enc ds = Some d \<Longrightarrow> d \<in> set ds \<and> encoding d = enc"
  unfolding find_desc_def by (auto dest: find_Some_iff [THEN iffD1])

lemma kTable_case:
  assumes "map_of kTable_cases enc = Some i"
  shows "i < length kTable \<and> encoding (kTable ! i) = enc"
proof -
  from map_of_SomeD [OF assms] obtain j where j: "j < length kTable_cases"
    "kTable_cases ! j = (enc, i)" by (auto simp: in_set_conv_nth)
  have len: "length kTable_cases = length kTable"
    using arg_cong [OF cases_match(1), of length] by simp
  have "i = j" using arg_cong [OF cases_match(2), of "\<lambda>l. l ! j"] j len by simp
  moreover have "enc = encoding (kTable ! j)"
    using arg_cong [OF cases_match(1), of "\<lambda>l. l ! j"] j len by simp
  ultimately show ?thesis using j len by simp
qed

lemma sysreg_lookup_in:
  assumes "sysreg_lookup enc = Some d" shows "d \<in> set all_descs \<and> encoding d = enc"
  using assms kTable_case [of enc]
  by (auto simp: sysreg_lookup_def sysreg_lookup_apple_def all_descs_def
      split: option.splits dest!: find_desc_Some)

text \<open>A register the lookup knows is described by an entry of its own encoding,
  and the entry's slot lies inside the block its kind names (or is one of the shadow's 32
  words, or an ID register).\<close>

theorem sysreg_lookup_sound:
  assumes "sysreg_lookup enc = Some d"
  shows "encoding d = enc
    \<and> (case kind_region (kind d) of
         Some (base, n) \<Rightarrow> reg_index d < n \<and> base + 8 * n \<le> 0x4000
       | None \<Rightarrow> kind d = 5 \<or> (kind d = 7 \<and> reg_index d < 32))"
proof -
  from sysreg_lookup_in [OF assms] all_descs_ok have "encoding d = enc" "desc_ok d"
    by (auto simp: list_all_iff)
  then show ?thesis
    by (auto simp: desc_ok_def kind_region_def layout split: option.splits if_splits)
qed

theorem sysreg_lookup_sound_witness:
  "sysreg_lookup 0xc600 = Some (desc 0xc600 1 8 OHV_STATE_SYSREGS True)
   \<and> desc_offset (desc 0xc600 1 8 OHV_STATE_SYSREGS True) = Some bk_vbar_el1
   \<and> kind_region 1 = Some (OHV_RW_BANKED_SYSREGS, 24) \<and> (8 :: nat) < 24"
proof -
  have l: "sysreg_lookup 0xc600 = Some (desc 0xc600 1 8 OHV_STATE_SYSREGS True)"
    by (simp add: sysreg_lookup_def sysreg_lookup_apple_def find_desc_def kAppleTable_def
        kEl2Table_def kTable_cases_def kTable_def)
  from sysreg_lookup_sound [OF l] l show ?thesis
    by (simp add: kind_region_def desc_offset_def layout)
qed

text \<open>Every register kept in the context is kept in the field of its own name:
  in the order of the tables, the slot of each encoding is the struct field's offset --
  \<open>struct_fields_at\<close> of the context theory ties those to the C layout -- so no register reads
  or writes another one's slot.\<close>

theorem sysreg_slots:
  "map (\<lambda>d. (encoding d, desc_offset d)) (filter (\<lambda>d. desc_offset d \<noteq> None) all_descs) =
    [(0xf788, Some ext_sprr_config_el1), (0xf78d, Some ext_sprr_uperm_el0),
     (0xf78e, Some ext_sprr_pperm_el1), (0xf78a, Some ext_gxf_config_el1),
     (0xf7c1, Some ext_gxf_entry_el1), (0xf7c2, Some ext_gxf_pabentry_el1),
     (0xf7d0, Some ext_sp_gl1), (0xf7d1, Some ext_tpidr_gl1), (0xf7d2, Some ext_vbar_gl1),
     (0xf7d3, Some ext_spsr_gl1), (0xf7d4, Some ext_aspsr_gl1), (0xf7d5, Some ext_esr_gl1),
     (0xf7d6, Some ext_elr_gl1), (0xf7d7, Some ext_far_gl1), (0xe000, Some ctl_vpidr_el2),
     (0xe005, Some ctl_vmpidr_el2), (0xe08a, Some ctl_cptr_el2), (0xe089, Some ctl_mdcr_el2),
     (0xe088, Some OHV_NESTED_HCR_EL2), (0xe108, Some OHV_NESTED_VTTBR_EL2),
     (0xe10a, Some OHV_NESTED_VTCR_EL2), (0xe703, Some OHV_NESTED_CNTVOFF_EL2),
     (0xe682, Some OHV_NESTED_TPIDR_EL2), (0xe784, Some ext_apctl_el1),
     (0xe789, Some ext_kernkeyhi_el1), (0xe788, Some ext_kernkeylo_el1),
     (0xf7c7, Some ext_pmcr1_gl1), (0xf781, Some ext_afsr1_gl1),
     (0xf78b, Some ext_sprr_amrange_el1), (0xf799, Some ext_sprr_pmprr_el1),
     (0xe7f9, Some ext_jrange_el1), (0xe7fc, Some ext_jctl_el1),
     (0xe7ed, Some ext_japiakeyhi_el1), (0xe7ec, Some ext_japiakeylo_el1),
     (0xe7ef, Some ext_japibkeyhi_el1), (0xe7ee, Some ext_japibkeylo_el1),
     (0x8010, Some (OHV_RW_DBGREGS + 512)), (0x8012, Some sh_mdscr_el1),
     (0xc080, Some bk_sctlr_el1), (0xc082, Some bk_cpacr_el1), (0xc100, Some bk_ttbr0_el1),
     (0xc101, Some bk_ttbr1_el1), (0xc102, Some bk_tcr_el1), (0xc108, Some ext_apiakeylo_el1),
     (0xc109, Some ext_apiakeyhi_el1), (0xc10a, Some ext_apibkeylo_el1),
     (0xc10b, Some ext_apibkeyhi_el1), (0xc110, Some ext_apdakeylo_el1),
     (0xc111, Some ext_apdakeyhi_el1), (0xc112, Some ext_apdbkeylo_el1),
     (0xc113, Some ext_apdbkeyhi_el1), (0xc118, Some ext_apgakeylo_el1),
     (0xc119, Some ext_apgakeyhi_el1), (0xc200, Some bk_spsr_el1), (0xc201, Some bk_elr_el1),
     (0xc208, Some sh_sp_el0), (0xc288, Some bk_afsr0_el1), (0xc289, Some bk_afsr1_el1),
     (0xc290, Some bk_esr_el1), (0xc300, Some bk_far_el1), (0xc3a0, Some sh_par_el1),
     (0xc510, Some bk_mair_el1), (0xc518, Some bk_amair_el1), (0xc600, Some bk_vbar_el1),
     (0xc681, Some bk_contextidr_el1), (0xc684, Some sh_tpidr_el1),
     (0xc708, Some bk_cntkctl_el1), (0xd000, Some sh_csselr_el1), (0xde82, Some sh_tpidr_el0),
     (0xde83, Some sh_tpidrro_el0), (0xdf19, Some bk_cntv_ctl_el0),
     (0xdf1a, Some bk_cntv_cval_el0), (0xe208, Some sh_sp_el1), (0xdf12, Some bk_cntp_cval_el0)]"
  by (simp add: all_descs_def kAppleTable_def kEl2Table_def kTable_def desc_offset_def
      kind_region_def layout)

lemma sysreg_offsets_distinct:
  "distinct (map desc_offset (filter (\<lambda>d. desc_offset d \<noteq> None) all_descs))"
  by (simp add: all_descs_def kAppleTable_def kEl2Table_def kTable_def desc_offset_def
      kind_region_def layout)

text \<open>No two encodings share a slot of the context: writing one register never
  changes what another reads back.\<close>

theorem sysreg_slots_injective:
  assumes "sysreg_lookup e1 = Some d1" and "sysreg_lookup e2 = Some d2"
    and "desc_offset d1 = Some a" and "desc_offset d2 = Some a"
  shows "e1 = e2"
proof -
  let ?f = "filter (\<lambda>d. desc_offset d \<noteq> None) all_descs"
  from assms sysreg_lookup_in have "d1 \<in> set ?f" "d2 \<in> set ?f" by auto
  with sysreg_offsets_distinct assms(3,4) have "d1 = d2"
    unfolding distinct_map inj_on_def by auto
  with assms(1,2) sysreg_lookup_in show ?thesis by metis
qed

theorem sysreg_slots_injective_witness:
  "sysreg_lookup 0xc600 = sysreg_lookup 0xc600 \<and> desc_offset (the (sysreg_lookup 0xc600)) = Some bk_vbar_el1"
proof -
  have l: "sysreg_lookup 0xc600 = Some (desc 0xc600 1 8 OHV_STATE_SYSREGS True)"
    by (simp add: sysreg_lookup_def sysreg_lookup_apple_def find_desc_def kAppleTable_def
        kEl2Table_def kTable_cases_def kTable_def)
  have o': "desc_offset (desc 0xc600 1 8 OHV_STATE_SYSREGS True) = Some bk_vbar_el1"
    by (simp add: kind_region_def desc_offset_def layout)
  from sysreg_slots_injective [OF l l o' o'] l o' show ?thesis by simp
qed

end
