(* ===== verification/Ohv_Caps.thy ===== *)
theory Ohv_Caps
  imports Ohv_Vm
begin

text \<open>
  The identification registers of \<open>src/ohv_misc.cpp\<close>: which of them the capabilities carry,
  how the host's values are narrowed before a guest or a vCPU configuration reads them, and the
  slot each has among a vCPU's own copies.

  The machine's IPA size is an argument of the narrowing (\<open>parange_field\<close> asks
  \<open>hv_vm_config_get_max_ipa_size\<close> for it, which never fails for a non-null pointer).
\<close>

definition HV_SYS_REG_MIDR_EL1 :: u16 where [masks]: "HV_SYS_REG_MIDR_EL1 = 0xc000"
definition HV_SYS_REG_MPIDR_EL1 :: u16 where [masks]: "HV_SYS_REG_MPIDR_EL1 = 0xc005"

definition kCapsMap :: "(u16 \<times> nat) list" where
  "kCapsMap =
    [(0xc028, 0), (0xc029, 1), (0xc030, 2), (0xc031, 3), (0xc038, 4), (0xc039, 5), (0xc03a, 6),
     (0xc020, 7), (0xc021, 8), (0xd801, 9), (0xc801, 10), (0xd807, 11)]"

definition parange_field :: "u32 \<Rightarrow> u64" where
  "parange_field bits =
     (if 52 \<le> bits then 6 else if 48 \<le> bits then 5 else if 44 \<le> bits then 4
      else if 42 \<le> bits then 3 else if 40 \<le> bits then 2 else if 36 \<le> bits then 1 else 0)"

definition ohv_id_reg_for :: "u32 \<Rightarrow> ohv_capabilities \<Rightarrow> nat \<Rightarrow> bool \<Rightarrow> u64" where
  "ohv_id_reg_for ipa c which for_config =
     (if which = 3
      then id_aa64isar1_el1 c AND (if for_config then 0x00F0FFFFFFFFFFFF else 0x0000FFFFFFFFFFFF)
      else if which = 0 then (id_aa64dfr0_el1 c AND 0xF0F0F000) OR 6
      else if which = 1 then 0
      else if which = 2 then id_aa64isar0_el1 c AND 0xFFFFFFFFF0FFFFF0
      else if which = 4 then (id_aa64mmfr0_el1 c AND 0x0000F000FFF000F0) OR parange_field ipa
      else if which = 5 then id_aa64mmfr1_el1 c AND 0x0000F000FFFFF0F0
      else if which = 6 then id_aa64mmfr2_el1 c AND 0xF0FF00FF0F0FF0FF
      else if which = 7 then id_aa64pfr0_el1 c AND 0xFF0F0000F0FF00FF
      else if which = 8 then id_aa64pfr1_el1 c AND 0x0000000F0F00000F
      else if which = 9 then ctr_el0 c
      else if which = 10 then clidr_el1 c
      else if which = 11 then dczid_el0 c
      else if which = 12
      then (let raw = id_aa64smfr0_el1 c in
            if 0x0200000000000000 < raw AND 0x0F00000000000000
            then (raw AND 0x90F1FFFF70000000) OR 0x0200000000000000
            else raw AND 0x9FF1FFFF70000000)
      else if which = 13
      then (let raw = id_aa64zfr0_el1 c in
            if raw AND 0xF \<le> 2 then raw AND 0x0FF0FF0F0FFF00FF
            else (raw AND 0x0FF0FF0F0FFF00F0) OR 2)
      else 0)"

definition OHV_ID_SLOT_MIDR :: nat where [layout]: "OHV_ID_SLOT_MIDR = 18"
definition OHV_ID_SLOT_MPIDR :: nat where [layout]: "OHV_ID_SLOT_MPIDR = 19"

text \<open>\<open>ohv_id_slot\<close> answers -1 for an encoding that has no slot; here \<open>None\<close>.\<close>

definition ohv_id_slot :: "u16 \<Rightarrow> nat option" where
  "ohv_id_slot enc =
     (if enc = HV_SYS_REG_MIDR_EL1 then Some OHV_ID_SLOT_MIDR
      else if enc = HV_SYS_REG_MPIDR_EL1 then Some OHV_ID_SLOT_MPIDR
      else map_of kCapsMap enc)"

definition ohv_caps_field :: "u32 \<Rightarrow> ohv_capabilities \<Rightarrow> u16 \<Rightarrow> u64" where
  "ohv_caps_field ipa c enc =
     (if enc = HV_SYS_REG_MIDR_EL1 then 0x610f0000
      else case map_of kCapsMap enc of
        Some which \<Rightarrow> ohv_id_reg_for ipa c which False
      | None \<Rightarrow> 0)"

definition hv_vcpu_config_get_feature_reg ::
  "'k kernel \<Rightarrow> bool \<Rightarrow> u32 \<Rightarrow> bool \<Rightarrow> u32 \<Rightarrow> ohv_vm_state \<Rightarrow> 'k
     \<Rightarrow> hv_return \<times> u64 option \<times> ohv_vm_state \<times> 'k" where
  "hv_vcpu_config_get_feature_reg K c reg p ipa g k =
     (if \<not> c \<or> \<not> p then (HV_BAD_ARGUMENT, None, g, k)
      else case ohv_caps_cached K g k of
        (caps, g', k') \<Rightarrow>
          if 17 < reg then (HV_BAD_ARGUMENT, None, g', k')
          else (HV_SUCCESS, Some (ohv_id_reg_for ipa caps (unat reg) True), g', k'))"

definition HV_CACHE_TYPE_INSTRUCTION :: u32 where [masks]: "HV_CACHE_TYPE_INSTRUCTION = 1"

definition hv_vcpu_config_get_ccsidr_el1_sys_reg_values ::
  "'k kernel \<Rightarrow> bool \<Rightarrow> u32 \<Rightarrow> bool \<Rightarrow> 'k \<Rightarrow> hv_return \<times> u64 list option \<times> 'k" where
  "hv_vcpu_config_get_ccsidr_el1_sys_reg_values K c t p k =
     (if \<not> c \<or> \<not> p then (HV_BAD_ARGUMENT, None, k)
      else case k_capabilities K k of
        (r, caps, k') \<Rightarrow>
          if r \<noteq> HV_SUCCESS then (HV_ERROR, None, k')
          else (HV_SUCCESS,
                Some (map (if t = HV_CACHE_TYPE_INSTRUCTION then ccsidr_el1_inst caps
                           else ccsidr_el1_data_or_unified caps) [0..<8]), k'))"

section \<open>Narrowing\<close>

text \<open>The capabilities a host would report if its registers were the narrowed ones.\<close>

definition narrowed :: "u32 \<Rightarrow> bool \<Rightarrow> ohv_capabilities \<Rightarrow> ohv_capabilities" where
  "narrowed ipa f c = c\<lparr>id_aa64dfr0_el1 := ohv_id_reg_for ipa c 0 f,
     id_aa64isar0_el1 := ohv_id_reg_for ipa c 2 f, id_aa64isar1_el1 := ohv_id_reg_for ipa c 3 f,
     id_aa64mmfr0_el1 := ohv_id_reg_for ipa c 4 f, id_aa64mmfr1_el1 := ohv_id_reg_for ipa c 5 f,
     id_aa64mmfr2_el1 := ohv_id_reg_for ipa c 6 f, id_aa64pfr0_el1 := ohv_id_reg_for ipa c 7 f,
     id_aa64pfr1_el1 := ohv_id_reg_for ipa c 8 f, id_aa64smfr0_el1 := ohv_id_reg_for ipa c 12 f,
     id_aa64zfr0_el1 := ohv_id_reg_for ipa c 13 f\<rparr>"

lemma and_or_and: "((x :: u64) AND m OR v) AND m' = (x AND (m AND m')) OR (v AND m')"
  by (simp add: bit.conj_disj_distrib2 and.assoc)

lemma parange_masked: "parange_field ipa AND 0x0000F000FFF000F0 = 0"
  by (simp add: parange_field_def)

lemma id_reg_narrowed_simple:
  "w \<noteq> 12 \<Longrightarrow> w \<noteq> 13 \<Longrightarrow> ohv_id_reg_for ipa (narrowed ipa f c) w f = ohv_id_reg_for ipa c w f"
  by (simp add: ohv_id_reg_for_def narrowed_def and_or_and parange_masked Let_def and.assoc)

lemma id_reg_narrowed_smfr0:
  "ohv_id_reg_for ipa (narrowed ipa f c) 12 f = ohv_id_reg_for ipa c 12 f"
  by (simp add: ohv_id_reg_for_def narrowed_def Let_def and_or_and and.assoc)

lemma id_reg_narrowed_zfr0:
  "ohv_id_reg_for ipa (narrowed ipa f c) 13 f = ohv_id_reg_for ipa c 13 f"
  by (simp add: ohv_id_reg_for_def narrowed_def Let_def and_or_and and.assoc)

text \<open>Narrowing is final and the same for everyone: a host whose registers
  already are the narrowed ones is answered with exactly them (so a VMM that writes back what
  it read finds it again), and a vCPU configuration is told the same as the guest except for
  bits 55 to 52 of ID_AA64ISAR1_EL1.\<close>

theorem id_reg_narrowing:
  "ohv_id_reg_for ipa (narrowed ipa f c) w f = ohv_id_reg_for ipa c w f
   \<and> (ohv_id_reg_for ipa c w True XOR ohv_id_reg_for ipa c w False) AND NOT 0x00F0000000000000 = 0
   \<and> (w = 3 \<or> ohv_id_reg_for ipa c w True = ohv_id_reg_for ipa c w False)"
proof (intro conjI)
  show "ohv_id_reg_for ipa (narrowed ipa f c) w f = ohv_id_reg_for ipa c w f"
    using id_reg_narrowed_simple id_reg_narrowed_smfr0 id_reg_narrowed_zfr0 by metis
  have eq: "ohv_id_reg_for ipa c w True = ohv_id_reg_for ipa c w False" if "w \<noteq> 3" for w
    using that by (simp add: ohv_id_reg_for_def)
  have x: "x AND a XOR x AND b = x AND (a XOR b)" for x a b :: u64
    by (rule bit_word_eqI) (auto simp: bit_simps)
  show "(ohv_id_reg_for ipa c w True XOR ohv_id_reg_for ipa c w False) AND NOT 0x00F0000000000000 = 0"
    by (cases "w = 3") (simp_all add: eq ohv_id_reg_for_def x and.assoc)
  show "w = 3 \<or> ohv_id_reg_for ipa c w True = ohv_id_reg_for ipa c w False" using eq by blast
qed

text \<open>The number of physical address bits a PARange value names.\<close>

definition parange_bits :: "u64 \<Rightarrow> nat" where
  "parange_bits v = [32, 36, 40, 42, 44, 48, 52] ! unat v"

text \<open>The physical address range a guest reads in ID_AA64MMFR0_EL1 is a value the
  field can name, never more bits than the machine's IPA size has (from 32 up), and the
  largest such value.\<close>

theorem parange_rounds_down:
  assumes "32 \<le> ipa"
  shows "ohv_id_reg_for ipa c 4 f AND 0xF = parange_field ipa
     \<and> parange_field ipa \<le> 6
     \<and> parange_bits (parange_field ipa) \<le> unat ipa
     \<and> (\<forall>v \<le> 6. parange_bits v \<le> unat ipa \<longrightarrow> v \<le> parange_field ipa)"
proof (intro conjI)
  show "ohv_id_reg_for ipa c 4 f AND 0xF = parange_field ipa"
    by (simp add: ohv_id_reg_for_def and_or_and) (simp add: parange_field_def)
  show "parange_field ipa \<le> 6" by (simp add: parange_field_def)
  show "parange_bits (parange_field ipa) \<le> unat ipa"
    using assms by (auto simp: parange_field_def parange_bits_def word_le_nat_alt)
  have "v \<le> parange_field ipa" if "v \<le> 6" "parange_bits v \<le> unat ipa" for v
  proof -
    have "unat v \<le> 6" using that(1) by (simp add: word_le_nat_alt)
    then consider "unat v = 0" | "unat v = 1" | "unat v = 2" | "unat v = 3" | "unat v = 4"
      | "unat v = 5" | "unat v = 6" by linarith
    then show ?thesis
      by cases (use that(2) in \<open>auto simp: parange_bits_def parange_field_def word_le_nat_alt\<close>)
  qed
  then show "\<forall>v \<le> 6. parange_bits v \<le> unat ipa \<longrightarrow> v \<le> parange_field ipa" by blast
qed

theorem parange_rounds_down_witness:
  "ohv_id_reg_for 39 zero_caps 4 True AND 0xF = 1 \<and> parange_bits 1 = 36"
  using parange_rounds_down [of 39 zero_caps True]
  by (simp add: parange_field_def parange_bits_def)

text \<open>No guest and no VMM ever learns that the host has EL2: bits 11 to 8 of
  ID_AA64PFR0_EL1 are cleared on both paths, whatever the capabilities hold.\<close>

theorem pfr0_hides_el2: "ohv_id_reg_for ipa c 7 f AND 0xF00 = 0"
  by (simp add: ohv_id_reg_for_def and.assoc)

lemma ohv_id_slot_bound: "ohv_id_slot enc = Some i \<Longrightarrow> i < 20"
  by (auto simp: ohv_id_slot_def kCapsMap_def OHV_ID_SLOT_MIDR_def OHV_ID_SLOT_MPIDR_def
      dest!: map_of_SomeD split: if_splits)

end
