(* ===== verification/Ohv_Nv2.thy ===== *)
theory Ohv_Nv2
  imports Ohv_Vm
begin

text \<open>
  Trapped system register accesses the library answers itself: \<open>service_nv2_access\<close> of
  \<open>src/ohv_vcpu.cpp\<close>, one definition per block of the function in the order it tries them, and
  what the blocks use -- the table of the guest hypervisor's EL2 registers (\<open>kNv2Regs\<close>), the
  interrupt controller's CPU interface registers (\<open>gic_if_slot\<close>) and the stage-1 translation
  walk behind the AT instructions (\<open>ohv_translate_stage1\<close>).

  A block answers whether the access was carried out, with the statics and the slot it leaves;
  the ones that give up half way leave what they had changed.  Register 31 reads as zero and
  is not written.  Registers 29 and 30 are \<open>fp\<close> and \<open>lr\<close>, the two words after the array
  \<open>x[29]\<close>, where the code's own indexing puts them.
\<close>

section \<open>The access\<close>

record sys_access =
  a_op0 :: nat
  a_op1 :: nat
  a_crn :: nat
  a_crm :: nat
  a_op2 :: nat
  a_rt :: nat
  a_read :: bool

definition bits_of :: "u64 \<Rightarrow> nat \<Rightarrow> u64 \<Rightarrow> nat" where
  "bits_of v sh m = unat (drop_bit sh v AND m)"

definition decode_esr :: "u64 \<Rightarrow> sys_access" where
  "decode_esr esr =
     \<lparr>a_op0 = bits_of esr 20 3, a_op1 = bits_of esr 14 7, a_crn = bits_of esr 10 0xf,
      a_crm = bits_of esr 1 0xf, a_op2 = bits_of esr 17 7, a_rt = bits_of esr 5 0x1f,
      a_read = (esr AND 1 \<noteq> 0)\<rparr>"

definition sys_enc :: "sys_access \<Rightarrow> u32" where
  "sys_enc a = push_bit 14 (of_nat (a_op0 a)) OR push_bit 11 (of_nat (a_op1 a))
     OR push_bit 7 (of_nat (a_crn a)) OR push_bit 3 (of_nat (a_crm a)) OR of_nat (a_op2 a)"

definition src_reg :: "nat \<Rightarrow> VcpuSlot \<Rightarrow> u64" where
  "src_reg rt s = (if rt = 31 then 0 else ctx_rd s (off_x rt))"

definition dst_reg :: "nat \<Rightarrow> u64 \<Rightarrow> VcpuSlot \<Rightarrow> VcpuSlot" where
  "dst_reg rt v s = (if rt \<noteq> 31 then ctx_wr (off_x rt) v s else s)"

definition next_insn :: "VcpuSlot \<Rightarrow> VcpuSlot" where
  "next_insn s = ctx_wr OHV_RW_PC (slot_pc s + 4) s"

definition OHV_HCR_NV :: u64 where [masks]: "OHV_HCR_NV = bit_mask 42"
definition OHV_HCR_NV2 :: u64 where [masks]: "OHV_HCR_NV2 = bit_mask 45"

definition set_nv :: "bool \<Rightarrow> VcpuSlot \<Rightarrow> VcpuSlot" where
  "set_nv on s =
     ctx_dirty OHV_STATE_CONTROLS
       (ctx_wr ctl_hcr_el2
         (if on then ctx_rd s ctl_hcr_el2 OR OHV_HCR_NV else ctx_rd s ctl_hcr_el2 AND NOT OHV_HCR_NV) s)"

section \<open>Tables\<close>

record Nv2Reg =
  nv2_enc :: u16
  ctx_off :: nat
  banked :: bool

definition VNCR :: "u16 \<Rightarrow> nat \<Rightarrow> Nv2Reg" where
  "VNCR e x = \<lparr>nv2_enc = e, ctx_off = 0x1000 + x, banked = False\<rparr>"
definition BANKED :: "u16 \<Rightarrow> nat \<Rightarrow> Nv2Reg" where
  "BANKED e i = \<lparr>nv2_enc = e, ctx_off = OHV_RW_BANKED_SYSREGS + i * 8, banked = True\<rparr>"

definition kNv2Regs :: "Nv2Reg list" where
  "kNv2Regs =
    [BANKED 0xe080 12, BANKED 0xe08a 13, BANKED 0xe100 0, BANKED 0xe101 1, BANKED 0xe102 2,
     BANKED 0xe510 6, BANKED 0xe518 7, BANKED 0xe681 17, BANKED 0xe200 14, BANKED 0xe201 3,
     BANKED 0xe300 4, BANKED 0xe290 5,
     VNCR 0xe000 0x088, VNCR 0xe005 0x050, VNCR 0xe088 0x078, VNCR 0xe089 0x130,
     VNCR 0xe08b 0x080, VNCR 0xe108 0x020, VNCR 0xe10a 0x040, VNCR 0xe304 0x1f8,
     VNCR 0xe682 0x090, VNCR 0xe703 0x060, VNCR 0xe708 0x0e0, VNCR 0xe600 0x250]"

definition nv2_lookup :: "u32 \<Rightarrow> Nv2Reg option" where
  "nv2_lookup enc = find (\<lambda>r. ucast (nv2_enc r) = enc) kNv2Regs"

definition gic_if_slot :: "VcpuSlot \<Rightarrow> u16 \<Rightarrow> VcpuSlot \<times> nat option" where
  "gic_if_slot s enc =
     (let s' = (if \<not> gic_if_ready s
                then s\<lparr>gic_if_ready := True, gic_if := [(0xc665, 0x7)]\<rparr> else s)
      in case claim_key GIC_IF_CAP enc (gic_if s') of
           None \<Rightarrow> (s', None)
         | Some (es, i) \<Rightarrow> (s'\<lparr>gic_if := es\<rparr>, Some i))"

definition is_gic_interface_reg :: "sys_access \<Rightarrow> bool" where
  "is_gic_interface_reg a \<longleftrightarrow>
     a_op0 a = 3
     \<and> ((a_crn a = 12 \<and> (a_op1 a = 0 \<or> a_op1 a = 4) \<and> 8 \<le> a_crm a \<and> a_crm a \<le> 12)
        \<or> (a_crn a = 4 \<and> a_op1 a = 0 \<and> a_crm a = 6 \<and> a_op2 a = 0))"

section \<open>The stage-1 walk\<close>

definition OHV_PAR_FAULT :: u64 where [masks]: "OHV_PAR_FAULT = 1"

text \<open>The granule's page bits, out of TG1 for the upper half and TG0 for the lower.\<close>

definition tg_page_bits :: "bool \<Rightarrow> nat \<Rightarrow> nat option" where
  "tg_page_bits upper tg =
     (if upper then (if tg = 1 then Some 14 else if tg = 2 then Some 12
                     else if tg = 3 then Some 16 else None)
      else (if tg = 0 then Some 12 else if tg = 1 then Some 16
            else if tg = 2 then Some 14 else None))"

text \<open>The level a walk starts at: up from level 3 while bits are left to resolve.\<close>

fun start_level :: "nat \<Rightarrow> nat \<Rightarrow> nat \<Rightarrow> nat \<Rightarrow> nat" where
  "start_level level_bits va_bits 0 resolved = 0"
| "start_level level_bits va_bits (Suc l) resolved =
     (if resolved + level_bits < va_bits
      then start_level level_bits va_bits l (resolved + level_bits) else Suc l)"

definition low_bits :: "nat \<Rightarrow> u64" where "low_bits n = bit_mask n - 1"

text \<open>The descent.  The last argument is how many levels are left below this one, that is 3
  minus the code's \<open>level\<close>.\<close>

fun stage1_walk :: "world \<Rightarrow> nat \<Rightarrow> nat \<Rightarrow> u64 \<Rightarrow> u64 \<Rightarrow> nat \<Rightarrow> u64" where
  "stage1_walk w page_bits va_bits va table rest =
     (let level_bits = page_bits - 3;
          sh = page_bits + rest * level_bits;
          n = (if va_bits < sh + level_bits then va_bits - sh else level_bits);
          ix = drop_bit sh va AND low_bits n
      in case guest_rd64 w (table + ix * 8) of
           None \<Rightarrow> OHV_PAR_FAULT
         | Some d \<Rightarrow>
             if d AND 1 = 0 then OHV_PAR_FAULT
             else
               let nxt = d AND 0x0000fffffffff000 in
               if d AND 3 = 1 \<or> rest = 0
               then (nxt AND NOT (low_bits sh)) OR (va AND low_bits sh AND 0x0000fffffffff000)
               else (case rest of
                       0 \<Rightarrow> OHV_PAR_FAULT
                     | Suc r \<Rightarrow>
                         stage1_walk w page_bits va_bits va (nxt AND NOT (low_bits page_bits)) r))"

declare stage1_walk.simps [simp del]

definition ohv_translate_stage1 :: "world \<Rightarrow> VcpuSlot \<Rightarrow> u64 \<Rightarrow> u64" where
  "ohv_translate_stage1 w s va =
     (let tcr = ctx_rd s bk_tcr_el1; sctlr = ctx_rd s bk_sctlr_el1 in
      if sctlr AND 1 = 0 then va AND 0x0000fffffffff000
      else
        let upper = drop_bit 63 va \<noteq> 0;
            tsz = (if upper then bits_of tcr 16 0x3f else bits_of tcr 0 0x3f);
            tg = (if upper then bits_of tcr 30 3 else bits_of tcr 14 3);
            ttbr = (if upper then ctx_rd s bk_ttbr1_el1 else ctx_rd s bk_ttbr0_el1)
        in case tg_page_bits upper tg of
             None \<Rightarrow> OHV_PAR_FAULT
           | Some page_bits \<Rightarrow>
               let va_bits = 64 - tsz in
               if va_bits < page_bits \<or> 52 < va_bits then OHV_PAR_FAULT
               else stage1_walk w page_bits va_bits va
                      (ttbr AND 0x0000fffffffffffe AND NOT (low_bits page_bits))
                      (3 - start_level (page_bits - 3) va_bits 3 page_bits))"

section \<open>The blocks of \<open>service_nv2_access\<close>\<close>

type_synonym nv2_result = "bool \<times> ohv_statics \<times> VcpuSlot"

text \<open>A read-write word of the context, answered and stepped over.\<close>

definition done_access :: "ohv_statics \<Rightarrow> VcpuSlot \<Rightarrow> nv2_result" where
  "done_access st s = (True, st, next_insn s)"

definition nv2_amxidr :: "world \<Rightarrow> sys_access \<Rightarrow> ohv_statics \<Rightarrow> VcpuSlot \<Rightarrow> nv2_result" where
  "nv2_amxidr w a st s =
     done_access st (dst_reg (a_rt a) (cfg_num (w_cfg w) cfg_OHV_AMXIDR 1) s)"

definition nv2_handoff :: "ohv_statics \<Rightarrow> VcpuSlot \<Rightarrow> nv2_result" where
  "nv2_handoff st s = done_access st ((set_nv True s)\<lparr>guest_at_el2 := True\<rparr>)"

definition gxf_ext_index :: "sys_access \<Rightarrow> nat" where
  "gxf_ext_index a = (if a_crm a = 1 then 42 else if a_op2 a = 1 then 43 else 44)"

definition nv2_gxf :: "sys_access \<Rightarrow> ohv_statics \<Rightarrow> VcpuSlot \<Rightarrow> nv2_result" where
  "nv2_gxf a st s =
     (let off = OHV_RW_EXTREGS + gxf_ext_index a * 8 in
      if a_read a then done_access st (dst_reg (a_rt a) (ctx_rd s off) s)
      else done_access st (ctx_dirty OHV_STATE_GXF (ctx_wr off (src_reg (a_rt a) s) s)))"

definition nv2_cache_id :: "world \<Rightarrow> sys_access \<Rightarrow> ohv_statics \<Rightarrow> VcpuSlot \<Rightarrow> nv2_result" where
  "nv2_cache_id w a st s =
     (let caps = (case tid2_caps st of Some c \<Rightarrow> c | None \<Rightarrow> trap_capabilities w);
          st' = st\<lparr>tid2_caps := Some caps\<rparr>;
          csselr = ctx_rd s sh_csselr_el1
      in if a_op1 a = 2
         then (if a_read a then done_access st' (dst_reg (a_rt a) csselr s)
               else done_access st' (ctx_dirty OHV_STATE_SYSREGS
                      (ctx_wr sh_csselr_el1 (src_reg (a_rt a) s) s)))
         else if \<not> a_read a then (False, st', s)
         else if a_op2 a = 1 then done_access st' (dst_reg (a_rt a) (clidr_el1 caps) s)
         else
           let level = bits_of csselr 1 7;
               v = (if csselr AND 1 \<noteq> 0 then ccsidr_el1_inst caps level
                    else ccsidr_el1_data_or_unified caps level)
           in done_access st' (dst_reg (a_rt a) v s))"

definition nv2_counter :: "world \<Rightarrow> sys_access \<Rightarrow> ohv_statics \<Rightarrow> VcpuSlot \<Rightarrow> nv2_result" where
  "nv2_counter w a st s =
     (if a_op2 a = 1 \<or> a_op2 a = 2
      then done_access st (dst_reg (a_rt a) (w_now w - ctx_rd s ctl_virtual_timer_offset) s)
      else if a_op2 a = 0 then done_access st (dst_reg (a_rt a) (w_cntfrq w) s)
      else (False, st, s))"

text \<open>The timers: the physical one's control word is the shadow's, and its banked slot is
  kept zero; TVAL is the distance to the compare value, CVAL the compare value in the guest's
  own clock.\<close>

definition timer_ctl :: "bool \<Rightarrow> VcpuSlot \<Rightarrow> u64" where
  "timer_ctl physical s =
     (if physical then el2_shadow s OHV_SHADOW_CNTP_CTL else ctx_rd s bk_cntv_ctl_el0)"
definition set_timer_ctl :: "bool \<Rightarrow> u64 \<Rightarrow> VcpuSlot \<Rightarrow> VcpuSlot" where
  "set_timer_ctl physical v s =
     (if physical then s\<lparr>el2_shadow := (el2_shadow s)(OHV_SHADOW_CNTP_CTL := v)\<rparr>
      else ctx_wr bk_cntv_ctl_el0 v s)"
definition timer_cval_off :: "bool \<Rightarrow> nat" where
  "timer_cval_off physical = (if physical then bk_cntp_cval_el0 else bk_cntv_cval_el0)"

definition sext32 :: "u64 \<Rightarrow> u64" where "sext32 v = scast (ucast v :: u32)"

definition nv2_timer :: "world \<Rightarrow> sys_access \<Rightarrow> ohv_statics \<Rightarrow> VcpuSlot \<Rightarrow> nv2_result" where
  "nv2_timer w a st s0 =
     (let physical = (a_crm a = 2);
          s = (if physical then ctx_wr bk_cntp_ctl_el0 0 s0 else s0);
          cv = timer_cval_off physical;
          off = ctx_rd s ctl_virtual_timer_offset;
          v = src_reg (a_rt a) s
      in if a_op2 a = 0
         then (if a_read a then done_access st (dst_reg (a_rt a) (ctx_rd s cv - w_now w) s)
               else done_access st (ctx_dirty OHV_STATE_SYSREGS (ctx_wr cv (w_now w + sext32 v) s)))
         else if a_op2 a = 1
         then (if a_read a then done_access st (dst_reg (a_rt a) (timer_ctl physical s) s)
               else done_access st (ctx_dirty OHV_STATE_SYSREGS (set_timer_ctl physical v s)))
         else if a_op2 a = 2
         then (if a_read a then done_access st (dst_reg (a_rt a) (ctx_rd s cv - off) s)
               else done_access st (ctx_dirty OHV_STATE_SYSREGS (ctx_wr cv (v + off) s)))
         else (False, st, s))"

definition nv2_gic_if :: "sys_access \<Rightarrow> ohv_statics \<Rightarrow> VcpuSlot \<Rightarrow> nv2_result" where
  "nv2_gic_if a st s0 =
     (case gic_if_slot s0 (ucast (sys_enc a)) of
        (s, None) \<Rightarrow> (False, st, s)
      | (s, Some i) \<Rightarrow>
          if a_read a then done_access st (dst_reg (a_rt a) (slot_val (gic_if s) i) s)
          else done_access st (s\<lparr>gic_if := slot_put (gic_if s) i (src_reg (a_rt a) s)\<rparr>))"

definition nv2_at :: "world \<Rightarrow> sys_access \<Rightarrow> ohv_statics \<Rightarrow> VcpuSlot \<Rightarrow> nv2_result" where
  "nv2_at w a st s =
     done_access st (ctx_dirty OHV_STATE_SYSREGS
       (ctx_wr sh_par_el1 (ohv_translate_stage1 w s (src_reg (a_rt a) s)) s))"

definition nv2_pstate_field :: "sys_access \<Rightarrow> ohv_statics \<Rightarrow> VcpuSlot \<Rightarrow> nv2_result" where
  "nv2_pstate_field a st s =
     (if a_read a then done_access st (dst_reg (a_rt a) (held st) s)
      else done_access (st\<lparr>held := src_reg (a_rt a) s\<rparr>) s)"

definition nv2_gl2 :: "sys_access \<Rightarrow> ohv_statics \<Rightarrow> VcpuSlot \<Rightarrow> nv2_result" where
  "nv2_gl2 a st s =
     (if a_read a then done_access st (dst_reg (a_rt a) (gl2_bank s (a_op2 a)) s)
      else done_access st (s\<lparr>gl2_bank := (gl2_bank s)(a_op2 a := src_reg (a_rt a) s)\<rparr>))"

definition nv2_tmr_ena :: "sys_access \<Rightarrow> ohv_statics \<Rightarrow> VcpuSlot \<Rightarrow> nv2_result" where
  "nv2_tmr_ena a st s =
     (if a_read a then done_access st (dst_reg (a_rt a) (vm_tmr_fiq_ena s) s)
      else done_access st (s\<lparr>vm_tmr_fiq_ena := src_reg (a_rt a) s\<rparr>))"

text \<open>The read-only region registers, whose two names share a slot.\<close>

definition ctrr_slot :: "sys_access \<Rightarrow> u8" where
  "ctrr_slot a = of_nat (if a_crm a = 6 then a_op2 a - 1 else a_op2 a)"

definition nv2_ctrr :: "sys_access \<Rightarrow> ohv_statics \<Rightarrow> VcpuSlot \<Rightarrow> nv2_result" where
  "nv2_ctrr a st s =
     (case claim_key CTRR_CAP (ctrr_slot a) (ctrr s) of
        None \<Rightarrow> (False, st, s)
      | Some (es, i) \<Rightarrow>
          let s' = s\<lparr>ctrr := es\<rparr> in
          if a_read a then done_access st (dst_reg (a_rt a) (slot_val es i) s')
          else done_access st (s'\<lparr>ctrr := slot_put es i (src_reg (a_rt a) s')\<rparr>))"

definition nv2_ctx_trace :: "sys_access \<Rightarrow> ohv_statics \<Rightarrow> VcpuSlot \<Rightarrow> nv2_result" where
  "nv2_ctx_trace a st s =
     (let i = (if a_crm a = 1 then 0 else 1) in
      if a_read a then done_access st (dst_reg (a_rt a) (ctx_trace s i) s)
      else done_access st (s\<lparr>ctx_trace := (ctx_trace s)(i := src_reg (a_rt a) s)\<rparr>))"

definition nv2_impdef :: "world \<Rightarrow> sys_access \<Rightarrow> ohv_statics \<Rightarrow> VcpuSlot \<Rightarrow> nv2_result" where
  "nv2_impdef w a st s =
     (if a_op1 a = 4 \<and> a_crm a = 10 \<and> (a_op2 a = 5 \<or> a_op2 a = 6)
      then (if a_read a
            then done_access st (dst_reg (a_rt a) (w_now w - ctx_rd s ctl_virtual_timer_offset) s)
            else done_access st s)
      else if a_crn a \<noteq> 15 then (False, st, s)
      else
        case claim_key APPLE_SHADOW_CAP (sys_enc a) (apple_shadow s) of
          None \<Rightarrow> (False, st, s)
        | Some (es, i) \<Rightarrow>
            let s' = s\<lparr>apple_shadow := es\<rparr> in
            if a_read a then done_access st (dst_reg (a_rt a) (slot_val es i) s')
            else done_access st (s'\<lparr>apple_shadow := slot_put es i (src_reg (a_rt a) s')\<rparr>))"

definition nv2_el2_reg :: "sys_access \<Rightarrow> ohv_statics \<Rightarrow> VcpuSlot \<Rightarrow> nv2_result" where
  "nv2_el2_reg a st s =
     (case (if a_op1 a = 4 \<and> a_op0 a = 3 then nv2_lookup (sys_enc a) else None) of
        None \<Rightarrow> (False, st, s)
      | Some r \<Rightarrow>
          if a_read a then done_access st (dst_reg (a_rt a) (ctx_rd s (ctx_off r)) s)
          else
            let s' = ctx_wr (ctx_off r) (src_reg (a_rt a) s) s in
            done_access st (if banked r then ctx_dirty OHV_STATE_SYSREGS s' else s'))"

section \<open>The dispatch\<close>

definition is_op :: "sys_access \<Rightarrow> nat \<Rightarrow> nat \<Rightarrow> nat \<Rightarrow> nat \<Rightarrow> nat \<Rightarrow> bool" where
  "is_op a op0 op1 crn crm op2 \<longleftrightarrow>
     a_op0 a = op0 \<and> a_op1 a = op1 \<and> a_crn a = crn \<and> a_crm a = crm \<and> a_op2 a = op2"

datatype nv2_block =
    Amxidr | Handoff | Gxf | Cache_id | Counter | Timer | Gic_if | At | El2_insn | Pstate_field
  | Gl2 | Tmr_ena | Ctrr | Ctx_trace | Impdef | El2_reg

definition nv2_block_of :: "sys_access \<Rightarrow> nv2_block" where
  "nv2_block_of a =
     (if is_op a 3 6 15 2 7 \<and> a_read a then Amxidr
      else if is_op a 3 6 15 15 7 \<and> \<not> a_read a then Handoff
      else if is_op a 3 6 15 1 2 \<or> is_op a 3 6 15 8 1 \<or> is_op a 3 6 15 8 2 then Gxf
      else if is_op a 3 1 0 0 0 \<or> is_op a 3 1 0 0 1 \<or> is_op a 3 2 0 0 0 then Cache_id
      else if a_op0 a = 3 \<and> a_op1 a = 3 \<and> a_crn a = 14 \<and> a_crm a = 0 \<and> a_read a then Counter
      else if a_op0 a = 3 \<and> a_op1 a = 3 \<and> a_crn a = 14 \<and> (a_crm a = 2 \<or> a_crm a = 3) then Timer
      else if is_gic_interface_reg a then Gic_if
      else if a_op0 a = 1 \<and> (a_op1 a = 4 \<or> a_op1 a = 0) \<and> a_crn a = 7 \<and> (a_crm a = 8 \<or> a_crm a = 9)
      then At
      else if a_op0 a = 1 \<and> a_op1 a = 4 then El2_insn
      else if is_op a 3 3 4 2 6 then Pstate_field
      else if a_op0 a = 3 \<and> a_op1 a = 6 \<and> a_crn a = 15 \<and> a_crm a = 11 \<and> a_op2 a < 8 then Gl2
      else if is_op a 3 5 15 1 3 then Tmr_ena
      else if a_op0 a = 3 \<and> a_op1 a = 4 \<and> a_crn a = 15
              \<and> ((a_crm a = 2 \<and> 2 \<le> a_op2 a \<and> a_op2 a \<le> 5) \<or> (a_crm a = 6 \<and> (a_op2 a = 4 \<or> a_op2 a = 5)))
      then Ctrr
      else if is_op a 3 5 15 1 4 \<or> is_op a 3 5 15 10 1 then Ctx_trace
      else if a_op0 a = 3 \<and> (a_op1 a = 0 \<or> (a_op1 a = 4 \<and> a_crm a = 10)) then Impdef
      else El2_reg)"

definition nv2_service :: "world \<Rightarrow> sys_access \<Rightarrow> ohv_statics \<Rightarrow> VcpuSlot \<Rightarrow> nv2_result" where
  "nv2_service w a st s =
     (case nv2_block_of a of
        Amxidr \<Rightarrow> nv2_amxidr w a st s
      | Handoff \<Rightarrow> nv2_handoff st s
      | Gxf \<Rightarrow> nv2_gxf a st s
      | Cache_id \<Rightarrow> nv2_cache_id w a st s
      | Counter \<Rightarrow> nv2_counter w a st s
      | Timer \<Rightarrow> nv2_timer w a st s
      | Gic_if \<Rightarrow> nv2_gic_if a st s
      | At \<Rightarrow> nv2_at w a st s
      | El2_insn \<Rightarrow> done_access st s
      | Pstate_field \<Rightarrow> nv2_pstate_field a st s
      | Gl2 \<Rightarrow> nv2_gl2 a st s
      | Tmr_ena \<Rightarrow> nv2_tmr_ena a st s
      | Ctrr \<Rightarrow> nv2_ctrr a st s
      | Ctx_trace \<Rightarrow> nv2_ctx_trace a st s
      | Impdef \<Rightarrow> nv2_impdef w a st s
      | El2_reg \<Rightarrow> nv2_el2_reg a st s)"

definition service_nv2_access :: "world \<Rightarrow> u64 \<Rightarrow> ohv_statics \<Rightarrow> VcpuSlot \<Rightarrow> nv2_result" where
  "service_nv2_access w esr st s = nv2_service w (decode_esr esr) st s"

section \<open>Frames\<close>

lemmas nv2_blocks = nv2_amxidr_def nv2_handoff_def nv2_gxf_def nv2_cache_id_def nv2_counter_def
  nv2_timer_def nv2_gic_if_def nv2_at_def nv2_pstate_field_def nv2_gl2_def nv2_tmr_ena_def
  nv2_ctrr_def nv2_ctx_trace_def nv2_impdef_def nv2_el2_reg_def

lemma bits_of_bound: "bits_of v sh m \<le> unat m"
  unfolding bits_of_def by (simp add: word_le_nat_alt [symmetric] word_and_le1)

lemma decode_bounds:
  "a_rt (decode_esr esr) \<le> 31" "a_op0 (decode_esr esr) \<le> 3" "a_op1 (decode_esr esr) \<le> 7"
  "a_op2 (decode_esr esr) \<le> 7" "a_crn (decode_esr esr) \<le> 15" "a_crm (decode_esr esr) \<le> 15"
  unfolding decode_esr_def sys_access.simps by (rule order_trans [OF bits_of_bound], simp)+

text \<open>Updates of the fields outside the context leave every context access alone.\<close>

lemma ctx_rd_field_upd [simp]:
  "ctx_rd (s\<lparr>el2_shadow := e\<rparr>) off = ctx_rd s off" "ctx_rd (s\<lparr>gl2_bank := b\<rparr>) off = ctx_rd s off"
  "ctx_rd (s\<lparr>vm_tmr_fiq_ena := v\<rparr>) off = ctx_rd s off" "ctx_rd (s\<lparr>ctrr := c\<rparr>) off = ctx_rd s off"
  "ctx_rd (s\<lparr>ctx_trace := t\<rparr>) off = ctx_rd s off"
  "ctx_rd (s\<lparr>apple_shadow := p\<rparr>) off = ctx_rd s off" "ctx_rd (s\<lparr>gic_if := g\<rparr>) off = ctx_rd s off"
  "ctx_rd (s\<lparr>gic_if_ready := r\<rparr>) off = ctx_rd s off" "ctx_rd (s\<lparr>guest_at_el2 := x\<rparr>) off = ctx_rd s off"
  by (simp_all add: ctx_rd_def)

lemma gic_if_slot_frame:
  "gic_if_slot s e = (s', i) \<Longrightarrow> ctx_rd s' off = ctx_rd s off"
  by (auto simp: gic_if_slot_def Let_def split: option.splits if_splits)

lemma slot_pc_dst_reg [simp]: "rt \<le> 31 \<Longrightarrow> slot_pc (dst_reg rt v s) = slot_pc s"
  by (auto simp: slot_pc_def dst_reg_def off_x_def layout)

lemma slot_pc_ctx_wr [simp]:
  "off + 8 \<le> OHV_RW_PC \<or> OHV_RW_PC + 8 \<le> off \<Longrightarrow> slot_pc (ctx_wr off v s) = slot_pc s"
  by (simp add: slot_pc_def)

lemma slot_pc_dirty [simp]: "slot_pc (ctx_dirty b s) = slot_pc s"
  by (simp add: slot_pc_def layout)

lemma slot_pc_next [simp]: "slot_pc (next_insn s) = slot_pc s + 4"
  by (simp add: next_insn_def slot_pc_def)

lemma slot_pc_field_upd [simp]:
  "slot_pc (s\<lparr>el2_shadow := e\<rparr>) = slot_pc s" "slot_pc (s\<lparr>gl2_bank := b\<rparr>) = slot_pc s"
  "slot_pc (s\<lparr>vm_tmr_fiq_ena := v\<rparr>) = slot_pc s" "slot_pc (s\<lparr>ctrr := c\<rparr>) = slot_pc s"
  "slot_pc (s\<lparr>ctx_trace := t\<rparr>) = slot_pc s" "slot_pc (s\<lparr>apple_shadow := p\<rparr>) = slot_pc s"
  "slot_pc (s\<lparr>gic_if := g\<rparr>) = slot_pc s" "slot_pc (s\<lparr>guest_at_el2 := x\<rparr>) = slot_pc s"
  by (simp_all add: slot_pc_def)

lemma slot_pc_gic_if_slot: "gic_if_slot s e = (s', i) \<Longrightarrow> slot_pc s' = slot_pc s"
  by (simp add: slot_pc_def gic_if_slot_frame)

lemma nv2_lookup_in: "nv2_lookup enc = Some r \<Longrightarrow> r \<in> set kNv2Regs \<and> ucast (nv2_enc r) = enc"
  unfolding nv2_lookup_def by (auto dest: find_Some_iff [THEN iffD1])

lemma kNv2Regs_offsets:
  "r \<in> set kNv2Regs \<Longrightarrow> (0x3b8 \<le> ctx_off r \<and> ctx_off r + 8 \<le> 0x478) \<or> (0x1000 \<le> ctx_off r \<and> ctx_off r + 8 \<le> 0x1300)"
  by (auto simp: kNv2Regs_def BANKED_def VNCR_def layout)

lemma nv2_lookup_offset:
  assumes "nv2_lookup enc = Some r"
  shows "0x3b8 \<le> ctx_off r" and "ctx_off r + 8 \<le> OHV_RW_STATE_DIRTY \<or> OHV_RW_STATE_DIRTY + 8 \<le> ctx_off r"
  using kNv2Regs_offsets [OF nv2_lookup_in [OF assms, THEN conjunct1]] by (auto simp: layout)

lemma slot_pc_set_nv [simp]: "slot_pc (set_nv on s) = slot_pc s"
  by (simp add: set_nv_def layout)

lemma slot_pc_set_timer_ctl [simp]: "slot_pc (set_timer_ctl p v s) = slot_pc s"
  by (simp add: set_timer_ctl_def layout)

lemma timer_cval_apart:
  "timer_cval_off p + 8 \<le> OHV_RW_PC \<or> OHV_RW_PC + 8 \<le> timer_cval_off p"
  by (simp add: timer_cval_off_def layout)

lemma gxf_off_apart: "OHV_RW_PC + 8 \<le> OHV_RW_EXTREGS + gxf_ext_index a * 8"
  by (simp add: layout)

text \<open>Every block moves the program counter on exactly when it answers.\<close>

lemma nv2_service_pc:
  assumes "nv2_service w a st s = (ok, st', s')" and "a_rt a \<le> 31"
  shows "slot_pc s' = (if ok then slot_pc s + 4 else slot_pc s)"
proof -
  note u = done_access_def timer_cval_apart gxf_off_apart
  have el2: ?thesis if "nv2_el2_reg a st s = (ok, st', s')"
    using that assms(2) nv2_lookup_offset(1) [of "sys_enc a"]
    by (auto simp: nv2_el2_reg_def u Let_def layout split: option.splits if_splits)
  have gic: ?thesis if "nv2_gic_if a st s = (ok, st', s')"
    using that assms(2)
    by (auto simp: nv2_gic_if_def u split: option.splits if_splits prod.splits
        dest: slot_pc_gic_if_slot)
  show ?thesis
    using assms(1)
  proof (cases "nv2_block_of a")
    case Timer
    with assms show ?thesis
      by (auto simp: nv2_service_def nv2_timer_def timer_cval_off_def u Let_def layout split: if_splits)
  next
    case Impdef
    with assms show ?thesis
      by (auto simp: nv2_service_def nv2_impdef_def u Let_def split: if_splits option.splits prod.splits)
  next
    case Ctrr
    with assms show ?thesis
      by (auto simp: nv2_service_def nv2_ctrr_def u Let_def split: if_splits option.splits prod.splits)
  qed (use assms el2 gic in \<open>auto simp: nv2_service_def nv2_amxidr_def nv2_handoff_def nv2_gxf_def
      nv2_cache_id_def nv2_counter_def nv2_at_def nv2_pstate_field_def nv2_gl2_def nv2_tmr_ena_def
      nv2_ctx_trace_def u Let_def layout split: if_splits option.splits\<close>)
qed

lemma slot_wf_field_upd [simp]:
  "slot_wf (s\<lparr>el2_shadow := e\<rparr>) = slot_wf s" "slot_wf (s\<lparr>gl2_bank := b\<rparr>) = slot_wf s"
  "slot_wf (s\<lparr>vm_tmr_fiq_ena := v\<rparr>) = slot_wf s" "slot_wf (s\<lparr>ctx_trace := t\<rparr>) = slot_wf s"
  "slot_wf (s\<lparr>guest_at_el2 := x\<rparr>) = slot_wf s"
  by (simp_all add: slot_wf_def)

lemma slot_wf_moves [simp]:
  "slot_wf (dst_reg rt v s) = slot_wf s" "slot_wf (next_insn s) = slot_wf s"
  "slot_wf (set_nv on s) = slot_wf s" "slot_wf (set_timer_ctl p v s) = slot_wf s"
  by (simp_all add: dst_reg_def next_insn_def set_nv_def set_timer_ctl_def)

lemma slot_wf_gic_if_slot:
  assumes "gic_if_slot s e = (s', i)" and "slot_wf s"
  shows "slot_wf s' \<and> gic_if_ready s'"
proof -
  have one: "assoc_wf GIC_IF_CAP [(0xc665 :: u16, 0x7)]" by (simp add: assoc_wf_def layout)
  with assms show ?thesis
    by (auto simp: gic_if_slot_def slot_wf_def Let_def split: option.splits if_splits
        dest: claim_key_wf [OF _ one] claim_key_wf)
qed

lemma slot_wf_gic_put: "slot_wf s \<Longrightarrow> gic_if_ready s \<Longrightarrow> slot_wf (s\<lparr>gic_if := slot_put (gic_if s) i v\<rparr>)"
  by (simp add: slot_wf_def)

lemma slot_wf_ctrr:
  assumes "claim_key CTRR_CAP k (ctrr s) = Some (es, i)" and "slot_wf s"
  shows "slot_wf (s\<lparr>ctrr := es\<rparr>)" and "slot_wf (s\<lparr>ctrr := slot_put es i v\<rparr>)"
  using assms by (auto simp: slot_wf_def dest: claim_key_wf)

lemma slot_wf_apple:
  assumes "claim_key APPLE_SHADOW_CAP k (apple_shadow s) = Some (es, i)" and "slot_wf s"
  shows "slot_wf (s\<lparr>apple_shadow := es\<rparr>)" and "slot_wf (s\<lparr>apple_shadow := slot_put es i v\<rparr>)"
  using assms by (auto simp: slot_wf_def dest: claim_key_wf)

lemma nv2_service_wf:
  assumes "nv2_service w a st s = (ok, st', s')" and "slot_wf s"
  shows "slot_wf s'"
proof (cases "nv2_block_of a")
  case Gic_if
  obtain s1 i where g: "gic_if_slot s (ucast (sys_enc a)) = (s1, i)" by force
  from slot_wf_gic_if_slot [OF g assms(2)] Gic_if assms(1) g show ?thesis
    by (auto simp: nv2_service_def nv2_gic_if_def done_access_def slot_wf_gic_put
        split: option.splits if_splits)
next
  case Ctrr
  show ?thesis
  proof (cases "claim_key CTRR_CAP (ctrr_slot a) (ctrr s)")
    case None
    with Ctrr assms show ?thesis by (auto simp: nv2_service_def nv2_ctrr_def)
  next
    case (Some p)
    then obtain es i where p: "claim_key CTRR_CAP (ctrr_slot a) (ctrr s) = Some (es, i)" by force
    from slot_wf_ctrr [OF p assms(2)] p Ctrr assms(1) show ?thesis
      by (auto simp: nv2_service_def nv2_ctrr_def done_access_def Let_def split: if_splits)
  qed
next
  case Impdef
  show ?thesis
  proof (cases "claim_key APPLE_SHADOW_CAP (sys_enc a) (apple_shadow s)")
    case None
    with Impdef assms show ?thesis
      by (auto simp: nv2_service_def nv2_impdef_def done_access_def split: if_splits)
  next
    case (Some p)
    then obtain es i where p: "claim_key APPLE_SHADOW_CAP (sys_enc a) (apple_shadow s) = Some (es, i)"
      by force
    from slot_wf_apple [OF p assms(2)] p Impdef assms show ?thesis
      by (auto simp: nv2_service_def nv2_impdef_def done_access_def Let_def split: if_splits)
  qed
next
  case Timer
  with assms show ?thesis
    by (auto simp: nv2_service_def nv2_timer_def done_access_def Let_def split: if_splits)
qed (use assms in \<open>auto simp: nv2_service_def nv2_amxidr_def nv2_handoff_def nv2_gxf_def
      nv2_cache_id_def nv2_counter_def nv2_at_def nv2_pstate_field_def nv2_gl2_def nv2_tmr_ena_def
      nv2_ctx_trace_def nv2_el2_reg_def done_access_def Let_def split: if_splits option.splits\<close>)

section \<open>The general registers across an access\<close>

lemma gpr_dst_reg:
  "n \<le> 30 \<Longrightarrow> rt \<le> 31 \<Longrightarrow>
     ctx_rd (dst_reg rt v s) (off_x n) = (if rt = n then v else ctx_rd s (off_x n))"
proof (cases "rt = n")
  case False
  then have "rt < n \<or> n < rt" by arith
  then have "off_x rt + 8 \<le> off_x n \<or> off_x n + 8 \<le> off_x rt" by (auto simp: off_x_def)
  with False show ?thesis by (simp add: dst_reg_def)
qed (simp add: dst_reg_def)

lemma gpr_ctx_wr: "n \<le> 30 \<Longrightarrow> OHV_RW_SP \<le> off \<Longrightarrow> ctx_rd (ctx_wr off v s) (off_x n) = ctx_rd s (off_x n)"
  by (simp add: off_x_def layout)

lemma gpr_dirty: "n \<le> 30 \<Longrightarrow> ctx_rd (ctx_dirty b s) (off_x n) = ctx_rd s (off_x n)"
  by (simp add: off_x_def layout)

lemma gpr_next: "n \<le> 30 \<Longrightarrow> ctx_rd (next_insn s) (off_x n) = ctx_rd s (off_x n)"
  by (simp add: next_insn_def off_x_def layout)

lemma gpr_set_nv: "n \<le> 30 \<Longrightarrow> ctx_rd (set_nv on s) (off_x n) = ctx_rd s (off_x n)"
  by (simp add: set_nv_def off_x_def layout)

lemma gpr_set_timer_ctl: "n \<le> 30 \<Longrightarrow> ctx_rd (set_timer_ctl p v s) (off_x n) = ctx_rd s (off_x n)"
  by (simp add: set_timer_ctl_def off_x_def layout)

lemmas gpr_moves = gpr_dst_reg gpr_ctx_wr gpr_dirty gpr_next gpr_set_nv gpr_set_timer_ctl

lemma nv2_service_gpr:
  assumes "nv2_service w a st s = (ok, st', s')" and "a_rt a \<le> 31" and "n \<le> 30"
    and "\<not> a_read a \<or> a_rt a \<noteq> n"
  shows "ctx_rd s' (off_x n) = ctx_rd s (off_x n)"
proof -
  note u = done_access_def Let_def gpr_moves
  show ?thesis
  proof (cases "nv2_block_of a")
    case Gic_if
    with assms show ?thesis
      by (auto simp: nv2_service_def nv2_gic_if_def u split: option.splits if_splits prod.splits
          dest: gic_if_slot_frame)
  next
    case Timer
    with assms show ?thesis
      by (auto simp: nv2_service_def nv2_timer_def timer_cval_off_def u layout split: if_splits)
  next
    case Amxidr
    then have "a_read a" by (auto simp: nv2_block_of_def split: if_splits)
    with Amxidr assms show ?thesis by (auto simp: nv2_service_def nv2_amxidr_def u)
  next
    case Counter
    then have "a_read a" by (auto simp: nv2_block_of_def split: if_splits)
    with Counter assms show ?thesis by (auto simp: nv2_service_def nv2_counter_def u split: if_splits)
  next
    case El2_reg
    with assms nv2_lookup_offset(1) [of "sys_enc a"] show ?thesis
      by (auto simp: nv2_service_def nv2_el2_reg_def u layout split: option.splits if_splits)
  qed (use assms in \<open>auto simp: nv2_service_def nv2_handoff_def nv2_gxf_def
      nv2_cache_id_def nv2_at_def nv2_pstate_field_def nv2_gl2_def nv2_tmr_ena_def
      nv2_ctx_trace_def nv2_ctrr_def nv2_impdef_def u layout split: if_splits option.splits\<close>)
qed

text \<open>C1: Answering a trapped register access is exactly one instruction: the
  program counter moves on by four when the access was carried out and stays put when it is
  left to the VMM; the slot's searched tables stay within their bounds with one entry a key;
  and no general register changes except the one a read names.\<close>

theorem service_is_one_instruction:
  assumes "service_nv2_access w esr st s = (ok, st', s')"
  shows "slot_pc s' = (if ok then slot_pc s + 4 else slot_pc s)
     \<and> (slot_wf s \<longrightarrow> slot_wf s')
     \<and> (\<forall>n \<le> 30. \<not> a_read (decode_esr esr) \<or> a_rt (decode_esr esr) \<noteq> n
           \<longrightarrow> ctx_rd s' (off_x n) = ctx_rd s (off_x n))"
proof -
  have n: "nv2_service w (decode_esr esr) st s = (ok, st', s')"
    using assms by (simp add: service_nv2_access_def)
  show ?thesis
    using nv2_service_pc [OF n decode_bounds(1)] nv2_service_wf [OF n]
      nv2_service_gpr [OF n decode_bounds(1)] by blast
qed

text \<open>The syndrome of \<open>mrs x5, S3_6_C15_C11_1\<close> (TPIDR_GL2).\<close>

definition test_world :: world where
  "test_world = \<lparr>w_cfg = no_settings, w_now = 1000, w_cntfrq = 24000000, w_maps = [],
     w_host = (\<lambda>_. 0), w_machine_ipa = 40, w_capabilities = (HV_SUCCESS, zero_caps),
     w_sync = (\<lambda>m. (HV_SUCCESS, m))\<rparr>"

definition make_esr :: "u64 \<Rightarrow> u64 \<Rightarrow> u64 \<Rightarrow> u64 \<Rightarrow> u64 \<Rightarrow> u64 \<Rightarrow> bool \<Rightarrow> u64" where
  "make_esr op0 op1 crn crm op2 rt read =
     0x62000000 OR push_bit 20 op0 OR push_bit 17 op2 OR push_bit 14 op1 OR push_bit 10 crn
       OR push_bit 5 rt OR push_bit 1 crm OR (if read then 1 else 0)"

theorem service_is_one_instruction_witness:
  "\<exists>s'. service_nv2_access test_world (make_esr 3 6 15 11 1 5 True) initial_statics new_VcpuSlot
       = (True, initial_statics, s')
     \<and> slot_pc s' = 4 \<and> slot_wf s' \<and> ctx_rd s' (off_x 7) = 0"
proof -
  have d: "decode_esr (make_esr 3 6 15 11 1 5 True) =
      \<lparr>a_op0 = 3, a_op1 = 6, a_crn = 15, a_crm = 11, a_op2 = 1, a_rt = 5, a_read = True\<rparr>"
    by (simp add: decode_esr_def make_esr_def bits_of_def)
  obtain s' where s: "service_nv2_access test_world (make_esr 3 6 15 11 1 5 True) initial_statics
      new_VcpuSlot = (True, initial_statics, s')"
    by (simp add: service_nv2_access_def d nv2_service_def nv2_block_of_def is_op_def
        is_gic_interface_reg_def nv2_gl2_def done_access_def)
  from service_is_one_instruction [OF s] s show ?thesis
    by (simp add: d) (simp add: slot_pc_def ctx_rd_def new_VcpuSlot_def off_x_def layout)
qed

section \<open>What is written is read back\<close>

text \<open>The registers this side keeps a value for: everything but the identification values,
  the counters, the timers, the instructions and the one-way handoff word.\<close>

definition keeps_value :: "sys_access \<Rightarrow> bool" where
  "keeps_value a \<longleftrightarrow>
     nv2_block_of a \<in> {Gxf, Gic_if, Pstate_field, Gl2, Tmr_ena, Ctrr, Ctx_trace, El2_reg}
     \<or> (nv2_block_of a = Cache_id \<and> a_op1 a = 2)
     \<or> (nv2_block_of a = Impdef \<and> \<not> (a_op1 a = 4 \<and> a_crm a = 10 \<and> (a_op2 a = 5 \<or> a_op2 a = 6)))"

definition as_read :: "nat \<Rightarrow> sys_access \<Rightarrow> sys_access" where
  "as_read r a = a\<lparr>a_rt := r, a_read := True\<rparr>"

lemma as_read_sel [simp]:
  "a_op0 (as_read r a) = a_op0 a" "a_op1 (as_read r a) = a_op1 a" "a_crn (as_read r a) = a_crn a"
  "a_crm (as_read r a) = a_crm a" "a_op2 (as_read r a) = a_op2 a" "a_rt (as_read r a) = r"
  "a_read (as_read r a)" "sys_enc (as_read r a) = sys_enc a"
  "is_gic_interface_reg (as_read r a) = is_gic_interface_reg a"
  "is_op (as_read r a) o0 o1 cn cm o2 = is_op a o0 o1 cn cm o2"
  "gxf_ext_index (as_read r a) = gxf_ext_index a" "ctrr_slot (as_read r a) = ctrr_slot a"
  by (simp_all add: as_read_def sys_enc_def is_gic_interface_reg_def is_op_def gxf_ext_index_def
      ctrr_slot_def)

lemma block_of_write:
  "\<not> a_read a \<Longrightarrow> is_op a 3 6 15 2 7 \<Longrightarrow> nv2_block_of a = El2_reg"
  "\<not> a_read a \<Longrightarrow> is_op a 3 6 15 15 7 \<Longrightarrow> nv2_block_of a = Handoff"
  "\<not> a_read a \<Longrightarrow> a_op0 a = 3 \<Longrightarrow> a_op1 a = 3 \<Longrightarrow> a_crn a = 14 \<Longrightarrow> a_crm a = 0 \<Longrightarrow> nv2_block_of a = El2_reg"
  by (simp_all add: nv2_block_of_def is_op_def is_gic_interface_reg_def)

lemma block_of_as_read:
  assumes "\<not> a_read a" and "nv2_block_of a \<noteq> El2_reg" and "nv2_block_of a \<noteq> Handoff"
  shows "nv2_block_of (as_read r a) = nv2_block_of a"
proof -
  have "\<not> is_op a 3 6 15 2 7" "\<not> is_op a 3 6 15 15 7"
    "\<And>x. (a_op0 a = 3 \<and> a_op1 a = 3 \<and> a_crn a = 14 \<and> a_crm a = 0 \<and> x) = False"
    using assms block_of_write by blast+
  then show ?thesis unfolding nv2_block_of_def as_read_sel using assms(1) by (simp only: simp_thms if_False)
qed

lemma block_of_as_read_el2:
  assumes "nv2_block_of a = El2_reg" and "a_op1 a = 4" and "\<not> a_read a"
  shows "nv2_block_of (as_read r a) = El2_reg"
proof -
  have "\<not> is_op a 3 6 15 2 7" "\<not> is_op a 3 6 15 15 7"
    "\<And>x. (a_op0 a = 3 \<and> a_op1 a = 3 \<and> a_crn a = 14 \<and> a_crm a = 0 \<and> x) = False"
    using assms(2) by (simp_all add: is_op_def)
  then have "nv2_block_of (as_read r a) = nv2_block_of a"
    unfolding nv2_block_of_def as_read_sel using assms(3) by (simp only: simp_thms if_False)
  with assms(1) show ?thesis by simp
qed

lemma src_reg_field_upd [simp]:
  "src_reg rt (s\<lparr>ctrr := c\<rparr>) = src_reg rt s" "src_reg rt (s\<lparr>apple_shadow := p\<rparr>) = src_reg rt s"
  by (simp_all add: src_reg_def)

lemma gic_if_slot_claims:
  assumes "gic_if_slot s e = (s', Some i)"
  obtains t where "gic_if_ready t" "claim_key GIC_IF_CAP e (gic_if t) = Some (gic_if s', i)"
    "s' = t\<lparr>gic_if := gic_if s'\<rparr>"
proof -
  define t where "t = (if \<not> gic_if_ready s
    then s\<lparr>gic_if_ready := True, gic_if := [(0xc665, 0x7)]\<rparr> else s)"
  from assms have c: "(case claim_key GIC_IF_CAP e (gic_if t) of None \<Rightarrow> (t, None)
      | Some (es, i) \<Rightarrow> (t\<lparr>gic_if := es\<rparr>, Some i)) = (s', Some i)"
    by (simp only: gic_if_slot_def t_def Let_def)
  then obtain es where es: "claim_key GIC_IF_CAP e (gic_if t) = Some (es, i)" "s' = t\<lparr>gic_if := es\<rparr>"
    by (auto split: option.splits prod.splits)
  show ?thesis
  proof (rule that [of t])
    show "gic_if_ready t" by (simp add: t_def)
  qed (use es in simp_all)
qed

lemma gic_if_slot_again:
  assumes "gic_if_slot s e = (s', Some i)"
  shows "gic_if_ready s'" and "i < length (gic_if s')"
    and "gic_if_slot (s'\<lparr>gic_if := slot_put (gic_if s') i v, ctx := m\<rparr>) e
      = (s'\<lparr>gic_if := slot_put (gic_if s') i v, ctx := m\<rparr>, Some i)"
proof -
  from assms obtain t where t: "gic_if_ready t"
    "claim_key GIC_IF_CAP e (gic_if t) = Some (gic_if s', i)" "s' = t\<lparr>gic_if := gic_if s'\<rparr>"
    by (rule gic_if_slot_claims)
  show r: "gic_if_ready s'" by (subst t(3)) (simp add: t(1))
  show "i < length (gic_if s')" by (rule claim_key_Some(2) [OF t(2)])
  show "gic_if_slot (s'\<lparr>gic_if := slot_put (gic_if s') i v, ctx := m\<rparr>) e
      = (s'\<lparr>gic_if := slot_put (gic_if s') i v, ctx := m\<rparr>, Some i)"
    by (simp add: gic_if_slot_def r claim_key_again [OF t(2)])
qed

lemma next_insn_ctx: "next_insn s = s\<lparr>ctx := ctx (next_insn s)\<rparr>"
  by (simp add: next_insn_def ctx_wr_def)

lemma next_insn_sel [simp]:
  "gl2_bank (next_insn s) = gl2_bank s" "vm_tmr_fiq_ena (next_insn s) = vm_tmr_fiq_ena s"
  "ctrr (next_insn s) = ctrr s" "ctx_trace (next_insn s) = ctx_trace s"
  "apple_shadow (next_insn s) = apple_shadow s" "gic_if (next_insn s) = gic_if s"
  "gic_if_ready (next_insn s) = gic_if_ready s" "el2_shadow (next_insn s) = el2_shadow s"
  "guest_at_el2 (next_insn s) = guest_at_el2 s"
  by (simp_all add: next_insn_def ctx_wr_def)

lemma ctx_rd_next: "OHV_RW_PC + 8 \<le> off \<Longrightarrow> ctx_rd (next_insn s) off = ctx_rd s off"
  by (simp add: next_insn_def)

text \<open>What each block does on a write that it answers, and what the matching read gives.\<close>

lemma gic_if_roundtrip:
  assumes "nv2_gic_if a st s = (True, st1, s1)" and "\<not> a_read a" and "r \<le> 30"
  shows "\<exists>s2. nv2_gic_if (as_read r a) st' s1 = (True, st', s2)
    \<and> ctx_rd s2 (off_x r) = src_reg (a_rt a) s"
proof -
  let ?e = "ucast (sys_enc a) :: u16"
  from assms(1) obtain t i where g: "gic_if_slot s ?e = (t, Some i)"
    by (auto simp: nv2_gic_if_def split: prod.splits option.splits)
  let ?v = "src_reg (a_rt a) t"
  have s1: "s1 = next_insn (t\<lparr>gic_if := slot_put (gic_if t) i ?v\<rparr>)"
    using assms(1,2) g by (simp add: nv2_gic_if_def done_access_def)
  then have s1': "s1 = t\<lparr>gic_if := slot_put (gic_if t) i ?v, ctx := ctx s1\<rparr>"
    by (subst s1, subst next_insn_ctx) (simp add: s1)
  have again: "gic_if_slot s1 ?e = (s1, Some i)"
    by (subst (1 2) s1') (rule gic_if_slot_again(3) [OF g])
  have val: "slot_val (gic_if s1) i = ?v"
    using gic_if_slot_again(2) [OF g] by (simp add: s1 slot_val_slot_put)
  have "?v = src_reg (a_rt a) s" using gic_if_slot_frame [OF g] by (simp add: src_reg_def)
  with again val assms(3) show ?thesis
    by (simp add: nv2_gic_if_def done_access_def gpr_moves)
qed

lemma claim_roundtrip:
  assumes "claim_key cap k es = Some (fs, i)"
  shows "claim_key cap k (slot_put fs i v) = Some (slot_put fs i v, i)"
    and "slot_val (slot_put fs i v) i = v"
  using claim_key_again [OF assms] claim_key_Some(2) [OF assms] by (simp_all add: slot_val_slot_put)

text \<open>The blocks with a table or a bounded array behind them.\<close>

lemma el2_reg_roundtrip:
  assumes "nv2_el2_reg a st s = (True, st1, s1)" "\<not> a_read a" "nv2_block_of a = El2_reg" "r \<le> 30"
  shows "\<exists>s2. nv2_service w' (as_read r a) st1 s1 = (True, st1, s2) \<and> ctx_rd s2 (off_x r) = src_reg (a_rt a) s"
proof -
  obtain e where e: "nv2_lookup (sys_enc a) = Some e" and op: "a_op1 a = 4" "a_op0 a = 3"
    using assms(1) by (auto simp: nv2_el2_reg_def split: option.splits if_splits)
  have s1: "ctx_rd s1 (ctx_off e) = src_reg (a_rt a) s"
    using assms(1,2) e op nv2_lookup_offset [OF e]
    by (auto simp: nv2_el2_reg_def done_access_def Let_def ctx_rd_next layout split: if_splits)
  from block_of_as_read_el2 [OF assms(3) op(1) assms(2)] e op s1 assms(4) show ?thesis
    by (simp add: nv2_service_def nv2_el2_reg_def done_access_def gpr_moves)
qed

lemma ctrr_roundtrip:
  assumes "nv2_ctrr a st s = (True, st1, s1)" "\<not> a_read a" "nv2_block_of a = Ctrr" "r \<le> 30"
  shows "\<exists>s2. nv2_service w' (as_read r a) st1 s1 = (True, st1, s2) \<and> ctx_rd s2 (off_x r) = src_reg (a_rt a) s"
proof -
  obtain es i where c: "claim_key CTRR_CAP (ctrr_slot a) (ctrr s) = Some (es, i)"
    using assms(1) by (auto simp: nv2_ctrr_def split: option.splits)
  with assms(1,2) have "s1 = next_insn (s\<lparr>ctrr := slot_put es i (src_reg (a_rt a) s)\<rparr>)"
    by (simp add: nv2_ctrr_def done_access_def Let_def)
  with claim_roundtrip [OF c] block_of_as_read [OF assms(2), of r] assms(3,4) show ?thesis
    by (simp add: nv2_service_def nv2_ctrr_def done_access_def Let_def gpr_moves)
qed

lemma impdef_roundtrip:
  assumes "nv2_impdef w a st s = (True, st1, s1)" "\<not> a_read a" "nv2_block_of a = Impdef" "keeps_value a" "r \<le> 30"
  shows "\<exists>s2. nv2_service w' (as_read r a) st1 s1 = (True, st1, s2) \<and> ctx_rd s2 (off_x r) = src_reg (a_rt a) s"
proof -
  have i: "\<not> (a_op1 a = 4 \<and> a_crm a = 10 \<and> (a_op2 a = 5 \<or> a_op2 a = 6))"
    using assms(3,4) by (simp add: keeps_value_def)
  with assms(1) obtain es k where
    c: "claim_key APPLE_SHADOW_CAP (sys_enc a) (apple_shadow s) = Some (es, k)" and crn: "a_crn a = 15"
    by (auto simp: nv2_impdef_def split: option.splits if_splits)
  with assms(1,2) i have "s1 = next_insn (s\<lparr>apple_shadow := slot_put es k (src_reg (a_rt a) s)\<rparr>)"
    by (auto simp: nv2_impdef_def done_access_def Let_def)
  with claim_roundtrip [OF c] block_of_as_read [OF assms(2), of r] assms(3,5) i crn show ?thesis
    by (auto simp: nv2_service_def nv2_impdef_def done_access_def Let_def gpr_moves)
qed

text \<open>C8: Registers this side keeps hold what the guest puts in them: for every
  encoding of the guarded, interrupt-interface, timer-enable, thread-switch, read-only-region,
  implementation-defined, cache-selection and EL2 groups, a write that is answered stores the
  source register's value (zero for register 31), and any later read of the same encoding into
  a general register gives exactly it.\<close>

theorem write_then_read:
  assumes "nv2_service w a st s = (True, st1, s1)" and "\<not> a_read a" and "keeps_value a"
    and "r \<le> 30"
  shows "\<exists>st2 s2. nv2_service w' (as_read r a) st1 s1 = (True, st2, s2)
    \<and> ctx_rd s2 (off_x r) = src_reg (a_rt a) s"
proof (cases "nv2_block_of a")
  case El2_reg
  with assms(1) have "nv2_el2_reg a st s = (True, st1, s1)" by (simp add: nv2_service_def)
  from el2_reg_roundtrip [OF this assms(2) El2_reg assms(4)] show ?thesis by blast
next
  case Gic_if
  with assms(1) have "nv2_gic_if a st s = (True, st1, s1)" by (simp add: nv2_service_def)
  from gic_if_roundtrip [OF this assms(2,4), of st1] block_of_as_read [OF assms(2), of r] Gic_if
  show ?thesis by (auto simp: nv2_service_def)
next
  case Ctrr
  with assms(1) have "nv2_ctrr a st s = (True, st1, s1)" by (simp add: nv2_service_def)
  from ctrr_roundtrip [OF this assms(2) Ctrr assms(4)] show ?thesis by blast
next
  case Impdef
  with assms(1) have "nv2_impdef w a st s = (True, st1, s1)" by (simp add: nv2_service_def)
  from impdef_roundtrip [OF this assms(2) Impdef assms(3,4)] show ?thesis by blast
next
  case Gxf
  with assms show ?thesis
    using block_of_as_read [OF assms(2), of r]
    by (auto simp: nv2_service_def nv2_gxf_def done_access_def Let_def gpr_moves ctx_rd_next layout)
next
  case Cache_id
  with assms show ?thesis
    using block_of_as_read [OF assms(2), of r]
    by (auto simp: nv2_service_def nv2_cache_id_def keeps_value_def done_access_def Let_def
        gpr_moves ctx_rd_next layout)
qed (use assms block_of_as_read [OF assms(2), of r] in
    \<open>auto simp: keeps_value_def nv2_service_def nv2_pstate_field_def nv2_gl2_def nv2_tmr_ena_def
      nv2_ctx_trace_def done_access_def Let_def gpr_moves\<close>)

text \<open>The witness: the monitor sets TPIDR_GL2 from X3 and reads it back into X4.\<close>

definition set_tpidr_gl2 :: sys_access where
  "set_tpidr_gl2 = \<lparr>a_op0 = 3, a_op1 = 6, a_crn = 15, a_crm = 11, a_op2 = 1, a_rt = 3, a_read = False\<rparr>"

theorem write_then_read_witness:
  "\<exists>s1 s2. nv2_service test_world set_tpidr_gl2 initial_statics (ctx_wr (off_x 3) 0xfeed new_VcpuSlot)
       = (True, initial_statics, s1)
     \<and> nv2_service test_world (as_read 4 set_tpidr_gl2) initial_statics s1 = (True, initial_statics, s2)
     \<and> ctx_rd s2 (off_x 4) = 0xfeed"
proof -
  let ?s = "ctx_wr (off_x 3) 0xfeed new_VcpuSlot"
  have b: "nv2_block_of set_tpidr_gl2 = Gl2" "nv2_block_of (as_read 4 set_tpidr_gl2) = Gl2"
    by (simp_all add: set_tpidr_gl2_def as_read_def nv2_block_of_def is_op_def is_gic_interface_reg_def)
  obtain s1 where s1: "nv2_service test_world set_tpidr_gl2 initial_statics ?s
      = (True, initial_statics, s1)"
    by (simp add: nv2_service_def b nv2_gl2_def done_access_def) (simp add: set_tpidr_gl2_def done_access_def)
  have "\<exists>st2 s2. nv2_service test_world (as_read 4 set_tpidr_gl2) initial_statics s1 = (True, st2, s2)
       \<and> ctx_rd s2 (off_x 4) = src_reg (a_rt set_tpidr_gl2) ?s"
    by (rule write_then_read [OF s1]) (simp_all add: keeps_value_def b, simp add: set_tpidr_gl2_def)
  then obtain st2 s2 where
    r: "nv2_service test_world (as_read 4 set_tpidr_gl2) initial_statics s1 = (True, st2, s2)"
       "ctx_rd s2 (off_x 4) = src_reg (a_rt set_tpidr_gl2) ?s" by blast
  moreover have "st2 = initial_statics"
    using r(1) by (simp add: nv2_service_def b nv2_gl2_def done_access_def)
  ultimately show ?thesis using s1 by (auto simp: src_reg_def set_tpidr_gl2_def)
qed

section \<open>The EL2 registers\<close>

text \<open>Where a guest hypervisor's EL2 registers live: twelve of them are the EL1
  register of the same name (CPTR_EL2 being CPACR_EL1), the other twelve have a word of the
  VNCR page each, at the offsets the header names for the ones it measured; no two share a
  word.\<close>

theorem el2_register_homes:
  "map (\<lambda>r. (nv2_enc r, ctx_off r)) (filter banked kNv2Regs) =
     [(0xe080, bk_sctlr_el1), (0xe08a, bk_cpacr_el1), (0xe100, bk_ttbr0_el1),
      (0xe101, bk_ttbr1_el1), (0xe102, bk_tcr_el1), (0xe510, bk_mair_el1),
      (0xe518, bk_amair_el1), (0xe681, bk_contextidr_el1), (0xe200, bk_spsr_el1),
      (0xe201, bk_elr_el1), (0xe300, bk_far_el1), (0xe290, bk_esr_el1)]
   \<and> map (\<lambda>r. (nv2_enc r, ctx_off r)) (filter (\<lambda>r. \<not> banked r) kNv2Regs) =
     [(0xe000, OHV_VNCR_BASE + 0x88), (0xe005, OHV_VNCR_BASE + 0x50), (0xe088, OHV_NESTED_HCR_EL2),
      (0xe089, OHV_VNCR_BASE + 0x130), (0xe08b, OHV_VNCR_BASE + 0x80),
      (0xe108, OHV_NESTED_VTTBR_EL2), (0xe10a, OHV_NESTED_VTCR_EL2),
      (0xe304, OHV_VNCR_BASE + 0x1f8), (0xe682, OHV_NESTED_TPIDR_EL2),
      (0xe703, OHV_NESTED_CNTVOFF_EL2), (0xe708, OHV_VNCR_BASE + 0xe0),
      (0xe600, OHV_VNCR_BASE + 0x250)]
   \<and> distinct (map ctx_off kNv2Regs) \<and> distinct (map nv2_enc kNv2Regs)"
  by (simp add: kNv2Regs_def BANKED_def VNCR_def layout)

section \<open>The timers\<close>

lemma ctx_rd_dst_reg: "rt \<le> 31 \<Longrightarrow> 0x100 \<le> off \<Longrightarrow> ctx_rd (dst_reg rt v s) off = ctx_rd s off"
  by (auto simp: dst_reg_def off_x_def layout)

lemma ctx_moves_keep [simp]:
  "el2_shadow (ctx_wr off v s) = el2_shadow s" "el2_shadow (ctx_dirty b s) = el2_shadow s"
  "el2_shadow (dst_reg rt v s) = el2_shadow s"
  by (simp_all add: ctx_wr_def ctx_dirty_def dst_reg_def)

lemma timer_cval_frame:
  "timer_cval_off p = 0x400 \<or> timer_cval_off p = 0x408"
  by (simp add: timer_cval_off_def layout)

text \<open>A timer access: the timer and which of its three registers.\<close>

definition timer_access :: "bool \<Rightarrow> nat \<Rightarrow> nat \<Rightarrow> bool \<Rightarrow> sys_access" where
  "timer_access physical op2 rt rd =
     \<lparr>a_op0 = 3, a_op1 = 3, a_crn = 14, a_crm = (if physical then 2 else 3), a_op2 = op2,
      a_rt = rt, a_read = rd\<rparr>"

lemma timer_access_block: "nv2_block_of (timer_access p op2 rt rd) = Timer"
  by (simp add: nv2_block_of_def timer_access_def is_op_def)

lemma timer_access_sel [simp]:
  "a_op2 (timer_access p op2 rt rd) = op2" "a_rt (timer_access p op2 rt rd) = rt"
  "a_read (timer_access p op2 rt rd) = rd" "a_crm (timer_access p op2 rt rd) = 2 \<longleftrightarrow> p"
  by (simp_all add: timer_access_def)

lemma timer_service:
  "nv2_service w (timer_access p op2 rt rd) st s = nv2_timer w (timer_access p op2 rt rd) st s"
  by (simp add: nv2_service_def timer_access_block)

lemmas timer_simps = timer_service nv2_timer_def done_access_def Let_def

text \<open>The guest's view of a compare value: distances to its own clock.\<close>

definition timer_compare :: "bool \<Rightarrow> VcpuSlot \<Rightarrow> u64" where
  "timer_compare p s = ctx_rd s (timer_cval_off p)"

lemma timer_write_cval:
  assumes "nv2_service w (timer_access p 2 rt False) st s = (ok, st1, s1)" and "rt \<le> 31"
  shows "ok \<and> timer_compare p s1 = src_reg rt s + ctx_rd s ctl_virtual_timer_offset
    \<and> ctx_rd s1 ctl_virtual_timer_offset = ctx_rd s ctl_virtual_timer_offset"
  using assms timer_cval_frame [of p]
  by (auto simp: timer_simps timer_compare_def timer_cval_off_def ctx_rd_next src_reg_def off_x_def
      layout split: if_splits)

lemma timer_write_tval:
  assumes "nv2_service w (timer_access p 0 rt False) st s = (ok, st1, s1)" and "rt \<le> 31"
  shows "ok \<and> timer_compare p s1 = w_now w + sext32 (src_reg rt s)
    \<and> ctx_rd s1 ctl_virtual_timer_offset = ctx_rd s ctl_virtual_timer_offset"
  using assms
  by (auto simp: timer_simps timer_compare_def timer_cval_off_def ctx_rd_next src_reg_def off_x_def
      layout split: if_splits)

lemma timer_read:
  assumes "r \<le> 30"
  shows "\<exists>s2. nv2_service w (timer_access p 0 r True) st s = (True, st, s2)
           \<and> ctx_rd s2 (off_x r) = timer_compare p s - w_now w"
    and "\<exists>s2. nv2_service w (timer_access p 2 r True) st s = (True, st, s2)
           \<and> ctx_rd s2 (off_x r) = timer_compare p s - ctx_rd s ctl_virtual_timer_offset"
  using assms
  by (auto simp: timer_simps timer_compare_def timer_cval_off_def gpr_moves layout)

text \<open>C9: The timers keep the guest's clock: a compare value written through CVAL is
  read back unchanged, and TVAL reads as its distance from the guest's counter (the host's
  count less the offset); a value written through TVAL has counted down by exactly the time
  passed when it is read again, and reads through CVAL as the guest's time plus that distance.\<close>

theorem timer_registers:
  assumes "nv2_service w (timer_access p op2 rt False) st s = (ok, st1, s1)"
    and "op2 = 0 \<or> op2 = 2" and "rt \<le> 31" and "r \<le> 30"
  defines "off \<equiv> ctx_rd s ctl_virtual_timer_offset"
  defines "cval \<equiv> (if op2 = 2 then src_reg rt s else (w_now w - off) + sext32 (src_reg rt s))"
  shows "ok
     \<and> (\<exists>s2. nv2_service w' (timer_access p 2 r True) st1 s1 = (True, st1, s2)
           \<and> ctx_rd s2 (off_x r) = cval)
     \<and> (\<exists>s2. nv2_service w' (timer_access p 0 r True) st1 s1 = (True, st1, s2)
           \<and> ctx_rd s2 (off_x r) = cval - (w_now w' - off))"
proof -
  have "ok \<and> timer_compare p s1 = cval + off \<and> ctx_rd s1 ctl_virtual_timer_offset = off"
  proof (cases "op2 = 2")
    case True
    with timer_write_cval [of w p rt st s ok st1 s1] assms(1,3) show ?thesis
      by (simp add: off_def cval_def)
  next
    case False
    with assms(2) have "op2 = 0" by simp
    with timer_write_tval [of w p rt st s ok st1 s1] assms(1,3) show ?thesis
      by (simp add: off_def cval_def)
  qed
  then have ok: "ok" and c: "timer_compare p s1 = cval + off"
    and o': "ctx_rd s1 ctl_virtual_timer_offset = off" by simp_all
  from timer_read(2) [OF assms(4), of w' p st1 s1] timer_read(1) [OF assms(4), of w' p st1 s1]
  have r2: "\<exists>s2. nv2_service w' (timer_access p 2 r True) st1 s1 = (True, st1, s2)
        \<and> ctx_rd s2 (off_x r) = cval + off - off"
    and r0: "\<exists>s2. nv2_service w' (timer_access p 0 r True) st1 s1 = (True, st1, s2)
        \<and> ctx_rd s2 (off_x r) = cval + off - w_now w'"
    unfolding c o' .
  have e: "cval + off - off = cval" "cval + off - w_now w' = cval - (w_now w' - off)" by simp_all
  show ?thesis using ok r2 r0 unfolding e by blast
qed

theorem timer_registers_witness:
  "\<exists>s1 s2. nv2_service test_world (timer_access True 0 3 False) initial_statics
        (ctx_wr (off_x 3) 500 new_VcpuSlot) = (True, initial_statics, s1)
     \<and> nv2_service (test_world\<lparr>w_now := 1200\<rparr>) (timer_access True 0 4 True) initial_statics s1
        = (True, initial_statics, s2)
     \<and> ctx_rd s2 (off_x 4) = 300"
proof -
  let ?s = "ctx_wr (off_x 3) 500 new_VcpuSlot"
  obtain s1 where s1: "nv2_service test_world (timer_access True 0 3 False) initial_statics ?s
      = (True, initial_statics, s1)"
    by (simp add: timer_simps)
  have "ctx_rd ?s ctl_virtual_timer_offset = 0"
    by (simp add: off_x_def layout) (simp add: ctx_rd_def new_VcpuSlot_def)
  moreover have "src_reg 3 ?s = 500" "sext32 500 = 500" "w_now test_world = 1000"
    by (simp_all add: src_reg_def sext32_def test_world_def)
  ultimately show ?thesis
    using timer_registers [OF s1, of 4 "test_world\<lparr>w_now := 1200\<rparr>"] s1 by auto
qed

text \<open>C24: The hardware's physical timer is never armed by the guest: after any access
  to one of the physical timer's registers, answered or not, the control slot the kernel loads
  the hardware from is zero, and the guest's control word is in the shadow.\<close>

theorem physical_timer_never_armed:
  assumes "nv2_service w (timer_access True op2 rt rd) st s = (ok, st1, s1)" and "rt \<le> 31"
  shows "ctx_rd s1 bk_cntp_ctl_el0 = 0
     \<and> (op2 = 1 \<and> \<not> rd \<longrightarrow> el2_shadow s1 OHV_SHADOW_CNTP_CTL = src_reg rt s)"
proof -
  show ?thesis
    using assms
    by (auto simp: timer_simps timer_cval_off_def set_timer_ctl_def ctx_rd_next ctx_rd_dst_reg
        src_reg_def off_x_def layout split: if_splits)
qed

theorem physical_timer_never_armed_witness:
  "\<exists>s1. nv2_service test_world (timer_access True 1 3 False) initial_statics
        (ctx_wr (off_x 3) 1 new_VcpuSlot) = (True, initial_statics, s1)
     \<and> ctx_rd s1 bk_cntp_ctl_el0 = 0 \<and> el2_shadow s1 30 = 1"
proof -
  let ?s = "ctx_wr (off_x 3) 1 new_VcpuSlot"
  obtain s1 where s1: "nv2_service test_world (timer_access True 1 3 False) initial_statics ?s
      = (True, initial_statics, s1)"
    by (simp add: timer_simps)
  from physical_timer_never_armed [OF s1] s1 show ?thesis by (simp add: src_reg_def layout)
qed

section \<open>Translation: the walk against the architecture's tree of tables\<close>

text \<open>What one table entry says about an address, and the tree of tables read as a relation: a
  block or page entry maps the address, a table entry hands it to the next table.\<close>

definition walk_shift :: "nat \<Rightarrow> nat \<Rightarrow> nat" where
  "walk_shift page_bits rest = page_bits + rest * (page_bits - 3)"

definition walk_index :: "nat \<Rightarrow> nat \<Rightarrow> u64 \<Rightarrow> nat \<Rightarrow> u64" where
  "walk_index page_bits va_bits va rest =
     (let sh = walk_shift page_bits rest in drop_bit sh va AND
        low_bits (if va_bits < sh + (page_bits - 3) then va_bits - sh else page_bits - 3))"

definition oa_mask :: u64 where [masks]: "oa_mask = 0x0000fffffffff000"

inductive maps_page :: "world \<Rightarrow> nat \<Rightarrow> nat \<Rightarrow> u64 \<Rightarrow> u64 \<Rightarrow> nat \<Rightarrow> u64 \<Rightarrow> bool"
  for w page_bits va_bits va
where
  leaf: "guest_rd64 w (table + walk_index page_bits va_bits va rest * 8) = Some d \<Longrightarrow>
     d AND 1 \<noteq> 0 \<Longrightarrow> d AND 3 = 1 \<or> rest = 0 \<Longrightarrow>
     maps_page w page_bits va_bits va table rest
       (((d AND oa_mask) AND NOT (low_bits (walk_shift page_bits rest)))
        OR (va AND low_bits (walk_shift page_bits rest) AND oa_mask))"
| next_level: "guest_rd64 w (table + walk_index page_bits va_bits va (Suc r) * 8) = Some d \<Longrightarrow>
     d AND 1 \<noteq> 0 \<Longrightarrow> d AND 3 \<noteq> 1 \<Longrightarrow>
     maps_page w page_bits va_bits va ((d AND oa_mask) AND NOT (low_bits page_bits)) r pa \<Longrightarrow>
     maps_page w page_bits va_bits va table (Suc r) pa"

inductive_cases maps_pageE: "maps_page w pb vb va table rest pa"

lemma stage1_walk_unfold:
  "stage1_walk w pb vb va table rest =
     (case guest_rd64 w (table + walk_index pb vb va rest * 8) of
        None \<Rightarrow> OHV_PAR_FAULT
      | Some d \<Rightarrow>
          if d AND 1 = 0 then OHV_PAR_FAULT
          else if d AND 3 = 1 \<or> rest = 0
          then ((d AND oa_mask) AND NOT (low_bits (walk_shift pb rest)))
               OR (va AND low_bits (walk_shift pb rest) AND oa_mask)
          else stage1_walk w pb vb va ((d AND oa_mask) AND NOT (low_bits pb)) (rest - 1))"
  by (cases rest; subst stage1_walk.simps;
      simp only: walk_index_def walk_shift_def oa_mask_def Let_def nat.case diff_Suc_1 simp_thms
        nat.distinct if_True not_False_eq_True)

lemma not_fault:
  "(x AND oa_mask AND y) OR (z AND oa_mask) \<noteq> OHV_PAR_FAULT"
proof
  assume "(x AND oa_mask AND y) OR (z AND oa_mask) = OHV_PAR_FAULT"
  then have "bit ((x AND oa_mask AND y) OR (z AND oa_mask)) 0 = bit OHV_PAR_FAULT 0" by simp
  then show False by (simp add: bit_simps masks)
qed

lemma leaf_not_fault:
  "((d AND oa_mask) AND NOT (low_bits n)) OR (va AND low_bits n AND oa_mask) \<noteq> OHV_PAR_FAULT"
  using not_fault [of d "NOT (low_bits n)" "va AND low_bits n"] by (simp only: and.assoc not_False_eq_True)

lemma maps_page_not_fault: "maps_page w pb vb va table rest pa \<Longrightarrow> pa \<noteq> OHV_PAR_FAULT"
  by (induction rule: maps_page.induct) (simp_all add: leaf_not_fault)

lemma maps_page_aligned: "maps_page w pb vb va table rest pa \<Longrightarrow> pa AND oa_mask = pa"
  by (induction rule: maps_page.induct)
     (auto intro!: bit_eqI simp: bit_simps)

lemma stage1_walk_iff:
  "stage1_walk w pb vb va table rest = pa \<and> pa \<noteq> OHV_PAR_FAULT
     \<longleftrightarrow> maps_page w pb vb va table rest pa"
proof
  assume "stage1_walk w pb vb va table rest = pa \<and> pa \<noteq> OHV_PAR_FAULT"
  then show "maps_page w pb vb va table rest pa"
  proof (induction rest arbitrary: table)
    case 0
    then show ?case
      by (subst (asm) stage1_walk_unfold) (auto split: option.splits if_splits intro: maps_page.leaf)
  next
    case (Suc r)
    from Suc.prems Suc.IH show ?case
      by (subst (asm) stage1_walk_unfold)
         (auto split: option.splits if_splits intro: maps_page.leaf maps_page.next_level)
  qed
next
  assume "maps_page w pb vb va table rest pa"
  then show "stage1_walk w pb vb va table rest = pa \<and> pa \<noteq> OHV_PAR_FAULT"
  proof induction
    case (leaf table rest d)
    then show ?case by (subst stage1_walk_unfold) (auto simp: leaf_not_fault)
  next
    case (next_level table r d pa)
    then show ?case by (subst stage1_walk_unfold) auto
  qed
qed

text \<open>Which tree the control registers name for an address.\<close>

definition walk_root :: "VcpuSlot \<Rightarrow> u64 \<Rightarrow> (nat \<times> nat \<times> u64) option" where
  "walk_root s va =
     (let tcr = ctx_rd s bk_tcr_el1; upper = bit va 63;
          va_bits = 64 - (if upper then bits_of tcr 16 0x3f else bits_of tcr 0 0x3f);
          ttbr = (if upper then ctx_rd s bk_ttbr1_el1 else ctx_rd s bk_ttbr0_el1)
      in case tg_page_bits upper (if upper then bits_of tcr 30 3 else bits_of tcr 14 3) of
           Some page_bits \<Rightarrow>
             if page_bits \<le> va_bits \<and> va_bits \<le> 52
             then Some (page_bits, va_bits, ttbr AND 0x0000fffffffffffe AND NOT (low_bits page_bits))
             else None
         | None \<Rightarrow> None)"

lemma drop_63: "drop_bit 63 (va :: u64) \<noteq> 0 \<longleftrightarrow> bit va 63"
proof
  assume "drop_bit 63 va \<noteq> 0"
  then obtain n where "bit (drop_bit 63 va) n" by (auto simp: bit_eq_iff)
  then have "bit va (63 + n)" by (simp add: bit_simps)
  moreover from bit_imp_le_length [OF this] have "n = 0" by simp
  ultimately show "bit va 63" by simp
next
  assume "bit va 63"
  then have "bit (drop_bit 63 va) 0" by (simp add: bit_simps)
  then show "drop_bit 63 va \<noteq> 0" by auto
qed


end
