(* ===== verification/Ohv_Bank.thy ===== *)
theory Ohv_Bank
  imports Ohv_Prelude
begin

text \<open>
  The interface of a register bank: what a caller of the \<open>get\<close>/\<open>set\<close> pairs of this library
  relies on.  Several parts provide one -- the general registers, the control fields, the
  interrupt controller's registers -- and the C++ layer of \<open>include/openhyp/openhyp.hpp\<close> is the
  client: its batches and its snapshot and restore are written against it, with an exception
  thrown at the first refusal, which is a return code here.
\<close>

section \<open>Batches, as the client runs them\<close>

text \<open>\<open>set_regs\<close>/\<open>set_sys_regs\<close>: one write after the other, leaving at the first refusal what
  the writes before it did.\<close>

fun batch_set :: "('r \<Rightarrow> 'v \<Rightarrow> 's \<Rightarrow> hv_return \<times> 's) \<Rightarrow> ('r \<times> 'v) list \<Rightarrow> 's \<Rightarrow> hv_return \<times> 's" where
  "batch_set rset [] s = (HV_SUCCESS, s)"
| "batch_set rset ((r, v) # b) s =
     (case rset r v s of
        (e, s') \<Rightarrow> if e = HV_SUCCESS then batch_set rset b s' else (e, s'))"

text \<open>\<open>get_regs\<close>: every value, or the first refusal.\<close>

fun batch_get :: "('r \<Rightarrow> 's \<Rightarrow> hv_return \<times> 'v option) \<Rightarrow> 'r list \<Rightarrow> 's \<Rightarrow> hv_return + 'v list" where
  "batch_get rget [] s = Inr []"
| "batch_get rget (r # rs) s =
     (case rget r s of
        (e, Some v) \<Rightarrow>
          if e \<noteq> HV_SUCCESS then Inl e
          else (case batch_get rget rs s of Inl e' \<Rightarrow> Inl e' | Inr vs \<Rightarrow> Inr (v # vs))
      | (e, None) \<Rightarrow> Inl e)"

section \<open>The contract\<close>

text \<open>\<open>keeps r v\<close> is what register \<open>r\<close> makes of a value written to it.\<close>

locale register_bank =
  fixes rget :: "'r \<Rightarrow> 's \<Rightarrow> hv_return \<times> 'v option"
    and rset :: "'r \<Rightarrow> 'v \<Rightarrow> 's \<Rightarrow> hv_return \<times> 's"
    and keeps :: "'r \<Rightarrow> 'v \<Rightarrow> 'v"
  assumes set_get: "rset r v s = (HV_SUCCESS, s') \<Longrightarrow> rget r s' = (HV_SUCCESS, Some (keeps r v))"
    and set_other: "rset r v s = (e, s') \<Longrightarrow> q \<noteq> r \<Longrightarrow> rget q s' = rget q s"
    and refused: "rset r v s = (e, s') \<Longrightarrow> e \<noteq> HV_SUCCESS \<Longrightarrow> s' = s"
    and get_set: "rget r s = (HV_SUCCESS, Some v) \<Longrightarrow> fst (rset r u t) = HV_SUCCESS"
begin

lemma batch_set_other:
  "batch_set rset b s = (e, s') \<Longrightarrow> q \<notin> fst ` set b \<Longrightarrow> rget q s' = rget q s"
proof (induction b arbitrary: s)
  case (Cons p b)
  obtain r v where p: "p = (r, v)" by force
  obtain f s1 where s1: "rset r v s = (f, s1)" by force
  from Cons.prems p have q: "q \<noteq> r" "q \<notin> fst ` set b" by auto
  have k: "rget q s1 = rget q s" by (rule set_other [OF s1 q(1)])
  show ?case
  proof (cases "f = HV_SUCCESS")
    case True
    with Cons.prems(1) p s1 have "batch_set rset b s1 = (e, s')" by simp
    with Cons.IH q(2) k show ?thesis by simp
  qed (use Cons.prems(1) p s1 k in simp)
qed simp

lemma batch_set_gives:
  "batch_set rset b s = (HV_SUCCESS, s') \<Longrightarrow> distinct (map fst b) \<Longrightarrow> (r, v) \<in> set b
     \<Longrightarrow> rget r s' = (HV_SUCCESS, Some (keeps r v))"
proof (induction b arbitrary: s)
  case (Cons p b)
  obtain q u where p: "p = (q, u)" by force
  obtain f s1 where s1: "rset q u s = (f, s1)" by force
  with Cons.prems(1) p have f: "f = HV_SUCCESS" and b: "batch_set rset b s1 = (HV_SUCCESS, s')"
    by (auto split: if_splits)
  show ?case
  proof (cases "(r, v) = (q, u)")
    case True
    with Cons.prems(2) p have "r \<notin> fst ` set b" by auto
    with batch_set_other [OF b] set_get [of q u s s1] s1 f True show ?thesis by simp
  next
    case False
    with Cons.prems(3) p have "(r, v) \<in> set b" by auto
    with Cons.IH [OF b] Cons.prems(2) show ?thesis by simp
  qed
qed simp

lemma batch_get_Inr:
  "batch_get rget rs s = Inr vs \<longleftrightarrow> map (\<lambda>r. rget r s) rs = map (\<lambda>v. (HV_SUCCESS, Some v)) vs"
proof (induction rs arbitrary: vs)
  case (Cons r rs)
  obtain e ov where g: "rget r s = (e, ov)" by force
  show ?case
  proof (cases ov)
    case (Some v)
    show ?thesis
    proof (cases "batch_get rget rs s")
      case (Inr us)
      with Cons.IH [of us] have "map (\<lambda>r. rget r s) rs = map (\<lambda>v. (HV_SUCCESS, Some v)) us" by simp
      with Inr g Some show ?thesis
        by (cases vs) (auto simp: inj_map_eq_map inj_on_def)
    next
      case (Inl f)
      then have "map (\<lambda>r. rget r s) rs \<noteq> map (\<lambda>v. (HV_SUCCESS, Some v)) us" for us
        using Cons.IH [of us] by simp
      with Inl g Some show ?thesis by (cases vs) auto
    qed
  qed (use g in \<open>auto simp: Cons_eq_map_conv\<close>)
qed (auto split: option.splits)

text \<open>A batch over registers that can be read is never refused.\<close>

lemma batch_set_accepted:
  "(\<And>r v. (r, v) \<in> set b \<Longrightarrow> \<exists>t u. rget r t = (HV_SUCCESS, Some u)) \<Longrightarrow>
     \<exists>s'. batch_set rset b s = (HV_SUCCESS, s')"
proof (induction b arbitrary: s)
  case (Cons p b)
  obtain r v where p: "p = (r, v)" by force
  obtain t u where "rget r t = (HV_SUCCESS, Some u)" using Cons.prems [of r v] p by auto
  from get_set [OF this, of v s] obtain s1 where s1: "rset r v s = (HV_SUCCESS, s1)"
    by (cases "rset r v s") simp
  have "\<exists>s'. batch_set rset b s1 = (HV_SUCCESS, s')"
  proof (rule Cons.IH)
    fix r' v' assume "(r', v') \<in> set b"
    then show "\<exists>t u. rget r' t = (HV_SUCCESS, Some u)" using Cons.prems [of r' v'] by simp
  qed
  with s1 p show ?case by simp
qed simp

text \<open>Restoring a snapshot: on any later state, every register of the snapshot reads as it did
  when the snapshot was taken, as long as it keeps what it read as.\<close>

theorem snapshot_restore:
  assumes snap: "batch_get rget rs s = Inr vs" and d: "distinct rs"
    and kept: "\<And>r v. r \<in> set rs \<Longrightarrow> rget r s = (HV_SUCCESS, Some v) \<Longrightarrow> keeps r v = v"
  shows "\<exists>t'. batch_set rset (zip rs vs) t = (HV_SUCCESS, t') \<and> (\<forall>r \<in> set rs. rget r t' = rget r s)"
proof -
  from snap have m: "map (\<lambda>r. rget r s) rs = map (\<lambda>v. (HV_SUCCESS, Some v)) vs"
    by (simp add: batch_get_Inr)
  then have l: "length rs = length vs" by (metis length_map)
  have at: "rget (rs ! i) s = (HV_SUCCESS, Some (vs ! i))" if "i < length rs" for i
    using arg_cong [OF m, of "\<lambda>xs. xs ! i"] that l by simp
  have "\<exists>t u. rget r t = (HV_SUCCESS, Some u)" if "(r, v) \<in> set (zip rs vs)" for r v
  proof -
    from that obtain i where "i < length rs" "r = rs ! i" by (auto simp: set_zip)
    with at show ?thesis by blast
  qed
  then obtain t' where t': "batch_set rset (zip rs vs) t = (HV_SUCCESS, t')"
    using batch_set_accepted [of "zip rs vs" t] by blast
  have "rget r t' = rget r s" if "r \<in> set rs" for r
  proof -
    from that obtain i where i: "i < length rs" "r = rs ! i" by (auto simp: in_set_conv_nth)
    then have "(r, vs ! i) \<in> set (zip rs vs)" using l by (auto simp: set_zip)
    with batch_set_gives [OF t'] d l have "rget r t' = (HV_SUCCESS, Some (keeps r (vs ! i)))"
      by simp
    with at [OF i(1)] i(2) kept [OF that] show ?thesis by simp
  qed
  with t' show ?thesis by blast
qed

end

end
