(* ===== verification/Ohv_Vcpu.thy ===== *)
theory Ohv_Vcpu
  imports Ohv_Nv2 Ohv_Sysreg Ohv_Caps Ohv_Bank
begin

text \<open>
  The vCPU's life cycle and its registers as the caller sees them, from \<open>src/ohv_vcpu.cpp\<close>:
  creation (with the controls of a guest hypervisor and its nested address space),
  destruction, the general and vector registers, the system registers, the debug traps, the
  virtual timer's mask and offset, and the private control and extension fields.

  An operation on one vCPU is a function on its slot; \<open>slot_get\<close> and \<open>slot_set\<close> put
  the lookup and the null-pointer checks every entry point starts with around it.  An output
  parameter is an option, and the argument \<open>p\<close> says whether the caller's pointer is non-null.
\<close>

section \<open>Creation\<close>

definition OHV_STATE_VER_MAGIC :: u64 where [masks]: "OHV_STATE_VER_MAGIC = 0x20687970"
definition OHV_HCR_NESTED :: u64 where [masks]: "OHV_HCR_NESTED = bit_mask 42 OR bit_mask 45"
definition OHV_HCR_E2H :: u64 where [masks]: "OHV_HCR_E2H = bit_mask 34"
definition OHV_HCR_TIDCP :: u64 where [masks]: "OHV_HCR_TIDCP = bit_mask 20"
definition OHV_HCR_TWE :: u64 where [masks]: "OHV_HCR_TWE = bit_mask 14"
definition OHV_HCR_FMO :: u64 where [masks]: "OHV_HCR_FMO = bit_mask 3"
definition OHV_HCR_IMO :: u64 where [masks]: "OHV_HCR_IMO = bit_mask 4"
definition OHV_HCR_AMO :: u64 where [masks]: "OHV_HCR_AMO = bit_mask 5"
definition OHV_HCR_TID3 :: u64 where [masks]: "OHV_HCR_TID3 = bit_mask 18"
definition OHV_HCR_TSC :: u64 where [masks]: "OHV_HCR_TSC = bit_mask 19"
definition OHV_HACR_APPLE_DEFAULT :: u64 where [masks]: "OHV_HACR_APPLE_DEFAULT = 0x0100000000000000"
definition OHV_HACR_TGXF :: u64 where [masks]: "OHV_HACR_TGXF = bit_mask 13"
definition OHV_HCR_XMO :: u64 where [masks]: "OHV_HCR_XMO = OHV_HCR_AMO OR OHV_HCR_IMO OR OHV_HCR_FMO"

text \<open>HCR_EL2 of a guest hypervisor's vCPU, from the value the kernel handed out.\<close>

definition hcr_tidcp :: "OhvCfg \<Rightarrow> u64 \<Rightarrow> u64" where
  "hcr_tidcp cfg hcr =
     (case cfg cfg_OHV_HCR_TIDCP of
        None \<Rightarrow> hcr
      | Some t \<Rightarrow> if strtoull t = 0 then hcr AND NOT OHV_HCR_TIDCP else hcr OR OHV_HCR_TIDCP)"

definition hcr_xmo :: "OhvCfg \<Rightarrow> u64 \<Rightarrow> u64" where
  "hcr_xmo cfg hcr =
     (case cfg cfg_OHV_HCR_XMO of
        None \<Rightarrow> hcr
      | Some t \<Rightarrow> (hcr AND NOT OHV_HCR_XMO) OR (strtoull t AND OHV_HCR_XMO))"

definition nested_hcr :: "OhvCfg \<Rightarrow> bool \<Rightarrow> u64 \<Rightarrow> u64" where
  "nested_hcr cfg vhe v =
     (let h0 = v OR cfg_num cfg cfg_OHV_HCR_NESTED_MASK OHV_HCR_NESTED;
          h1 = (if vhe then h0 OR OHV_HCR_E2H else h0 AND NOT OHV_HCR_E2H);
          h2 = (h1 OR OHV_HCR_TID3 OR OHV_HCR_TSC) OR OHV_HCR_XMO;
          h3 = (if ohv_env cfg cfg_OHV_NO_TWE then h2 else h2 OR OHV_HCR_TWE)
      in hcr_xmo cfg (hcr_tidcp cfg h3))"

definition nested_hacr :: "OhvCfg \<Rightarrow> u64" where
  "nested_hacr cfg =
     (let v = OHV_HACR_APPLE_DEFAULT;
          v1 = (if ohv_env cfg cfg_OHV_HACR_TACTL0 then v OR 1 else v)
      in if ohv_env cfg cfg_OHV_TRAP_GXF then v1 OR OHV_HACR_TGXF else v1)"

definition nested_cnthctl :: "OhvCfg \<Rightarrow> u64 \<Rightarrow> u64" where
  "nested_cnthctl cfg v = cfg_num cfg cfg_OHV_CNTHCTL ((v AND NOT 0x1fc00) OR 0x1e000)"

definition ctx_upd :: "nat \<Rightarrow> (u64 \<Rightarrow> u64) \<Rightarrow> VcpuSlot \<Rightarrow> VcpuSlot" where
  "ctx_upd off f s = ctx_wr off (f (ctx_rd s off)) s"

definition el2_controls :: "OhvCfg \<Rightarrow> bool \<Rightarrow> VcpuSlot \<Rightarrow> VcpuSlot" where
  "el2_controls cfg vhe s =
     (let s1 = ctx_upd ctl_hcr_el2 (nested_hcr cfg vhe) s;
          s2 = ctx_wr ctl_hacr_el2 (nested_hacr cfg) s1;
          s3 = ctx_upd ctl_hfgrtr_el2 (\<lambda>v. v OR 0x2600) s2;
          s4 = ctx_upd ctl_hfgwtr_el2 (\<lambda>v. v OR 0x2000) s3;
          s5 = ctx_upd ctl_hfgitr_el2 (\<lambda>v. v OR 0x3f000) s4;
          s6 = ctx_upd ctl_cnthctl_el2 (nested_cnthctl cfg) s5;
          s7 = ctx_dirty OHV_STATE_CONTROLS s6;
          s8 = ctx_wr OHV_NESTED_HCR_EL2 0x80000000 s7
      in case cfg cfg_OHV_TRY_14C8 of None \<Rightarrow> s8 | Some t \<Rightarrow> ctx_wr 0x14c8 (strtoull t) s8)"

definition enable_vgic :: "VcpuSlot \<Rightarrow> VcpuSlot" where
  "enable_vgic s =
     ctx_dirty (OHV_STATE_GIC OR OHV_STATE_CONTROLS) (ctx_upd ctl_ich_hcr_el2 (\<lambda>v. v OR 1) s)"

text \<open>What creation makes of the slot it found.\<close>

definition vcpu_init :: "OhvCfg \<Rightarrow> ohv_vm_state \<Rightarrow> nat \<Rightarrow> nat \<Rightarrow> mem \<Rightarrow> bool \<Rightarrow> VcpuSlot \<Rightarrow> VcpuSlot" where
  "vcpu_init cfg g me n m mapped s =
     (let s1 = s\<lparr>used := True, ctx := m, ctx_mapped := mapped, slot_id := of_nat n, owner := me,
                 run_count := 0\<rparr>;
          s2 = (if g_vm_el2 g then el2_controls cfg (g_vm_vhe g) s1 else s1);
          s3 = s2\<lparr>guest_at_el2 := g_vm_el2 g\<rparr>
      in if g_gic g \<noteq> None \<and> mapped then enable_vgic s3 else s3)"

definition free_slot :: "ohv_vm_state \<Rightarrow> nat option" where
  "free_slot g = find (\<lambda>i. \<not> used (g_vcpus g i)) [0..<kMaxVcpuIds]"

text \<open>The nested address space a guest hypervisor's vCPU joins: its own, or the first one; what
  the trap answers is only logged.\<close>

definition nested_space_of :: "ohv_vm_state \<Rightarrow> nat \<Rightarrow> u64" where
  "nested_space_of g n =
     (let a = ohv_nested_asid g n in if a = 0 then ohv_nested_asid g 0 else a)"

definition join_nested_space :: "'k kernel \<Rightarrow> OhvCfg \<Rightarrow> ohv_vm_state \<Rightarrow> nat \<Rightarrow> 'k \<Rightarrow> 'k" where
  "join_nested_space K cfg g n k =
     (if g_vm_el2 g \<and> \<not> ohv_env cfg cfg_OHV_NO_NESTED_SPACE \<and> nested_space_of g n \<noteq> 0
      then snd (k_set_address_space K k (nested_space_of g n)) else k)"

definition hv_vcpu_create ::
  "'k kernel \<Rightarrow> OhvCfg \<Rightarrow> nat \<Rightarrow> bool \<Rightarrow> bool \<Rightarrow> ohv_vm_state \<Rightarrow> 'k
     \<Rightarrow> hv_return \<times> nat option \<times> ohv_vm_state \<times> 'k" where
  "hv_vcpu_create K cfg me vcpu_out exit_out g k =
     (if \<not> vcpu_out \<or> \<not> exit_out then (HV_BAD_ARGUMENT, None, g, k)
      else if \<not> g_vm_alive g then (HV_NO_DEVICE, None, g, k)
      else if tl_current_vcpu g me \<noteq> None then (HV_BUSY, None, g, k)
      else case free_slot g of
        None \<Rightarrow> (HV_NO_RESOURCES, None, g, k)
      | Some n \<Rightarrow>
          (case k_vcpu_create K k (of_nat n) of
             (r, mapped, m, k1) \<Rightarrow>
               if r \<noteq> HV_SUCCESS then (r, None, g, k1)
               else if drop_bit 32 (rd64 m OHV_RO_VER) \<noteq> OHV_STATE_VER_MAGIC
               then (HV_ERROR, None, g, snd (k_vcpu_destroy K k1))
               else
                 let g1 = upd_slot n (vcpu_init cfg g me n m mapped) g;
                     g2 = g1\<lparr>tl_current_vcpu := (tl_current_vcpu g1)(me := Some n)\<rparr>
                 in (HV_SUCCESS, Some n, g2, join_nested_space K cfg g n k1)))"

definition hv_vcpu_destroy ::
  "'k kernel \<Rightarrow> nat \<Rightarrow> u64 \<Rightarrow> ohv_vm_state \<Rightarrow> 'k \<Rightarrow> hv_return \<times> ohv_vm_state \<times> 'k" where
  "hv_vcpu_destroy K me i g k =
     (case find_vcpu g i of
        None \<Rightarrow> (HV_BAD_ARGUMENT, g, k)
      | Some n \<Rightarrow>
          (case k_vcpu_destroy K k of
             (r, k') \<Rightarrow>
               let g1 = (if tl_current_vcpu g me = Some n
                         then g\<lparr>tl_current_vcpu := (tl_current_vcpu g)(me := None)\<rparr> else g)
               in (r, upd_slot n (\<lambda>_. new_VcpuSlot) g1, k')))"

section \<open>The entry points' frame\<close>

definition slot_get ::
  "nat \<Rightarrow> ohv_vm_state \<Rightarrow> u64 \<Rightarrow> bool \<Rightarrow> (VcpuSlot \<Rightarrow> hv_return \<times> 'a option) \<Rightarrow> hv_return \<times> 'a option" where
  "slot_get me g i p f =
     (case owned_vcpu me g i of
        None \<Rightarrow> (HV_BAD_ARGUMENT, None)
      | Some n \<Rightarrow> if \<not> p then (HV_BAD_ARGUMENT, None) else f (g_vcpus g n))"

definition slot_set ::
  "nat \<Rightarrow> ohv_vm_state \<Rightarrow> u64 \<Rightarrow> (VcpuSlot \<Rightarrow> hv_return \<times> VcpuSlot) \<Rightarrow> hv_return \<times> ohv_vm_state" where
  "slot_set me g i f =
     (case owned_vcpu me g i of
        None \<Rightarrow> (HV_BAD_ARGUMENT, g)
      | Some n \<Rightarrow> (case f (g_vcpus g n) of (r, s) \<Rightarrow> (r, upd_slot n (\<lambda>_. s) g)))"

section \<open>General and vector registers\<close>

definition HV_REG_FPCR :: u32 where [masks]: "HV_REG_FPCR = 32"
definition HV_REG_FPSR :: u32 where [masks]: "HV_REG_FPSR = 33"
definition HV_REG_CPSR :: u32 where [masks]: "HV_REG_CPSR = 34"

text \<open>The context word of a 64-bit register number.\<close>

definition reg_word :: "nat \<Rightarrow> nat option" where
  "reg_word n =
     (if n = 29 then Some OHV_RW_FP else if n = 30 then Some OHV_RW_LR
      else if n = 31 then Some OHV_RW_PC else if 31 < n then None else Some (off_x n))"

definition reg_get :: "u32 \<Rightarrow> VcpuSlot \<Rightarrow> hv_return \<times> u64 option" where
  "reg_get reg s =
     (if reg = HV_REG_CPSR then (HV_SUCCESS, Some (ucast (slot_cpsr s)))
      else if reg = HV_REG_FPCR then (HV_SUCCESS, Some (ucast (rd32 (ctx s) OHV_RW_FPCR)))
      else if reg = HV_REG_FPSR then (HV_SUCCESS, Some (ucast (rd32 (ctx s) OHV_RW_FPSR)))
      else case reg_word (unat reg) of
             None \<Rightarrow> (HV_BAD_ARGUMENT, None)
           | Some off \<Rightarrow> (HV_SUCCESS, Some (ctx_rd s off)))"

text \<open>A guest hypervisor described at EL2 runs at EL1.\<close>

definition pstate_of :: "bool \<Rightarrow> u64 \<Rightarrow> u32" where
  "pstate_of el2 value =
     (let pstate = ucast value :: u32; mode = pstate AND 0xf
      in if el2 \<and> (mode = 8 \<or> mode = 9) then (pstate AND NOT 0xf) OR (mode - 4) else pstate)"

definition reg_set :: "bool \<Rightarrow> u32 \<Rightarrow> u64 \<Rightarrow> VcpuSlot \<Rightarrow> hv_return \<times> VcpuSlot" where
  "reg_set el2 reg value s =
     (if reg = HV_REG_CPSR then (HV_SUCCESS, set_slot_cpsr (pstate_of el2 value) s)
      else if reg = HV_REG_FPCR
      then (HV_SUCCESS, s\<lparr>ctx := wr32 (ctx s) OHV_RW_FPCR (ucast value)\<rparr>)
      else if reg = HV_REG_FPSR
      then (HV_SUCCESS, s\<lparr>ctx := wr32 (ctx s) OHV_RW_FPSR (ucast value)\<rparr>)
      else case reg_word (unat reg) of
             None \<Rightarrow> (HV_BAD_ARGUMENT, s)
           | Some off \<Rightarrow> (HV_SUCCESS, ctx_wr off value s))"

definition hv_vcpu_get_reg :: "nat \<Rightarrow> ohv_vm_state \<Rightarrow> u64 \<Rightarrow> u32 \<Rightarrow> bool \<Rightarrow> hv_return \<times> u64 option" where
  "hv_vcpu_get_reg me g i reg p = slot_get me g i p (reg_get reg)"
definition hv_vcpu_set_reg :: "nat \<Rightarrow> ohv_vm_state \<Rightarrow> u64 \<Rightarrow> u32 \<Rightarrow> u64 \<Rightarrow> hv_return \<times> ohv_vm_state" where
  "hv_vcpu_set_reg me g i reg v = slot_set me g i (reg_set (g_vm_el2 g) reg v)"

definition off_q :: "u32 \<Rightarrow> nat" where "off_q r = OHV_RW_NEON_Q0 + 16 * unat r"

definition hv_vcpu_get_simd_fp_reg ::
  "nat \<Rightarrow> ohv_vm_state \<Rightarrow> u64 \<Rightarrow> u32 \<Rightarrow> bool \<Rightarrow> hv_return \<times> u8 list option" where
  "hv_vcpu_get_simd_fp_reg me g i r p =
     slot_get me g i p (\<lambda>s. if 31 < r then (HV_BAD_ARGUMENT, None)
                            else (HV_SUCCESS, Some (rd_bytes (ctx s) (off_q r) 16)))"
definition hv_vcpu_set_simd_fp_reg ::
  "nat \<Rightarrow> ohv_vm_state \<Rightarrow> u64 \<Rightarrow> u32 \<Rightarrow> u8 list \<Rightarrow> hv_return \<times> ohv_vm_state" where
  "hv_vcpu_set_simd_fp_reg me g i r bs =
     slot_set me g i (\<lambda>s. if 31 < r then (HV_BAD_ARGUMENT, s)
                          else (HV_SUCCESS, s\<lparr>ctx := wr_bytes (ctx s) (off_q r) bs\<rparr>))"

section \<open>System registers\<close>

text \<open>The identification registers, loaded from the capabilities on first use; the capabilities
  are asked for once in the process and kept, whatever the trap answered.\<close>

definition load_id_regs :: "world \<Rightarrow> ohv_statics \<Rightarrow> VcpuSlot \<Rightarrow> ohv_statics \<times> VcpuSlot" where
  "load_id_regs w st s =
     (if id_regs_loaded s then (st, s)
      else
        let caps = (case id_caps st of Some c \<Rightarrow> c | None \<Rightarrow> trap_capabilities w)
        in (st\<lparr>id_caps := Some caps\<rparr>,
            s\<lparr>id_regs := (\<lambda>i. if i < 18 then ohv_id_reg_for (w_machine_ipa w) caps i False
                             else id_regs s i)
                 (OHV_ID_SLOT_MIDR := ohv_caps_field (w_machine_ipa w) caps HV_SYS_REG_MIDR_EL1,
                  OHV_ID_SLOT_MPIDR := 0),
              id_regs_loaded := True\<rparr>))"

text \<open>The state bit whose validity an access of a kind needs.\<close>

definition valid_need :: "nat \<Rightarrow> u64" where
  "valid_need kd =
     (if kd = 0 \<or> kd = 1 then bit_mask 0 else if kd = 3 then OHV_STATE_DEBUG
      else if kd = 2 then bit_mask 61 else if kd = 6 then OHV_STATE_CONTROLS else 0)"

definition sync_wanted :: "SysRegDesc \<Rightarrow> VcpuSlot \<Rightarrow> bool" where
  "sync_wanted d s \<longleftrightarrow>
     sync_before d
     \<or> (valid_need (kind d) \<noteq> 0 \<and> ctx_rd s OHV_RO_STATE_VALID AND valid_need (kind d) = 0)"

definition vmkey_mirror :: "OhvCfg \<Rightarrow> u16 \<Rightarrow> u64 \<Rightarrow> VcpuSlot \<Rightarrow> VcpuSlot" where
  "vmkey_mirror cfg enc v s =
     (if (enc = 0xe788 \<or> enc = 0xe789) \<and> ohv_env cfg cfg_OHV_VMKEY_MIRROR
      then ctx_dirty OHV_STATE_CONTROLS
             (ctx_wr (if enc = 0xe788 then ctl_vmkeylo_el2 else ctl_vmkeyhi_el2) v s)
      else s)"

text \<open>CPTR_EL2 keeps the two bits the kernel needs in it.\<close>

definition written_value :: "u16 \<Rightarrow> u64 \<Rightarrow> u64" where
  "written_value enc v = (if enc = 0xe08a then v OR 0x300000 else v)"

definition write_word :: "OhvCfg \<Rightarrow> SysRegDesc \<Rightarrow> nat \<Rightarrow> u16 \<Rightarrow> u64 \<Rightarrow> VcpuSlot \<Rightarrow> VcpuSlot" where
  "write_word cfg d off enc v s =
     (let out = written_value enc v;
          s' = vmkey_mirror cfg enc out (ctx_wr off out s)
      in if dirty_bit d \<noteq> 0 then ctx_dirty (dirty_bit d) s' else s')"

text \<open>An access that has a word in the context: synchronized first when the shared copy is not
  current.  \<open>wv\<close> is the value to write, \<open>None\<close> for a read; the answer is the value read.\<close>

definition sysreg_word ::
  "world \<Rightarrow> SysRegDesc \<Rightarrow> nat \<Rightarrow> u16 \<Rightarrow> u64 option \<Rightarrow> VcpuSlot \<Rightarrow> hv_return \<times> u64 option \<times> VcpuSlot" where
  "sysreg_word w d off enc wv s =
     (case (if sync_wanted d s then sync_ctx w s else (HV_SUCCESS, s)) of
        (r, s1) \<Rightarrow>
          if r \<noteq> HV_SUCCESS then (r, None, s1)
          else (case wv of
                  None \<Rightarrow> (HV_SUCCESS, Some (ctx_rd s1 off), s1)
                | Some v \<Rightarrow> (HV_SUCCESS, None, write_word (w_cfg w) d off enc v s1)))"

definition sysreg_id ::
  "world \<Rightarrow> u16 \<Rightarrow> u64 option \<Rightarrow> ohv_statics \<Rightarrow> VcpuSlot
     \<Rightarrow> hv_return \<times> u64 option \<times> ohv_statics \<times> VcpuSlot" where
  "sysreg_id w enc wv st s =
     (case ohv_id_slot enc of
        None \<Rightarrow> (HV_SUCCESS, (case wv of None \<Rightarrow> Some 0 | Some _ \<Rightarrow> None), st, s)
      | Some sl \<Rightarrow>
          (case load_id_regs w st s of
             (st', s') \<Rightarrow>
               (case wv of
                  None \<Rightarrow> (HV_SUCCESS, Some (id_regs s' sl), st', s')
                | Some v \<Rightarrow> (HV_SUCCESS, None, st', s'\<lparr>id_regs := (id_regs s')(sl := v)\<rparr>))))"

definition sysreg_shadow ::
  "SysRegDesc \<Rightarrow> u64 option \<Rightarrow> VcpuSlot \<Rightarrow> hv_return \<times> u64 option \<times> VcpuSlot" where
  "sysreg_shadow d wv s =
     (if 32 \<le> reg_index d then (HV_UNSUPPORTED, None, s)
      else case wv of
             None \<Rightarrow> (HV_SUCCESS, Some (el2_shadow s (reg_index d)), s)
           | Some v \<Rightarrow> (HV_SUCCESS, None, s\<lparr>el2_shadow := (el2_shadow s)(reg_index d := v)\<rparr>))"

definition sysreg_access ::
  "world \<Rightarrow> u16 \<Rightarrow> u64 option \<Rightarrow> ohv_statics \<Rightarrow> VcpuSlot
     \<Rightarrow> hv_return \<times> u64 option \<times> ohv_statics \<times> VcpuSlot" where
  "sysreg_access w enc wv st s =
     (case sysreg_lookup enc of
        None \<Rightarrow> (HV_UNSUPPORTED, None, st, s)
      | Some d \<Rightarrow>
          if kind d = 5 then sysreg_id w enc wv st s
          else if kind d = 7 then (case sysreg_shadow d wv s of (r, v, s') \<Rightarrow> (r, v, st, s'))
          else (case desc_offset d of
                  None \<Rightarrow> (HV_UNSUPPORTED, None, st, s)
                | Some off \<Rightarrow> (case sysreg_word w d off enc wv s of (r, v, s') \<Rightarrow> (r, v, st, s'))))"

definition hv_vcpu_get_sys_reg ::
  "world \<Rightarrow> nat \<Rightarrow> u64 \<Rightarrow> u16 \<Rightarrow> bool \<Rightarrow> ohv_statics \<Rightarrow> ohv_vm_state
     \<Rightarrow> hv_return \<times> u64 option \<times> ohv_statics \<times> ohv_vm_state" where
  "hv_vcpu_get_sys_reg w me i enc p st g =
     (case owned_vcpu me g i of
        None \<Rightarrow> (HV_BAD_ARGUMENT, None, st, g)
      | Some n \<Rightarrow>
          if \<not> p then (HV_BAD_ARGUMENT, None, st, g)
          else (case sysreg_access w enc None st (g_vcpus g n) of
                  (r, v, st', s) \<Rightarrow> (r, v, st', upd_slot n (\<lambda>_. s) g)))"

definition hv_vcpu_set_sys_reg ::
  "world \<Rightarrow> nat \<Rightarrow> u64 \<Rightarrow> u16 \<Rightarrow> u64 \<Rightarrow> ohv_statics \<Rightarrow> ohv_vm_state
     \<Rightarrow> hv_return \<times> ohv_statics \<times> ohv_vm_state" where
  "hv_vcpu_set_sys_reg w me i enc v st g =
     (case owned_vcpu me g i of
        None \<Rightarrow> (HV_BAD_ARGUMENT, st, g)
      | Some n \<Rightarrow>
          (case sysreg_access w enc (Some v) st (g_vcpus g n) of
             (r, _, st', s) \<Rightarrow>
               (if r = HV_UNSUPPORTED \<and> ohv_env (w_cfg w) cfg_OHV_SURVEY_SYSREG then HV_SUCCESS else r,
                st', upd_slot n (\<lambda>_. s) g)))"

section \<open>Debug traps, times and the virtual timer\<close>

definition OHV_TIMER_MASK :: u64 where [masks]: "OHV_TIMER_MASK = bit_mask 0"
definition OHV_VMEXIT_SERROR :: u32 where [masks]: "OHV_VMEXIT_SERROR = 2"

definition vmexit_reason :: "VcpuSlot \<Rightarrow> u32" where
  "vmexit_reason s = rd32 (ctx s) OHV_RO_EXIT_REASON"

definition ctl_bits :: "nat \<Rightarrow> u64 \<Rightarrow> bool \<Rightarrow> VcpuSlot \<Rightarrow> VcpuSlot" where
  "ctl_bits off m on s =
     ctx_dirty OHV_STATE_CONTROLS (ctx_upd off (\<lambda>v. if on then v OR m else v AND NOT m) s)"

definition hv_vcpu_get_serror :: "nat \<Rightarrow> ohv_vm_state \<Rightarrow> u64 \<Rightarrow> bool \<Rightarrow> hv_return \<times> bool option" where
  "hv_vcpu_get_serror me g i p =
     slot_get me g i p (\<lambda>s. (HV_SUCCESS, Some (vmexit_reason s = OHV_VMEXIT_SERROR)))"
definition hv_vcpu_set_serror :: "ohv_vm_state \<Rightarrow> hv_return \<times> ohv_vm_state" where
  "hv_vcpu_set_serror g = (HV_UNSUPPORTED, g)"

definition hv_vcpu_get_trap_debug_exceptions ::
  "nat \<Rightarrow> ohv_vm_state \<Rightarrow> u64 \<Rightarrow> bool \<Rightarrow> hv_return \<times> bool option" where
  "hv_vcpu_get_trap_debug_exceptions me g i p =
     slot_get me g i p (\<lambda>s. (HV_SUCCESS, Some (drop_bit 14 (ctx_rd s ctl_mdcr_el2) AND 1 \<noteq> 0)))"
definition hv_vcpu_set_trap_debug_exceptions ::
  "nat \<Rightarrow> ohv_vm_state \<Rightarrow> u64 \<Rightarrow> bool \<Rightarrow> hv_return \<times> ohv_vm_state" where
  "hv_vcpu_set_trap_debug_exceptions me g i on =
     slot_set me g i (\<lambda>s. (HV_SUCCESS, ctl_bits ctl_mdcr_el2 (bit_mask 14) on s))"
definition hv_vcpu_get_trap_debug_reg_accesses ::
  "nat \<Rightarrow> ohv_vm_state \<Rightarrow> u64 \<Rightarrow> bool \<Rightarrow> hv_return \<times> bool option" where
  "hv_vcpu_get_trap_debug_reg_accesses me g i p =
     slot_get me g i p (\<lambda>s. (HV_SUCCESS, Some (drop_bit 9 (ctx_rd s ctl_mdcr_el2) AND 1 \<noteq> 0)))"
definition hv_vcpu_set_trap_debug_reg_accesses ::
  "nat \<Rightarrow> ohv_vm_state \<Rightarrow> u64 \<Rightarrow> bool \<Rightarrow> hv_return \<times> ohv_vm_state" where
  "hv_vcpu_set_trap_debug_reg_accesses me g i on =
     slot_set me g i (\<lambda>s. (HV_SUCCESS,
       ctl_bits ctl_mdcr_el2 (bit_mask 9 OR bit_mask 10 OR bit_mask 12) on s))"

definition hv_vcpu_get_exec_time :: "nat \<Rightarrow> ohv_vm_state \<Rightarrow> u64 \<Rightarrow> bool \<Rightarrow> hv_return \<times> u64 option" where
  "hv_vcpu_get_exec_time me g i p =
     slot_get me g i p (\<lambda>s. (HV_SUCCESS, Some (ctx_rd s OHV_RW_GUEST_TICKS)))"
definition hv_vcpu_get_wait_for_interrupt_time ::
  "nat \<Rightarrow> ohv_vm_state \<Rightarrow> u64 \<Rightarrow> bool \<Rightarrow> hv_return \<times> u64 option" where
  "hv_vcpu_get_wait_for_interrupt_time me g i p =
     slot_get me g i p (\<lambda>s. (HV_SUCCESS, Some (wfi_ticks s)))"

definition hv_vcpu_get_vtimer_mask :: "nat \<Rightarrow> ohv_vm_state \<Rightarrow> u64 \<Rightarrow> bool \<Rightarrow> hv_return \<times> bool option" where
  "hv_vcpu_get_vtimer_mask me g i p =
     slot_get me g i p (\<lambda>s. (HV_SUCCESS, Some (ctx_rd s ctl_timer AND OHV_TIMER_MASK \<noteq> 0)))"
definition hv_vcpu_set_vtimer_mask :: "nat \<Rightarrow> ohv_vm_state \<Rightarrow> u64 \<Rightarrow> bool \<Rightarrow> hv_return \<times> ohv_vm_state" where
  "hv_vcpu_set_vtimer_mask me g i masked =
     slot_set me g i (\<lambda>s. (HV_SUCCESS, ctl_bits ctl_timer OHV_TIMER_MASK masked s))"
definition hv_vcpu_get_vtimer_offset :: "nat \<Rightarrow> ohv_vm_state \<Rightarrow> u64 \<Rightarrow> bool \<Rightarrow> hv_return \<times> u64 option" where
  "hv_vcpu_get_vtimer_offset me g i p =
     slot_get me g i p (\<lambda>s. (HV_SUCCESS, Some (ctx_rd s ctl_virtual_timer_offset)))"
definition hv_vcpu_set_vtimer_offset :: "nat \<Rightarrow> ohv_vm_state \<Rightarrow> u64 \<Rightarrow> u64 \<Rightarrow> hv_return \<times> ohv_vm_state" where
  "hv_vcpu_set_vtimer_offset me g i off =
     slot_set me g i (\<lambda>s. (HV_SUCCESS,
       ctx_dirty OHV_STATE_CONTROLS (ctx_wr ctl_virtual_timer_offset off s)))"

definition hv_vcpu_invalidate_tlb ::
  "'k kernel \<Rightarrow> nat \<Rightarrow> ohv_vm_state \<Rightarrow> u64 \<Rightarrow> u64 \<Rightarrow> u64 \<Rightarrow> 'k \<Rightarrow> hv_return \<times> 'k" where
  "hv_vcpu_invalidate_tlb K me g i op param k =
     (case owned_vcpu me g i of
        None \<Rightarrow> (HV_BAD_ARGUMENT, k)
      | Some _ \<Rightarrow> k_stage1_tlb_op K k \<lparr>tlb_asid = 0, tlb_op = op, tlb_param = param\<rparr>)"

section \<open>Control and extension fields\<close>

definition kControlFieldOffset :: "nat option list" where
  "kControlFieldOffset =
    [Some 0x00, Some 0x10, Some 0x18, Some 0x20, None, Some 0x28, Some 0x08, Some 0x70, Some 0x78,
     Some 0x80, None, Some 0x38, Some 0x40, Some 0x48, Some 0x50, Some 0x58, Some 0x60, Some 0xD0]"

definition field_word :: "u32 \<Rightarrow> nat option" where
  "field_word f =
     (if 18 \<le> f then None
      else map_option (\<lambda>off. OHV_RW_CONTROLS + off) (kControlFieldOffset ! unat f))"

definition field_get :: "u32 \<Rightarrow> VcpuSlot \<Rightarrow> hv_return \<times> u64 option" where
  "field_get f s =
     (case field_word f of
        None \<Rightarrow> (HV_BAD_ARGUMENT, None)
      | Some off \<Rightarrow> (HV_SUCCESS, Some (ctx_rd s off)))"
definition field_set :: "OhvCfg \<Rightarrow> u32 \<Rightarrow> u64 \<Rightarrow> VcpuSlot \<Rightarrow> hv_return \<times> VcpuSlot" where
  "field_set cfg f v s =
     (case field_word f of
        None \<Rightarrow> (HV_BAD_ARGUMENT, s)
      | Some off \<Rightarrow>
          if f = 9 \<and> \<not> ohv_env cfg cfg_OHV_ALLOW_APSTS_WRITE then (HV_SUCCESS, s)
          else (HV_SUCCESS, ctx_dirty OHV_STATE_CONTROLS (ctx_wr off v s)))"

definition hv_vcpu_get_control_field ::
  "nat \<Rightarrow> ohv_vm_state \<Rightarrow> u64 \<Rightarrow> u32 \<Rightarrow> bool \<Rightarrow> hv_return \<times> u64 option" where
  "hv_vcpu_get_control_field me g i f p = slot_get me g i p (field_get f)"
definition hv_vcpu_set_control_field ::
  "OhvCfg \<Rightarrow> nat \<Rightarrow> ohv_vm_state \<Rightarrow> u64 \<Rightarrow> u32 \<Rightarrow> u64 \<Rightarrow> hv_return \<times> ohv_vm_state" where
  "hv_vcpu_set_control_field cfg me g i f v = slot_set me g i (field_set cfg f v)"

text \<open>\<open>_hv_vcpu_get_context\<close>: the vCPU whose context it is, or null.\<close>

definition hv_vcpu_get_context :: "nat \<Rightarrow> ohv_vm_state \<Rightarrow> u64 \<Rightarrow> bool \<Rightarrow> hv_return \<times> mem option" where
  "hv_vcpu_get_context me g i p = slot_get me g i p (\<lambda>s. (HV_SUCCESS, Some (ctx s)))"
definition hv_vcpu_context_of :: "nat \<Rightarrow> ohv_vm_state \<Rightarrow> u64 \<Rightarrow> mem option" where
  "hv_vcpu_context_of me g i = map_option (\<lambda>n. ctx (g_vcpus g n)) (owned_vcpu me g i)"

definition hv_vcpu_get_ext_reg :: "nat \<Rightarrow> ohv_vm_state \<Rightarrow> u64 \<Rightarrow> u32 \<Rightarrow> bool \<Rightarrow> hv_return \<times> u64 option" where
  "hv_vcpu_get_ext_reg me g i reg p =
     slot_get me g i p (\<lambda>s. if 83 \<le> reg then (HV_BAD_ARGUMENT, None)
                            else (HV_SUCCESS, Some (ctx_rd s (OHV_RW_EXTREGS + 8 * unat reg))))"

section \<open>The life of a vCPU\<close>

lemma upd_slot_sel [simp]:
  "g_vcpus (upd_slot n f g) m = (if m = n then f (g_vcpus g n) else g_vcpus g m)"
  "tl_current_vcpu (upd_slot n f g) = tl_current_vcpu g" "g_vm_alive (upd_slot n f g) = g_vm_alive g"
  "g_gic (upd_slot n f g) = g_gic g" "g_vm_el2 (upd_slot n f g) = g_vm_el2 g"
  by (simp_all add: upd_slot_def)

lemma free_slot_Some:
  assumes "free_slot g = Some n"
  shows "n < 64 \<and> \<not> used (g_vcpus g n) \<and> (\<forall>m<n. used (g_vcpus g m))"
proof -
  from assms obtain i where i: "i < length [0..<kMaxVcpuIds]" "\<not> used (g_vcpus g ([0..<kMaxVcpuIds] ! i))"
    "n = [0..<kMaxVcpuIds] ! i" "\<forall>j<i. used (g_vcpus g ([0..<kMaxVcpuIds] ! j))"
    by (auto simp: free_slot_def find_Some_iff)
  then have "n = i" by simp
  with i show ?thesis by (auto simp: kMaxVcpuIds_def)
qed

lemma free_slot_None: "free_slot g = None \<longleftrightarrow> (\<forall>n<64. used (g_vcpus g n))"
  by (auto simp: free_slot_def find_None_iff kMaxVcpuIds_def)

lemma ctx_upd_frame [simp]:
  "used (ctx_upd off f s) = used s" "ctx_mapped (ctx_upd off f s) = ctx_mapped s"
  "guest_at_el2 (ctx_upd off f s) = guest_at_el2 s" "slot_wf (ctx_upd off f s) = slot_wf s"
  by (simp_all add: ctx_upd_def)

lemma slot_id_frame [simp]:
  "slot_id (ctx_wr off v s) = slot_id s" "slot_id (ctx_dirty b s) = slot_id s"
  "slot_id (ctx_upd off f s) = slot_id s" "slot_id (set_slot_cpsr c s) = slot_id s"
  by (simp_all add: ctx_wr_def ctx_dirty_def ctx_upd_def set_slot_cpsr_def)

lemma el2_controls_frame [simp]:
  "used (el2_controls cfg vhe s) = used s" "slot_id (el2_controls cfg vhe s) = slot_id s"
  "ctx_mapped (el2_controls cfg vhe s) = ctx_mapped s" "slot_wf (el2_controls cfg vhe s) = slot_wf s"
  by (simp_all add: el2_controls_def Let_def split: option.splits)

lemma slot_start_frame [simp]:
  "slot_wf (s\<lparr>used := u, ctx := m, ctx_mapped := p, slot_id := i, owner := o', run_count := c\<rparr>) = slot_wf s"
  "slot_wf (s\<lparr>guest_at_el2 := e\<rparr>) = slot_wf s"
  by (simp_all add: slot_wf_def)

lemma vcpu_init_frame [simp]:
  "used (vcpu_init cfg g me n m mapped s)"
  "slot_id (vcpu_init cfg g me n m mapped s) = of_nat n"
  "ctx_mapped (vcpu_init cfg g me n m mapped s) = mapped"
  "guest_at_el2 (vcpu_init cfg g me n m mapped s) = g_vm_el2 g"
  "slot_wf (vcpu_init cfg g me n m mapped s) = slot_wf s"
  by (simp_all add: vcpu_init_def enable_vgic_def Let_def)

lemma find_vcpu_used: "n < 64 \<Longrightarrow> used (g_vcpus g n) \<Longrightarrow> find_vcpu g (of_nat n) = Some n"
  by (simp add: find_vcpu_def kMaxVcpuIds_def word_le_nat_alt unat_of_nat)

text \<open>C18: Creating a vCPU either answers an error and leaves the process state as it was,
  or hands out the lowest free slot: its number is the slot's, the calling thread is bound to
  it and owns it, the other slots are untouched, and the guest starts at EL2 exactly when the
  VM was made for a guest hypervisor.  A missing output pointer, a missing VM, a thread that has
  a vCPU already and a full table are refused in this order, before the kernel is asked.\<close>

theorem vcpu_create_outcome:
  "case hv_vcpu_create K cfg me p q g k of (r, out, g', k') \<Rightarrow>
     (\<not> p \<or> \<not> q \<longrightarrow> r = HV_BAD_ARGUMENT \<and> k' = k)
     \<and> (p \<and> q \<and> \<not> g_vm_alive g \<longrightarrow> r = HV_NO_DEVICE \<and> k' = k)
     \<and> (p \<and> q \<and> g_vm_alive g \<and> tl_current_vcpu g me \<noteq> None \<longrightarrow> r = HV_BUSY \<and> k' = k)
     \<and> (p \<and> q \<and> g_vm_alive g \<and> tl_current_vcpu g me = None \<and> (\<forall>n<64. used (g_vcpus g n))
          \<longrightarrow> r = HV_NO_RESOURCES \<and> k' = k)
     \<and> (r \<noteq> HV_SUCCESS \<longrightarrow> out = None \<and> g' = g)
     \<and> (r = HV_SUCCESS \<longrightarrow> (\<exists>n. out = Some n \<and> n < 64 \<and> \<not> used (g_vcpus g n)
          \<and> (\<forall>m<n. used (g_vcpus g m)) \<and> used (g_vcpus g' n) \<and> slot_id (g_vcpus g' n) = of_nat n
          \<and> owned_vcpu me g' (of_nat n) = Some n \<and> tl_current_vcpu g' = (tl_current_vcpu g)(me := Some n)
          \<and> (\<forall>m. m \<noteq> n \<longrightarrow> g_vcpus g' m = g_vcpus g m)
          \<and> guest_at_el2 (g_vcpus g' n) = g_vm_el2 g))"
proof (cases "\<not> p \<or> \<not> q \<or> \<not> g_vm_alive g \<or> tl_current_vcpu g me \<noteq> None")
  case False
  then have pre: "p" "q" "g_vm_alive g" "tl_current_vcpu g me = None" by auto
  show ?thesis
  proof (cases "free_slot g")
    case None
    then have "\<forall>n<64. used (g_vcpus g n)" by (simp add: free_slot_None)
    with pre None show ?thesis by (simp add: hv_vcpu_create_def hv_codes)
  next
    case (Some n)
    note n = free_slot_Some [OF Some]
    then have nf: "\<not> (\<forall>n<64. used (g_vcpus g n))" by blast
    obtain r mapped m k1 where kc: "k_vcpu_create K k (of_nat n) = (r, mapped, m, k1)"
      by (rule prod_cases4)
    show ?thesis
    proof (cases "r = HV_SUCCESS \<and> drop_bit 32 (rd64 m OHV_RO_VER) = OHV_STATE_VER_MAGIC")
      case False
      with pre nf Some kc show ?thesis
        unfolding hv_vcpu_create_def by (auto simp: hv_codes)
    next
      case True
      with pre nf Some kc n show ?thesis
        by (simp add: hv_vcpu_create_def owned_vcpu_def find_vcpu_used)
    qed
  qed
qed (auto simp: hv_vcpu_create_def hv_codes)

text \<open>The witness: the first vCPU of a guest hypervisor's VM on the granting kernel.\<close>

definition el2_vm :: ohv_vm_state where
  "el2_vm = initial_state\<lparr>g_vm_alive := True, g_vm_el2 := True, g_nested_asid := [7, 9]\<rparr>"

lemma initial_free: "free_slot el2_vm = Some 0"
  by (simp add: free_slot_def el2_vm_def initial_state_def new_VcpuSlot_def kMaxVcpuIds_def upt_rec)

lemma granting_vcpu_create:
  "hv_vcpu_create granting_kernel no_settings 5 True True el2_vm 1 =
     (HV_SUCCESS, Some 0,
      (upd_slot 0 (vcpu_init no_settings el2_vm 5 0 (wr64 zero_mem 0x4000 0x2068797000000000) True) el2_vm)
        \<lparr>tl_current_vcpu := (\<lambda>_. None)(5 := Some 0)\<rparr>, 1)"
  by (simp add: hv_vcpu_create_def initial_free granting_kernel_def join_nested_space_def)
     (simp add: el2_vm_def initial_state_def layout masks)

theorem vcpu_create_outcome_witness:
  "case hv_vcpu_create granting_kernel no_settings 5 True True el2_vm 1 of (r, out, g', k') \<Rightarrow>
     r = HV_SUCCESS \<and> out = Some 0 \<and> guest_at_el2 (g_vcpus g' 0) \<and> tl_current_vcpu g' 5 = Some 0
     \<and> \<not> used (g_vcpus g' 1)"
proof -
  note c = vcpu_create_outcome [where K = granting_kernel and cfg = no_settings and me = 5 and p = True
      and q = True and g = el2_vm and k = 1]
  have e: "g_vm_el2 el2_vm" "\<not> used (g_vcpus el2_vm 1)"
    by (simp_all add: el2_vm_def initial_state_def new_VcpuSlot_def)
  from c granting_vcpu_create e show ?thesis by (simp add: el2_vm_def)
qed

lemma vcpu_destroy_effect:
  assumes "hv_vcpu_destroy K me i g k = (r, g', k')" and "find_vcpu g i = Some n"
  shows "g_vcpus g' = (g_vcpus g)(n := new_VcpuSlot)"
    and "tl_current_vcpu g' = (if tl_current_vcpu g me = Some n
          then (tl_current_vcpu g)(me := None) else tl_current_vcpu g)"
    and "g_vm_alive g' = g_vm_alive g"
  using assms by (auto simp: hv_vcpu_destroy_def Let_def fun_eq_iff split: prod.splits if_splits)

text \<open>Destroying a vCPU frees its slot whatever the kernel answered, and it is open
  to any thread.  The slot is a fresh one again and can be handed out; the thread that destroys
  its own vCPU can create another.  A vCPU destroyed from a thread that does not own it leaves
  the owner bound to the dead slot: every later creation on the owner's thread is refused as
  busy, until another thread's vCPU is given that slot -- which the owner then owns as well.\<close>

theorem vcpu_destroy_frees_but_leaves_owner:
  assumes "hv_vcpu_destroy K me i g k = (r, g', k')" and "find_vcpu g i = Some n"
  shows "g_vcpus g' n = new_VcpuSlot \<and> find_vcpu g' i = None
    \<and> (\<forall>m. m \<noteq> n \<longrightarrow> g_vcpus g' m = g_vcpus g m)
    \<and> (tl_current_vcpu g me = Some n \<longrightarrow> tl_current_vcpu g' me = None)
    \<and> (\<forall>t. t \<noteq> me \<and> tl_current_vcpu g t = Some n \<and> g_vm_alive g \<longrightarrow>
          fst (hv_vcpu_create K cfg t True True g' k'') = HV_BUSY)"
proof -
  note e = vcpu_destroy_effect [OF assms]
  note f = find_vcpu_Some [OF assms(2)]
  have "g_vcpus g' n = new_VcpuSlot" by (simp add: e(1))
  moreover have "find_vcpu g' i = None"
    using f e(1) by (simp add: find_vcpu_def new_VcpuSlot_def)
  moreover have "fst (hv_vcpu_create K cfg t True True g' k'') = HV_BUSY"
    if "t \<noteq> me" "tl_current_vcpu g t = Some n" "g_vm_alive g" for t
    using that e by (simp add: hv_vcpu_create_def)
  ultimately show ?thesis using e by simp
qed

theorem vcpu_destroy_frees_but_leaves_owner_witness:
  "\<exists>g k g' k'. hv_vcpu_create granting_kernel no_settings 5 True True el2_vm 1 = (HV_SUCCESS, Some 0, g, k)
     \<and> hv_vcpu_destroy granting_kernel 6 0 g k = (HV_SUCCESS, g', k')
     \<and> find_vcpu g' 0 = None
     \<and> fst (hv_vcpu_create granting_kernel no_settings 5 True True g' k') = HV_BUSY"
proof -
  define g where "g = (upd_slot 0
      (vcpu_init no_settings el2_vm 5 0 (wr64 zero_mem 0x4000 0x2068797000000000) True) el2_vm)
        \<lparr>tl_current_vcpu := (\<lambda>_. None)(5 := Some 0)\<rparr>"
  have c: "hv_vcpu_create granting_kernel no_settings 5 True True el2_vm 1 = (HV_SUCCESS, Some 0, g, 1)"
    unfolding g_def by (rule granting_vcpu_create)
  have g: "tl_current_vcpu g 5 = Some 0" "used (g_vcpus g 0)" "g_vm_alive g"
    by (simp_all add: g_def) (simp add: el2_vm_def)
  have f: "find_vcpu g 0 = Some 0" using g by (simp add: find_vcpu_def kMaxVcpuIds_def)
  obtain r g' k' where d: "hv_vcpu_destroy granting_kernel 6 0 g 1 = (r, g', k')" by (rule prod_cases3)
  with f have "r = HV_SUCCESS" by (auto simp: hv_vcpu_destroy_def granting_kernel_def)
  note p = vcpu_destroy_frees_but_leaves_owner [OF d f, where cfg = no_settings and k'' = k']
  have "fst (hv_vcpu_create granting_kernel no_settings 5 True True g' k') = HV_BUSY"
    using p g by simp
  moreover have "find_vcpu g' 0 = None" using p by simp
  ultimately show ?thesis using c d \<open>r = HV_SUCCESS\<close> by blast
qed

section \<open>The controls of a guest hypervisor\<close>

lemma ctx_rd_upd:
  "ctx_rd (ctx_upd off f s) off = f (ctx_rd s off)"
  "a + 8 \<le> b \<or> b + 8 \<le> a \<Longrightarrow> ctx_rd (ctx_upd a f s) b = ctx_rd s b"
  by (auto simp: ctx_upd_def)

lemma el2_controls_words:
  "ctx_rd (el2_controls no_settings vhe s) ctl_hcr_el2 = nested_hcr no_settings vhe (ctx_rd s ctl_hcr_el2)"
  "ctx_rd (el2_controls no_settings vhe s) ctl_hacr_el2 = nested_hacr no_settings"
  "ctx_rd (el2_controls no_settings vhe s) ctl_cnthctl_el2
     = nested_cnthctl no_settings (ctx_rd s ctl_cnthctl_el2)"
  "ctx_rd (el2_controls no_settings vhe s) ctl_hfgrtr_el2 = ctx_rd s ctl_hfgrtr_el2 OR 0x2600"
  "ctx_rd (el2_controls no_settings vhe s) ctl_hfgwtr_el2 = ctx_rd s ctl_hfgwtr_el2 OR 0x2000"
  "ctx_rd (el2_controls no_settings vhe s) ctl_hfgitr_el2 = ctx_rd s ctl_hfgitr_el2 OR 0x3f000"
  "ctx_rd (el2_controls no_settings vhe s) OHV_NESTED_HCR_EL2 = 0x80000000"
  by (simp_all add: el2_controls_def Let_def ctx_rd_upd layout)

lemma ctx_rd_dirty_word:
  "ctx_rd (ctx_dirty b s) OHV_RW_STATE_DIRTY =
     (if ctx_mapped s then ctx_rd s OHV_RW_STATE_DIRTY OR b else ctx_rd s OHV_RW_STATE_DIRTY)"
  by (simp add: ctx_dirty_def mark_dirty_def ctx_rd_def)

text \<open>A guest hypervisor's vCPU starts with the traps this library needs and nothing
  else changed.  With the default settings HCR_EL2 gains NV and NV2, the routing of the three
  physical exceptions, the identification and SMC traps and the trap on WFE, has E2H exactly
  when the VM asked for the host extensions, and keeps every other bit the kernel handed out;
  CNTHCTL_EL2 traps the four EL1 timer and counter accesses (bits 13 to 16) and clears the
  three bits below; HACR_EL2 and the guest's own HCR_EL2 have their fixed values; and the
  controls are marked for the kernel to take.\<close>

theorem nested_controls:
  "let t = el2_controls no_settings vhe s in
     bit (ctx_rd t ctl_hcr_el2) n =
      (if n = 34 then vhe else n \<in> {3, 4, 5, 14, 18, 19, 42, 45} \<or> bit (ctx_rd s ctl_hcr_el2) n)
     \<and> bit (ctx_rd t ctl_cnthctl_el2) n =
      (if 10 \<le> n \<and> n \<le> 16 then 13 \<le> n else bit (ctx_rd s ctl_cnthctl_el2) n)
     \<and> ctx_rd t ctl_hacr_el2 = 0x0100000000000000
     \<and> ctx_rd t OHV_NESTED_HCR_EL2 = 0x80000000
     \<and> ctx_rd t OHV_RW_STATE_DIRTY =
      (if ctx_mapped s then ctx_rd s OHV_RW_STATE_DIRTY OR OHV_STATE_CONTROLS
       else ctx_rd s OHV_RW_STATE_DIRTY)"
proof -
  define t where "t = el2_controls no_settings vhe s"
  have b: "bit (bit_mask m :: u64) n \<longleftrightarrow> n = m \<and> m < 64" for m
    by (auto simp: bit_simps)
  have h: "bit (nested_hcr no_settings vhe v) n =
      (if n = 34 then vhe else n \<in> {3, 4, 5, 14, 18, 19, 42, 45} \<or> bit v n)" for v
  proof -
    have e: "nested_hcr no_settings vhe v =
        (((if vhe then (v OR OHV_HCR_NESTED) OR OHV_HCR_E2H
           else (v OR OHV_HCR_NESTED) AND NOT OHV_HCR_E2H) OR OHV_HCR_TID3 OR OHV_HCR_TSC)
          OR OHV_HCR_XMO) OR OHV_HCR_TWE"
      by (simp add: nested_hcr_def hcr_xmo_def hcr_tidcp_def cfg_num_def Let_def)
    have "n < 64" if "bit v n" using bit_imp_le_length [OF that] by simp
    then show ?thesis
      unfolding e by (cases vhe; simp only: masks if_True if_False bit_or_iff bit_and_iff bit_not_iff b;
          auto simp: possible_bit_def)
  qed
  have mask: "(0x1fc00 :: u64) = push_bit 10 (Bit_Operations.mask 7)" "(0x1e000 :: u64) = push_bit 13 (Bit_Operations.mask 4)"
    by (simp_all add: mask_numeral)
  have c: "bit (nested_cnthctl no_settings v) n = (if 10 \<le> n \<and> n \<le> 16 then 13 \<le> n else bit v n)" for v
    using bit_imp_le_length [of v n]
    by (auto simp: nested_cnthctl_def cfg_num_def mask bit_simps)
  have d: "ctx_rd t OHV_RW_STATE_DIRTY =
      (if ctx_mapped s then ctx_rd s OHV_RW_STATE_DIRTY OR OHV_STATE_CONTROLS
       else ctx_rd s OHV_RW_STATE_DIRTY)"
    by (simp add: t_def el2_controls_def Let_def ctx_rd_upd ctx_rd_dirty_word [unfolded layout] layout)
  show ?thesis
    using d unfolding t_def [symmetric]
    by (simp add: t_def el2_controls_words h c nested_hacr_def OHV_HACR_APPLE_DEFAULT_def)
qed

section \<open>The general registers are a register bank\<close>

text \<open>What a register makes of the value written: the three 32-bit ones take the low half, and
  the program status of a guest hypervisor never says EL2.\<close>

definition reg_keeps :: "bool \<Rightarrow> u32 \<Rightarrow> u64 \<Rightarrow> u64" where
  "reg_keeps el2 reg v =
     (if reg = HV_REG_CPSR then ucast (pstate_of el2 v)
      else if reg = HV_REG_FPCR \<or> reg = HV_REG_FPSR then ucast (ucast v :: u32) else v)"

lemma reg_word_eq: "reg_word n = (if 31 < n then None else Some (8 + 8 * (if n = 31 then 32 else n)))"
  by (simp add: reg_word_def off_x_def layout)

lemma reg_word_apart:
  assumes "reg_word n = Some a" and "reg_word m = Some b" and "m \<noteq> n"
  shows "a + 8 \<le> b \<or> b + 8 \<le> a"
proof -
  from assms have "n < m \<or> m < n" by arith
  with assms show ?thesis by (auto simp: reg_word_eq split: if_splits)
qed

lemma reg_word_bound: "reg_word n = Some a \<Longrightarrow> 8 \<le> a \<and> a + 8 \<le> 0x110"
  by (auto simp: reg_word_eq split: if_splits)

lemma reg_set_get:
  "reg_set el2 r v s = (HV_SUCCESS, s') \<Longrightarrow> reg_get r s' = (HV_SUCCESS, Some (reg_keeps el2 r v))"
  by (auto simp: reg_set_def reg_get_def reg_keeps_def masks hv_codes split: if_splits option.splits)

lemma ctx_of_wr: "ctx (ctx_wr off v s) = wr64 (ctx s) off v"
  by (simp add: ctx_wr_def)

lemma ctx_rd_wr32: "ctx_rd (s\<lparr>ctx := wr32 (ctx s) b v\<rparr>) a = ctx_rd s a" if "a + 8 \<le> b \<or> b + 4 \<le> a"
  using that by (auto simp: ctx_rd_def)

lemma reg_set_other:
  assumes "reg_set el2 r v s = (e, s')" and "q \<noteq> r"
  shows "reg_get q s' = reg_get q s"
proof -
  have q32: "reg_get q (s\<lparr>ctx := wr32 (ctx s) b u\<rparr>) = reg_get q s"
    if "(r = HV_REG_CPSR \<and> b = OHV_RW_CPSR) \<or> (r = HV_REG_FPCR \<and> b = OHV_RW_FPCR)
      \<or> (r = HV_REG_FPSR \<and> b = OHV_RW_FPSR)" for b u
    using that assms(2) reg_word_bound [of "unat q"]
    by (auto simp: reg_get_def slot_cpsr_def ctx_rd_wr32 layout split: option.splits)
  have u: "unat q \<noteq> unat r" using assms(2) word_unat_eq_iff by blast
  have q64: "reg_get q (ctx_wr a v s) = reg_get q s" if "reg_word (unat r) = Some a" for a
    using that u reg_word_bound [OF that] reg_word_apart [OF that, of "unat q"]
    by (auto simp: reg_get_def slot_cpsr_wr ctx_of_wr layout split: option.splits)
  show ?thesis
    using assms(1) q32 q64
    by (auto simp: reg_set_def set_slot_cpsr_def split: if_splits option.splits)
qed

interpretation gpr: register_bank reg_get "reg_set el2" "reg_keeps el2" for el2
proof
  show "reg_set el2 r v s = (HV_SUCCESS, s') \<Longrightarrow> reg_get r s' = (HV_SUCCESS, Some (reg_keeps el2 r v))"
    for r v s s' by (rule reg_set_get)
  show "reg_set el2 r v s = (e, s') \<Longrightarrow> q \<noteq> r \<Longrightarrow> reg_get q s' = reg_get q s" for r v s s' e q
    by (rule reg_set_other)
  show "reg_set el2 r v s = (e, s') \<Longrightarrow> e \<noteq> HV_SUCCESS \<Longrightarrow> s' = s" for r v s s' e
    by (auto simp: reg_set_def split: if_splits option.splits)
  show "reg_get r s = (HV_SUCCESS, Some v) \<Longrightarrow> fst (reg_set el2 r u t) = HV_SUCCESS" for r s v u t
    by (auto simp: reg_set_def reg_get_def split: if_splits option.splits)
qed

lemma pstate_not_el2: "pstate_of True v AND 0xf \<noteq> 8 \<and> pstate_of True v AND 0xf \<noteq> 9"
proof -
  have z: "(- 16 :: u32) AND 15 = 0" by simp
  have r: "((p AND - 16) OR m) AND 15 = m" if "m = 4 \<or> m = 5" for p m :: u32
    using that by (auto simp: word_ao_dist and.assoc z)
  show ?thesis by (auto simp: pstate_of_def Let_def r)
qed

lemma slot_get_owned: "owned_vcpu me g i = Some n \<Longrightarrow> slot_get me g i True f = f (g_vcpus g n)"
  by (simp add: slot_get_def)

lemma slot_set_Some:
  assumes "slot_set me g i f = (r, g')" and "owned_vcpu me g i = Some n"
    and "\<And>s t. f s = (r, t) \<Longrightarrow> used t = used s"
  obtains t where "f (g_vcpus g n) = (r, t)" "g' = upd_slot n (\<lambda>_. t) g" "owned_vcpu me g' i = Some n"
proof -
  obtain t where t: "f (g_vcpus g n) = (r, t)" "g' = upd_slot n (\<lambda>_. t) g"
    using assms(1,2) by (auto simp: slot_set_def split: prod.splits)
  have "used (g_vcpus g' m) = used (g_vcpus g m)" for m using t assms(3) by simp
  then have "owned_vcpu me g' i = owned_vcpu me g i"
    by (simp add: owned_vcpu_def find_vcpu_def t(2))
  with t assms(2) that show ?thesis by simp
qed

lemma reg_set_used: "reg_set el2 r v s = (e, t) \<Longrightarrow> used t = used s"
  by (auto simp: reg_set_def set_slot_cpsr_def ctx_wr_def split: if_splits option.splits)

text \<open>C19: The general registers through the API: a write that succeeds is read back as
  what the register keeps of it, every other register of the vCPU reads as before, the vCPU
  stays owned, and a guest hypervisor's program status never names EL2.  A write is refused
  exactly for a register number past CPSR or a vCPU that is not the caller's.\<close>

theorem register_write_read:
  assumes "hv_vcpu_set_reg me g i reg v = (r, g')"
  shows "(r = HV_SUCCESS \<longleftrightarrow> owned_vcpu me g i \<noteq> None \<and> reg \<le> HV_REG_CPSR)
    \<and> (r \<noteq> HV_SUCCESS \<longrightarrow> r = HV_BAD_ARGUMENT \<and> g_vcpus g' = g_vcpus g)
    \<and> (r = HV_SUCCESS \<longrightarrow>
         hv_vcpu_get_reg me g' i reg True = (HV_SUCCESS, Some (reg_keeps (g_vm_el2 g) reg v)))
    \<and> (\<forall>q. q \<noteq> reg \<longrightarrow> hv_vcpu_get_reg me g' i q True = hv_vcpu_get_reg me g i q True)
    \<and> (r = HV_SUCCESS \<and> reg = HV_REG_CPSR \<and> g_vm_el2 g \<longrightarrow>
         (\<exists>p. hv_vcpu_get_reg me g' i HV_REG_CPSR True = (HV_SUCCESS, Some (ucast (p :: u32)))
              \<and> p AND 0xf \<noteq> 8 \<and> p AND 0xf \<noteq> 9))"
proof (cases "owned_vcpu me g i")
  case None
  with assms have "g' = g" "r = HV_BAD_ARGUMENT" by (simp_all add: hv_vcpu_set_reg_def slot_set_def)
  with None show ?thesis by (simp add: hv_codes)
next
  case (Some n)
  from assms have ss: "slot_set me g i (reg_set (g_vm_el2 g) reg v) = (r, g')"
    by (simp add: hv_vcpu_set_reg_def)
  obtain t where t: "reg_set (g_vm_el2 g) reg v (g_vcpus g n) = (r, t)" "g' = upd_slot n (\<lambda>_. t) g"
    "owned_vcpu me g' i = Some n"
    by (rule slot_set_Some [OF ss Some]) (auto dest: reg_set_used)
  have get: "hv_vcpu_get_reg me g' i q True = reg_get q t"
    "hv_vcpu_get_reg me g i q True = reg_get q (g_vcpus g n)" for q
    using t Some by (simp_all add: hv_vcpu_get_reg_def slot_get_def)
  have ok: "r = HV_SUCCESS \<longleftrightarrow> reg \<le> HV_REG_CPSR"
    using t(1) by (auto simp: reg_set_def reg_word_eq masks hv_codes word_le_nat_alt
        word_unat_eq_iff split: if_splits option.splits)
  have bad: "r \<noteq> HV_SUCCESS \<Longrightarrow> r = HV_BAD_ARGUMENT \<and> t = g_vcpus g n"
    using t(1) by (auto simp: reg_set_def split: if_splits option.splits)
  have cpsr: "\<exists>p. hv_vcpu_get_reg me g' i HV_REG_CPSR True = (HV_SUCCESS, Some (ucast (p :: u32)))
        \<and> p AND 0xf \<noteq> 8 \<and> p AND 0xf \<noteq> 9"
    if "r = HV_SUCCESS" "reg = HV_REG_CPSR" "g_vm_el2 g"
    using gpr.set_get [OF t(1) [unfolded that(1)]] that pstate_not_el2 [of v]
    by (auto simp: get reg_keeps_def)
  show ?thesis
    using Some ok bad cpsr gpr.set_other [OF t(1)] gpr.set_get [of "g_vm_el2 g" reg v "g_vcpus g n" t] t(1)
    by (auto simp: get) (auto simp: t(2) fun_eq_iff)
qed

definition one_vcpu :: "VcpuSlot \<Rightarrow> ohv_vm_state" where
  "one_vcpu s = el2_vm\<lparr>g_vcpus := (\<lambda>_. new_VcpuSlot)(0 := s\<lparr>used := True\<rparr>)\<rparr>"

lemma one_vcpu_owned: "owned_vcpu me (one_vcpu s) 0 = Some 0"
  by (simp add: owned_vcpu_def find_vcpu_def one_vcpu_def el2_vm_def initial_state_def kMaxVcpuIds_def)

text \<open>The witness: a guest hypervisor's program status set to EL2h with the flags on.\<close>

theorem register_write_read_witness:
  "\<exists>g'. hv_vcpu_set_reg 5 (one_vcpu new_VcpuSlot) 0 34 0x600003c9 = (HV_SUCCESS, g')
     \<and> hv_vcpu_get_reg 5 g' 0 34 True = (HV_SUCCESS, Some 0x600003c5)"
proof -
  obtain r g' where s: "hv_vcpu_set_reg 5 (one_vcpu new_VcpuSlot) 0 34 0x600003c9 = (r, g')" by force
  note p = register_write_read [OF s]
  have "reg_keeps (g_vm_el2 (one_vcpu new_VcpuSlot)) 34 0x600003c9 = 0x600003c5"
    by (simp add: reg_keeps_def masks pstate_of_def one_vcpu_def el2_vm_def)
  with p s show ?thesis by (simp add: one_vcpu_owned masks)
qed

section \<open>The system registers\<close>

text \<open>What a caller may rely on of the sync trap for a word that has been written: it succeeds
  and leaves the word as it is.\<close>

definition sync_keeps :: "world \<Rightarrow> nat \<Rightarrow> bool" where
  "sync_keeps w off \<longleftrightarrow>
     (\<forall>m. fst (w_sync w m) = HV_SUCCESS \<and> rd64 (snd (w_sync w m)) off = rd64 m off)"

definition word_ok :: "nat option \<Rightarrow> bool" where
  "word_ok o' \<longleftrightarrow> (case o' of None \<Rightarrow> True | Some off \<Rightarrow>
     (off + 8 \<le> OHV_RW_STATE_DIRTY \<or> OHV_RW_STATE_DIRTY + 8 \<le> off)
     \<and> (off + 8 \<le> ctl_vmkeyhi_el2 \<or> ctl_vmkeylo_el2 + 8 \<le> off))"

definition raw_ok :: "SysRegDesc \<Rightarrow> bool" where
  "raw_ok d \<longleftrightarrow> (if kind d = 6 then reg_index d < 306 \<or> 321 \<le> reg_index d else True)"

lemma raw_descs_apart: "list_all raw_ok all_descs"
proof -
  have "list_all raw_ok kAppleTable" by (simp add: kAppleTable_def raw_ok_def)
  moreover have "list_all raw_ok kEl2Table" by (simp add: kEl2Table_def raw_ok_def layout)
  moreover have "list_all raw_ok kTable" by (simp add: kTable_def raw_ok_def)
  ultimately show ?thesis by (simp add: all_descs_def)
qed

lemma sysreg_word_ok:
  assumes "sysreg_lookup enc = Some d" and "desc_offset d = Some off"
  shows "word_ok (Some off)"
proof -
  from sysreg_lookup_in [OF assms(1)] have d: "d \<in> set all_descs" ..
  with all_descs_ok raw_descs_apart have ok: "desc_ok d" "raw_ok d" by (simp_all add: list_all_iff)
  from assms(2) obtain b n where r: "kind_region (kind d) = Some (b, n)" "off = b + 8 * reg_index d"
    by (auto simp: desc_offset_def)
  with ok(1) have "reg_index d < n" by (simp add: desc_ok_def)
  with r ok(2) show ?thesis
    by (auto simp: raw_ok_def kind_region_def word_ok_def layout split: if_splits)
qed

lemma write_word_reads:
  "word_ok (Some off) \<Longrightarrow> ctx_rd (write_word cfg d off enc v s) off = written_value enc v"
  by (auto simp: write_word_def vmkey_mirror_def word_ok_def Let_def layout)

lemma write_word_frame:
  "word_ok (Some a) \<Longrightarrow> a + 8 \<le> off \<or> off + 8 \<le> a \<Longrightarrow> ctx_rd (write_word cfg d off enc v s) a = ctx_rd s a"
  by (auto simp: write_word_def vmkey_mirror_def word_ok_def Let_def layout)

lemma sync_ctx_keeps:
  assumes "sync_keeps w off" and "sync_ctx w s = (r, s')"
  shows "r = HV_SUCCESS \<and> ctx_rd s' off = ctx_rd s off"
proof -
  obtain a m where m: "w_sync w (ctx s) = (a, m)" by force
  from assms(1) have "fst (w_sync w (ctx s)) = HV_SUCCESS
      \<and> rd64 (snd (w_sync w (ctx s))) off = rd64 (ctx s) off" by (simp add: sync_keeps_def)
  with m assms(2) show ?thesis by (auto simp: sync_ctx_def ctx_rd_def)
qed

lemma sysreg_word_read:
  assumes "sync_keeps w off"
  shows "\<exists>s'. sysreg_word w d off enc None s = (HV_SUCCESS, Some (ctx_rd s off), s')"
proof (cases "sync_wanted d s")
  case True
  obtain r s' where y: "sync_ctx w s = (r, s')" by force
  with sync_ctx_keeps [OF assms y] True show ?thesis by (simp add: sysreg_word_def)
qed (simp add: sysreg_word_def)

lemma load_id_regs_again:
  "load_id_regs w st s = (st', s') \<Longrightarrow> id_regs_loaded s'"
  by (auto simp: load_id_regs_def Let_def split: if_splits)

text \<open>A system register the table knows reads back what was written to it: a write is
  accepted, and the next read gives the value -- with the two bits CPTR_EL2 always keeps -- for
  the words of the context, the shadow and the ID registers alike.  The exception is the
  identification encodings that have no slot: their write is accepted and dropped, and they
  read as zero.  An encoding the table does not know is refused with nothing changed.\<close>

theorem sysreg_write_read:
  assumes "\<And>d off. sysreg_lookup enc = Some d \<Longrightarrow> desc_offset d = Some off \<Longrightarrow> sync_keeps w off"
  shows "case sysreg_access w enc (Some v) st s of (r, x, st1, s1) \<Rightarrow>
     (case sysreg_lookup enc of
        None \<Rightarrow> r = HV_UNSUPPORTED \<and> st1 = st \<and> s1 = s
      | Some d \<Rightarrow> r = HV_SUCCESS \<and>
          (\<exists>st2 s2. sysreg_access w enc None st1 s1 =
             (HV_SUCCESS, Some (if kind d = 5 then (if ohv_id_slot enc = None then 0 else v)
                                else if kind d = 7 then v else written_value enc v), st2, s2)))"
proof (cases "sysreg_lookup enc")
  case None
  then show ?thesis by (simp add: sysreg_access_def)
next
  case (Some d)
  consider "kind d = 5" | "kind d = 7" | off where "kind d \<noteq> 5" "kind d \<noteq> 7" "desc_offset d = Some off"
    using sysreg_lookup_in [OF Some] all_descs_ok
    by (force simp: list_all_iff desc_ok_def desc_offset_def split: option.splits)
  then show ?thesis
  proof cases
    case 1
    show ?thesis
    proof (cases "ohv_id_slot enc")
      case (Some sl)
      obtain st1 s1 where l: "load_id_regs w st s = (st1, s1)" by force
      from load_id_regs_again [OF l]
      have "load_id_regs w st1 (s1\<lparr>id_regs := (id_regs s1)(sl := v)\<rparr>)
          = (st1, s1\<lparr>id_regs := (id_regs s1)(sl := v)\<rparr>)"
        by (simp add: load_id_regs_def)
      with 1 \<open>sysreg_lookup enc = Some d\<close> Some l show ?thesis
        by (simp add: sysreg_access_def sysreg_id_def)
    qed (use 1 Some in \<open>simp add: sysreg_access_def sysreg_id_def\<close>)
  next
    case 2
    with sysreg_lookup_in [OF Some] all_descs_ok have "reg_index d < 32"
      by (auto simp: list_all_iff desc_ok_def kind_region_def)
    with 2 Some show ?thesis by (simp add: sysreg_access_def sysreg_shadow_def)
  next
    case 3
    note k = assms [OF Some 3(3)]
    obtain r s1 where y: "(if sync_wanted d s then sync_ctx w s else (HV_SUCCESS, s)) = (r, s1)"
      by force
    have "r = HV_SUCCESS" using y sync_ctx_keeps [OF k] by (auto split: if_splits)
    with y have wr: "sysreg_word w d off enc (Some v) s
        = (HV_SUCCESS, None, write_word (w_cfg w) d off enc v s1)"
      by (simp add: sysreg_word_def)
    obtain s2 where "sysreg_word w d off enc None (write_word (w_cfg w) d off enc v s1)
        = (HV_SUCCESS, Some (written_value enc v), s2)"
      using sysreg_word_read [OF k] write_word_reads [OF sysreg_word_ok [OF Some 3(3)]] by metis
    with 3 Some wr show ?thesis by (simp add: sysreg_access_def)
  qed
qed

text \<open>The witness: the exception vector, on a kernel whose sync changes nothing.\<close>

theorem sysreg_write_read_witness:
  "\<exists>x st1 s1 st2 s2. sysreg_access test_world 0xc600 (Some 0xfffffff008000000) initial_statics new_VcpuSlot
       = (HV_SUCCESS, x, st1, s1)
     \<and> sysreg_access test_world 0xc600 None st1 s1 = (HV_SUCCESS, Some 0xfffffff008000000, st2, s2)"
proof -
  have l: "sysreg_lookup 0xc600 = Some (desc 0xc600 1 8 OHV_STATE_SYSREGS True)"
    by (simp add: sysreg_lookup_def sysreg_lookup_apple_def find_desc_def kAppleTable_def
        kEl2Table_def kTable_cases_def kTable_def)
  have y: "sync_keeps test_world off" for off by (simp add: sync_keeps_def test_world_def)
  obtain r x st1 s1 where a: "sysreg_access test_world 0xc600 (Some 0xfffffff008000000)
      initial_statics new_VcpuSlot = (r, x, st1, s1)" by (rule prod_cases4)
  from sysreg_write_read [where w = test_world and enc = "0xc600" and v = "0xfffffff008000000"
      and st = initial_statics and s = new_VcpuSlot, OF y]
  show ?thesis by (simp add: a l desc_def written_value_def)
qed

section \<open>Control fields, debug traps, the virtual timer\<close>

lemma field_words:
  "map (\<lambda>f. field_word (of_nat f)) [0..<19] =
     [Some ctl_hcr_el2, Some ctl_cptr_el2, Some ctl_mdcr_el2, Some ctl_vmpidr_el2, None,
      Some ctl_vpidr_el2, Some ctl_hacr_el2, Some ctl_vmkeyhi_el2, Some ctl_vmkeylo_el2,
      Some ctl_apsts_el1, None, Some ctl_hfgrtr_el2, Some ctl_hfgwtr_el2, Some ctl_hfgitr_el2,
      Some ctl_hdfgrtr_el2, Some ctl_hdfgwtr_el2, Some ctl_cnthctl_el2, Some ctl_hcrx_el2, None]"
  by (simp add: field_word_def kControlFieldOffset_def layout upt_rec word_le_nat_alt)

lemma field_word_inj:
  assumes "field_word f = Some a" and "field_word h = Some b" and "f \<noteq> h"
  shows "a + 8 \<le> b \<or> b + 8 \<le> a"
proof -
  have m: "list_all (\<lambda>x. x = None \<or> the x mod 8 = 0) kControlFieldOffset"
    by (simp add: kControlFieldOffset_def)
  have len: "length kControlFieldOffset = 18" by (simp add: kControlFieldOffset_def)
  from assms have fh: "unat f < 18" "unat h < 18" "unat f \<noteq> unat h"
    by (auto simp: field_word_def word_le_nat_alt word_unat_eq_iff not_le split: if_splits)
  from assms obtain x y where xy: "kControlFieldOffset ! unat f = Some x" "a = OHV_RW_CONTROLS + x"
    "kControlFieldOffset ! unat h = Some y" "b = OHV_RW_CONTROLS + y"
    by (auto simp: field_word_def split: if_splits)
  with m fh len have al: "x mod 8 = 0" "y mod 8 = 0"
    by (auto simp: list_all_length)
  have "x \<noteq> y"
  proof
    assume "x = y"
    have "list_all (\<lambda>i. list_all (\<lambda>j. i = j \<or> kControlFieldOffset ! i = None
        \<or> kControlFieldOffset ! i \<noteq> kControlFieldOffset ! j) [0..<18]) [0..<18]"
      by (simp add: kControlFieldOffset_def upt_rec)
    then have "unat f = unat h \<or> kControlFieldOffset ! unat f = None
        \<or> kControlFieldOffset ! unat f \<noteq> kControlFieldOffset ! unat h"
      using fh(1,2) unfolding list_all_iff by fastforce
    with fh xy \<open>x = y\<close> show False by simp
  qed
  with al have "x + 8 \<le> y \<or> y + 8 \<le> x" by presburger
  with xy show ?thesis by auto
qed

lemma field_word_dirty: "field_word f = Some a \<Longrightarrow> a + 8 \<le> OHV_RW_STATE_DIRTY"
proof -
  assume "field_word f = Some a"
  then obtain x where x: "unat f < 18" "kControlFieldOffset ! unat f = Some x" "a = OHV_RW_CONTROLS + x"
    by (auto simp: field_word_def word_le_nat_alt not_le split: if_splits)
  have "list_all (\<lambda>x. case x of None \<Rightarrow> True | Some y \<Rightarrow> y \<le> 0xd8) kControlFieldOffset"
    by (simp add: kControlFieldOffset_def)
  moreover have "Some x \<in> set kControlFieldOffset"
    using x(1,2) nth_mem [of "unat f" kControlFieldOffset] by (simp add: kControlFieldOffset_def)
  ultimately have "x \<le> 0xd8" by (auto simp: list_all_iff)
  with x show ?thesis by (simp add: layout)
qed

text \<open>C37: The private control fields: the number names the register the framework's table
  says -- field 1 is CPTR_EL2 and field 6 HACR_EL2, not the words in that place -- and 4, 10 and
  everything past 17 is refused.  A write is read back and leaves the other fields alone, except
  the guarded level, field 9, whose write is accepted and dropped.\<close>

theorem control_fields:
  "map (\<lambda>f. field_word (of_nat f)) [0..<19] =
     [Some ctl_hcr_el2, Some ctl_cptr_el2, Some ctl_mdcr_el2, Some ctl_vmpidr_el2, None,
      Some ctl_vpidr_el2, Some ctl_hacr_el2, Some ctl_vmkeyhi_el2, Some ctl_vmkeylo_el2,
      Some ctl_apsts_el1, None, Some ctl_hfgrtr_el2, Some ctl_hfgwtr_el2, Some ctl_hfgitr_el2,
      Some ctl_hdfgrtr_el2, Some ctl_hdfgwtr_el2, Some ctl_cnthctl_el2, Some ctl_hcrx_el2, None]
   \<and> (case field_set cfg f v s of (r, s') \<Rightarrow>
        r = (if field_word f = None then HV_BAD_ARGUMENT else HV_SUCCESS)
        \<and> field_get f s' =
            (if field_word f = None then (HV_BAD_ARGUMENT, None)
             else if f = 9 \<and> \<not> ohv_env cfg cfg_OHV_ALLOW_APSTS_WRITE then field_get f s
             else (HV_SUCCESS, Some v))
        \<and> (h = f \<or> field_get h s' = field_get h s))"
proof -
  have "field_get h s' = field_get h s" if "field_set cfg f v s = (r, s')" "h \<noteq> f" for r s'
    using that field_word_inj [of f _ h] field_word_dirty [of h]
    by (fastforce simp: field_set_def field_get_def split: option.splits if_splits)
  moreover have "case field_set cfg f v s of (r, s') \<Rightarrow>
        r = (if field_word f = None then HV_BAD_ARGUMENT else HV_SUCCESS)
        \<and> field_get f s' =
            (if field_word f = None then (HV_BAD_ARGUMENT, None)
             else if f = 9 \<and> \<not> ohv_env cfg cfg_OHV_ALLOW_APSTS_WRITE then field_get f s
             else (HV_SUCCESS, Some v))"
    using field_word_dirty [of f]
    by (auto simp: field_set_def field_get_def split: option.splits if_splits)
  ultimately show ?thesis using field_words by auto
qed

text \<open>With the setting that lets the guarded level be written, the fields are a register
  bank.\<close>

lemma field_word_9: "field_word 9 = Some ctl_apsts_el1"
  by (simp add: field_word_def kControlFieldOffset_def layout)

definition apsts_allowed :: "OhvCfg \<Rightarrow> OhvCfg" where
  "apsts_allowed cfg = cfg(cfg_OHV_ALLOW_APSTS_WRITE := Some ''1'')"

interpretation fields: register_bank field_get "field_set (apsts_allowed cfg)" "\<lambda>_ v. v" for cfg
proof
  show "field_get f s' = (HV_SUCCESS, Some v)"
    if "field_set (apsts_allowed cfg) f v s = (HV_SUCCESS, s')" for f v s s'
    using that field_word_dirty [of f]
    by (auto simp: field_set_def field_get_def apsts_allowed_def ohv_env_def hv_codes
        split: option.splits if_splits)
  show "field_get h s' = field_get h s"
    if "field_set (apsts_allowed cfg) f v s = (e, s')" "h \<noteq> f" for f v s e s' h
    using that field_word_inj [of f _ h] field_word_dirty [of h]
    by (fastforce simp: field_set_def field_get_def split: option.splits if_splits)
  show "s' = s" if "field_set (apsts_allowed cfg) f v s = (e, s')" "e \<noteq> HV_SUCCESS" for f v s e s'
    using that by (auto simp: field_set_def split: option.splits if_splits)
  show "fst (field_set (apsts_allowed cfg) f u t) = HV_SUCCESS"
    if "field_get f s = (HV_SUCCESS, Some v)" for f s v u t
    using that by (auto simp: field_set_def field_get_def split: option.splits if_splits)
qed

lemma ctl_bits_word:
  "off + 8 \<le> OHV_RW_STATE_DIRTY \<Longrightarrow>
     ctx_rd (ctl_bits off m on s) off = (if on then ctx_rd s off OR m else ctx_rd s off AND NOT m)"
  by (simp add: ctl_bits_def ctx_rd_upd)

lemma ctl_bits_used: "used (ctl_bits off m on s) = used s"
  by (simp add: ctl_bits_def)

text \<open>The two debug-trap switches read back as set, but on bits of MDCR_EL2 that are
  not the ones named: trapping debug exceptions moves bit 14 and never the architected TDE, bit
  8; trapping register accesses moves 9, 10 and 12 and never TDRA, bit 11.\<close>

theorem debug_trap_bits:
  assumes "owned_vcpu me g i = Some n"
  shows "(case hv_vcpu_set_trap_debug_exceptions me g i on of (r, g1) \<Rightarrow>
       r = HV_SUCCESS \<and> hv_vcpu_get_trap_debug_exceptions me g1 i True = (HV_SUCCESS, Some on)
       \<and> bit (ctx_rd (g_vcpus g1 n) ctl_mdcr_el2) 8 = bit (ctx_rd (g_vcpus g n) ctl_mdcr_el2) 8)
    \<and> (case hv_vcpu_set_trap_debug_reg_accesses me g i on of (r, g1) \<Rightarrow>
       r = HV_SUCCESS \<and> hv_vcpu_get_trap_debug_reg_accesses me g1 i True = (HV_SUCCESS, Some on)
       \<and> bit (ctx_rd (g_vcpus g1 n) ctl_mdcr_el2) 11 = bit (ctx_rd (g_vcpus g n) ctl_mdcr_el2) 11)"
proof -
  have own: "owned_vcpu me (upd_slot n (\<lambda>_. ctl_bits off m x (g_vcpus g n)) g) i = Some n" for off m x
    using assms by (auto simp: owned_vcpu_def find_vcpu_def ctl_bits_used split: option.splits if_splits)
  have b: "drop_bit k v AND 1 \<noteq> 0 \<longleftrightarrow> bit v k" for v :: u64 and k
    by (simp add: and_one_eq odd_iff_mod_2_eq_one [symmetric] bit_iff_odd_drop_bit)
  have d: "ctl_mdcr_el2 + 8 \<le> OHV_RW_STATE_DIRTY" by (simp add: layout)
  show ?thesis
    using assms unfolding hv_vcpu_set_trap_debug_exceptions_def hv_vcpu_set_trap_debug_reg_accesses_def
      hv_vcpu_get_trap_debug_exceptions_def hv_vcpu_get_trap_debug_reg_accesses_def
    by (cases on) (simp_all add: slot_set_def slot_get_def own b ctl_bits_word [OF d] bit_simps)
qed

theorem debug_trap_bits_witness:
  "\<exists>g1. hv_vcpu_set_trap_debug_exceptions 5 (one_vcpu new_VcpuSlot) 0 True = (HV_SUCCESS, g1)
     \<and> hv_vcpu_get_trap_debug_exceptions 5 g1 0 True = (HV_SUCCESS, Some True)
     \<and> \<not> bit (ctx_rd (g_vcpus g1 0) ctl_mdcr_el2) 8"
proof -
  obtain r g1 where s: "hv_vcpu_set_trap_debug_exceptions 5 (one_vcpu new_VcpuSlot) 0 True = (r, g1)"
    by force
  have "ctx_rd (g_vcpus (one_vcpu new_VcpuSlot) 0) ctl_mdcr_el2 = 0"
    by (simp add: one_vcpu_def ctx_rd_def new_VcpuSlot_def)
  with debug_trap_bits [OF one_vcpu_owned [of 5 new_VcpuSlot], where on = True] s show ?thesis by auto
qed

end
