(* ===== verification/Ohv_Irq.thy ===== *)
theory Ohv_Irq
  imports Ohv_Vcpu
begin

text \<open>
  The guest's timers and its interrupt lines, from \<open>src/ohv_vcpu.cpp\<close>: where the monitor images
  are (\<open>ohv_note_image_band\<close>), when a virtual FIQ or IRQ may be raised, the two levels HCR_EL2.VF
  (bit 6) and HCR_EL2.VI (bit 7), the expiry of the two timers before every entry into the guest,
  and the calls by which the VMM raises interrupts and reports a parked core.

  The lemmas show when a level stands: only at a moment the guest takes it at once, once the
  monitor is known.
\<close>

section \<open>Settings\<close>

definition ohv_timer_gate_mode :: "OhvCfg \<Rightarrow> u32" where
  "ohv_timer_gate_mode cfg = ucast (cfg_num cfg cfg_OHV_TIMER_GATE 4)"

definition ohv_timer_irq_vcpus :: "OhvCfg \<Rightarrow> u64" where
  "ohv_timer_irq_vcpus cfg = cfg_num cfg cfg_OHV_TIMER_IRQ_VCPUS 0"

section \<open>The monitor images\<close>

definition image_band :: "u64 \<Rightarrow> u64" where "image_band pc = pc AND NOT 0xfffffff"

text \<open>The shared band only goes down, zero standing for none; the loop around the
  compare-and-exchange ends with this value.\<close>

definition lower_band :: "u64 \<Rightarrow> u64 \<Rightarrow> u64" where
  "lower_band band seen = (if seen \<noteq> 0 \<and> seen \<le> band then seen else band)"

definition ohv_note_image_band :: "ohv_statics \<Rightarrow> VcpuSlot \<Rightarrow> ohv_statics \<times> VcpuSlot" where
  "ohv_note_image_band st s =
     (let s1 = (if sptm_base s = 0 then s\<lparr>sptm_base := g_monitor_band st\<rparr> else s);
          pc = slot_pc s; band = image_band pc
      in if pc < 0xfffffff000000000 then (st, s1)
         else if sptm_base s1 = 0 \<or> band < sptm_base s1
         then (st\<lparr>g_monitor_band := lower_band band (g_monitor_band st)\<rparr>, s1\<lparr>sptm_base := band\<rparr>)
         else (st, s1))"

definition ohv_guest_in_monitor :: "VcpuSlot \<Rightarrow> bool" where
  "ohv_guest_in_monitor s \<longleftrightarrow>
     sptm_base s \<noteq> 0 \<and> sptm_base s \<le> slot_pc s \<and> slot_pc s < sptm_base s + 0x20000000"

section \<open>When a level may be raised\<close>

definition ohv_fiq_takeable :: "VcpuSlot \<Rightarrow> bool" where
  "ohv_fiq_takeable s \<longleftrightarrow>
     in_wfx s \<or> (\<not> ohv_guest_in_monitor s \<and> slot_cpsr s AND bit_mask 6 = 0)"
definition ohv_irq_takeable :: "VcpuSlot \<Rightarrow> bool" where
  "ohv_irq_takeable s \<longleftrightarrow>
     in_wfx s \<or> (\<not> ohv_guest_in_monitor s \<and> slot_cpsr s AND bit_mask 7 = 0)"

definition ohv_timer_fiq_wanted :: "OhvCfg \<Rightarrow> VcpuSlot \<Rightarrow> bool" where
  "ohv_timer_fiq_wanted cfg s =
     (let v = timer_fired_v s; p = timer_fired_p s; mode = ohv_timer_gate_mode cfg in
      if mode = 1 then v \<or> p
      else if mode = 2 then (v \<or> p) \<and> \<not> guest_at_el2 s \<and> \<not> nv_off_for_geret s
      else if mode = 3 then (v \<or> p) \<and> \<not> ohv_guest_in_monitor s
      else if mode = 0
      then (p \<and> vm_tmr_fiq_ena s AND 1 \<noteq> 0) \<or> (v \<and> vm_tmr_fiq_ena s AND 2 \<noteq> 0)
      else if \<not> (v \<or> p) then False
      else if sptm_base s = 0 then True
      else ohv_fiq_takeable s)"

definition ohv_timer_as_irq :: "OhvCfg \<Rightarrow> VcpuSlot \<Rightarrow> bool" where
  "ohv_timer_as_irq cfg s \<longleftrightarrow>
     slot_id s < 64 \<and> drop_bit (unat (slot_id s)) (ohv_timer_irq_vcpus cfg) AND 1 \<noteq> 0"

section \<open>The two levels\<close>

text \<open>Bit \<open>n\<close> of HCR_EL2, written only when it changes.\<close>

definition put_level :: "nat \<Rightarrow> bool \<Rightarrow> VcpuSlot \<Rightarrow> VcpuSlot" where
  "put_level n up s =
     (let hcr = ctx_rd s ctl_hcr_el2; want = (if up then bit_mask n else 0) in
      if hcr AND bit_mask n = want then s
      else ctx_dirty OHV_STATE_CONTROLS (ctx_wr ctl_hcr_el2 ((hcr AND NOT (bit_mask n)) OR want) s))"

definition want_irq :: "OhvCfg \<Rightarrow> VcpuSlot \<Rightarrow> bool" where
  "want_irq cfg s \<longleftrightarrow>
     (vmm_irq s \<or> (ohv_timer_as_irq cfg s \<and> ohv_timer_fiq_wanted cfg s))
     \<and> (sptm_base s = 0 \<or> ohv_env cfg cfg_OHV_IRQ_UNGATED \<or> ohv_irq_takeable s)"

definition ohv_set_irq_level :: "OhvCfg \<Rightarrow> VcpuSlot \<Rightarrow> VcpuSlot" where
  "ohv_set_irq_level cfg s = put_level 7 (want_irq cfg s) s"

definition want_vmm_fiq :: "OhvCfg \<Rightarrow> VcpuSlot \<Rightarrow> bool" where
  "want_vmm_fiq cfg s \<longleftrightarrow>
     vmm_fiq s \<and> (sptm_base s = 0 \<or> ohv_env cfg cfg_OHV_IPI_UNGATED \<or> ohv_fiq_takeable s)"

definition ohv_set_fiq_level :: "OhvCfg \<Rightarrow> VcpuSlot \<Rightarrow> VcpuSlot" where
  "ohv_set_fiq_level cfg s =
     (let s1 = s\<lparr>timer_fiq := (ohv_timer_fiq_wanted cfg s \<and> \<not> ohv_timer_as_irq cfg s)\<rparr>
      in put_level 6 (want_vmm_fiq cfg s1 \<or> timer_fiq s1) s1)"

section \<open>Calls of the VMM\<close>

definition set_parked :: "OhvCfg \<Rightarrow> bool \<Rightarrow> VcpuSlot \<Rightarrow> VcpuSlot" where
  "set_parked cfg parked s =
     (if in_wfx s = parked then s
      else ohv_set_irq_level cfg (ohv_set_fiq_level cfg (s\<lparr>in_wfx := parked\<rparr>)))"

definition ohv_vcpu_set_parked :: "OhvCfg \<Rightarrow> nat \<Rightarrow> u64 \<Rightarrow> bool \<Rightarrow> ohv_vm_state \<Rightarrow> ohv_vm_state" where
  "ohv_vcpu_set_parked cfg me i parked g =
     (case owned_vcpu me g i of None \<Rightarrow> g | Some n \<Rightarrow> upd_slot n (set_parked cfg parked) g)"

definition HV_INTERRUPT_TYPE_IRQ :: u32 where [masks]: "HV_INTERRUPT_TYPE_IRQ = 0"
definition HV_INTERRUPT_TYPE_FIQ :: u32 where [masks]: "HV_INTERRUPT_TYPE_FIQ = 1"

definition pending_bit :: "u32 \<Rightarrow> u64" where
  "pending_bit t = (if t = HV_INTERRUPT_TYPE_FIQ then bit_mask 6 else bit_mask 7)"

definition hv_vcpu_get_pending_interrupt ::
  "nat \<Rightarrow> ohv_vm_state \<Rightarrow> u64 \<Rightarrow> u32 \<Rightarrow> bool \<Rightarrow> hv_return \<times> bool option" where
  "hv_vcpu_get_pending_interrupt me g i t p =
     slot_get me g i p (\<lambda>s. (HV_SUCCESS, Some (ctx_rd s ctl_hcr_el2 AND pending_bit t \<noteq> 0)))"

definition set_pending :: "OhvCfg \<Rightarrow> u32 \<Rightarrow> bool \<Rightarrow> VcpuSlot \<Rightarrow> VcpuSlot" where
  "set_pending cfg t pending s =
     (if t = HV_INTERRUPT_TYPE_FIQ then ohv_set_fiq_level cfg (s\<lparr>vmm_fiq := pending\<rparr>)
      else ohv_set_irq_level cfg (s\<lparr>vmm_irq := pending\<rparr>))"

definition hv_vcpu_set_pending_interrupt ::
  "OhvCfg \<Rightarrow> nat \<Rightarrow> ohv_vm_state \<Rightarrow> u64 \<Rightarrow> u32 \<Rightarrow> bool \<Rightarrow> hv_return \<times> ohv_vm_state" where
  "hv_vcpu_set_pending_interrupt cfg me g i t pending =
     slot_set me g i (\<lambda>s. (HV_SUCCESS, set_pending cfg t pending s))"

section \<open>The timers\<close>

definition OHV_CNT_ENABLE :: u64 where [masks]: "OHV_CNT_ENABLE = bit_mask 0"
definition OHV_CNT_IMASK :: u64 where [masks]: "OHV_CNT_IMASK = bit_mask 1"
definition OHV_CNT_ISTATUS :: u64 where [masks]: "OHV_CNT_ISTATUS = bit_mask 2"

text \<open>A compare value has passed when the signed distance says so.\<close>

definition timer_due :: "u64 \<Rightarrow> u64 \<Rightarrow> bool" where
  "timer_due now cval \<longleftrightarrow> 0 \<le> sint (now - cval)"

definition expire_timer :: "bool \<Rightarrow> u64 \<Rightarrow> VcpuSlot \<Rightarrow> bool \<times> VcpuSlot" where
  "expire_timer physical now s =
     (let ctl = timer_ctl physical s; cval = ctx_rd s (timer_cval_off physical) in
      if ctl AND OHV_CNT_ENABLE \<noteq> 0
      then (if timer_due now cval
            then (ctl AND OHV_CNT_IMASK = 0,
                  if ctl AND OHV_CNT_ISTATUS = 0
                  then ctx_dirty OHV_STATE_SYSREGS (set_timer_ctl physical (ctl OR OHV_CNT_ISTATUS) s)
                  else s)
            else (False,
                  if ctl AND OHV_CNT_ISTATUS \<noteq> 0
                  then ctx_dirty OHV_STATE_SYSREGS
                         (set_timer_ctl physical (ctl AND NOT OHV_CNT_ISTATUS) s)
                  else s))
      else (False, s))"

definition ohv_expire_timers :: "world \<Rightarrow> ohv_statics \<Rightarrow> VcpuSlot \<Rightarrow> ohv_statics \<times> VcpuSlot" where
  "ohv_expire_timers w st s =
     (let (st1, s1) = ohv_note_image_band st s;
          (fv, s2) = expire_timer False (w_now w) s1;
          s3 = s2\<lparr>timer_fired_v := fv\<rparr>;
          (fp, s4) = expire_timer True (w_now w) s3;
          s5 = s4\<lparr>timer_fired_p := fp\<rparr>
      in (st1, ohv_set_irq_level (w_cfg w) (ohv_set_fiq_level (w_cfg w) s5)))"

section \<open>Frames\<close>

lemma irq_field_upd [simp]:
  "ctx_rd (s\<lparr>sptm_base := b\<rparr>) a = ctx_rd s a" "ctx_rd (s\<lparr>timer_fiq := x\<rparr>) a = ctx_rd s a"
  "ctx_rd (s\<lparr>timer_fired_v := x\<rparr>) a = ctx_rd s a" "ctx_rd (s\<lparr>timer_fired_p := x\<rparr>) a = ctx_rd s a"
  "ctx_rd (s\<lparr>vmm_fiq := x\<rparr>) a = ctx_rd s a" "ctx_rd (s\<lparr>vmm_irq := x\<rparr>) a = ctx_rd s a"
  "ctx_rd (s\<lparr>in_wfx := x\<rparr>) a = ctx_rd s a"
  "slot_cpsr (s\<lparr>sptm_base := b\<rparr>) = slot_cpsr s" "slot_cpsr (s\<lparr>timer_fiq := x\<rparr>) = slot_cpsr s"
  "slot_cpsr (s\<lparr>timer_fired_v := x\<rparr>) = slot_cpsr s" "slot_cpsr (s\<lparr>timer_fired_p := x\<rparr>) = slot_cpsr s"
  "slot_cpsr (s\<lparr>vmm_fiq := x\<rparr>) = slot_cpsr s" "slot_cpsr (s\<lparr>vmm_irq := x\<rparr>) = slot_cpsr s"
  "slot_cpsr (s\<lparr>in_wfx := x\<rparr>) = slot_cpsr s"
  by (simp_all add: ctx_rd_def slot_cpsr_def)

text \<open>The parts of a slot the gates look at, and that only \<open>ctx\<close> changes under a level write.\<close>

definition gate_view ::
  "VcpuSlot \<Rightarrow> bool \<times> u64 \<times> u64 \<times> u32 \<times> bool \<times> bool \<times> bool \<times> bool \<times> bool \<times> bool \<times> u64 \<times> u64" where
  "gate_view s = (in_wfx s, sptm_base s, slot_pc s, slot_cpsr s, vmm_fiq s, vmm_irq s,
     timer_fired_v s, timer_fired_p s, guest_at_el2 s, nv_off_for_geret s, vm_tmr_fiq_ena s, slot_id s)"

lemma gate_view_want:
  assumes "gate_view s = gate_view t"
  shows "ohv_fiq_takeable s = ohv_fiq_takeable t" and "ohv_irq_takeable s = ohv_irq_takeable t"
    and "ohv_timer_fiq_wanted c s = ohv_timer_fiq_wanted c t"
    and "ohv_timer_as_irq c s = ohv_timer_as_irq c t"
    and "want_irq c s = want_irq c t" and "want_vmm_fiq c s = want_vmm_fiq c t"
  using assms
  by (simp_all add: gate_view_def ohv_fiq_takeable_def ohv_irq_takeable_def ohv_guest_in_monitor_def
      ohv_timer_fiq_wanted_def ohv_timer_as_irq_def want_irq_def want_vmm_fiq_def)

lemma gate_view_put_level [simp]: "gate_view (put_level n up s) = gate_view s"
  by (simp add: gate_view_def put_level_def Let_def slot_pc_def layout)
     (simp add: ctx_wr_def ctx_dirty_def)

lemma gate_view_timer_fiq [simp]: "gate_view (s\<lparr>timer_fiq := x\<rparr>) = gate_view s"
  by (simp add: gate_view_def slot_pc_def)

lemma put_level_bit:
  assumes "n < 64"
  shows "bit (ctx_rd (put_level n up s) ctl_hcr_el2) m =
     (if m = n then up else bit (ctx_rd s ctl_hcr_el2) m)"
proof -
  let ?h = "ctx_rd s ctl_hcr_el2"
  have z: "(bit_mask n :: u64) \<noteq> 0" using assms by simp
  have same: "?h AND bit_mask n = (if up then bit_mask n else 0) \<longleftrightarrow> bit ?h n = up"
  proof
    assume e: "?h AND bit_mask n = (if up then bit_mask n else 0)"
    show "bit ?h n = up"
    proof (cases up)
      case True
      with e z have "?h AND bit_mask n \<noteq> 0" by (simp only: if_True not_False_eq_True)
      with True and_bit_mask_eq_0 [of ?h n] show ?thesis by blast
    next
      case False
      with e and_bit_mask_eq_0 [of ?h n] show ?thesis by (simp only: if_False)
    qed
  next
    assume e: "bit ?h n = up"
    show "?h AND bit_mask n = (if up then bit_mask n else 0)"
    proof (cases up)
      case True
      with e have b: "bit ?h n" by simp
      have "?h AND bit_mask n = bit_mask n"
        by (rule bit_word_eqI) (use b in \<open>auto simp: bit_simps bit_1_iff\<close>)
      with True show ?thesis by simp
    next
      case False
      with e and_bit_mask_eq_0 [of ?h n] show ?thesis by (simp only: if_False not_False_eq_True)
    qed
  qed
  have w: "bit (ctx_rd (ctx_dirty b (ctx_wr ctl_hcr_el2 v s)) ctl_hcr_el2) m = bit v m" for b v
    by (simp add: layout)
  have v: "bit ((?h AND NOT (bit_mask n)) OR (if up then bit_mask n else 0)) m
      = (if m = n then up else bit ?h m)"
    using assms bit_imp_le_length [of ?h m] by (cases up) (auto simp: bit_simps)
  show ?thesis
  proof (cases "bit ?h n = up")
    case True
    with same show ?thesis by (auto simp: put_level_def)
  next
    case False
    with same v show ?thesis by (simp add: put_level_def Let_def w)
  qed
qed

section \<open>The gates\<close>

text \<open>A level is what is wanted, as a function of the part of the slot the gates see.\<close>

lemma set_irq_level_bits:
  "bit (ctx_rd (ohv_set_irq_level c s) ctl_hcr_el2) m =
     (if m = 7 then want_irq c s else bit (ctx_rd s ctl_hcr_el2) m)"
  by (simp add: ohv_set_irq_level_def put_level_bit)

definition want_fiq :: "OhvCfg \<Rightarrow> VcpuSlot \<Rightarrow> bool" where
  "want_fiq c s \<longleftrightarrow>
     want_vmm_fiq c s \<or> (ohv_timer_fiq_wanted c s \<and> \<not> ohv_timer_as_irq c s)"

lemma set_fiq_level_bits:
  "bit (ctx_rd (ohv_set_fiq_level c s) ctl_hcr_el2) m =
     (if m = 6 then want_fiq c s else bit (ctx_rd s ctl_hcr_el2) m)"
proof -
  have "want_vmm_fiq c (s\<lparr>timer_fiq := x\<rparr>) = want_vmm_fiq c s" for x
    by (rule gate_view_want) simp
  then show ?thesis by (simp add: ohv_set_fiq_level_def put_level_bit want_fiq_def)
qed

lemma gate_view_levels [simp]:
  "gate_view (ohv_set_irq_level c s) = gate_view s" "gate_view (ohv_set_fiq_level c s) = gate_view s"
  by (simp_all add: ohv_set_irq_level_def ohv_set_fiq_level_def Let_def)

lemma want_fiq_view: "gate_view s = gate_view t \<Longrightarrow> want_fiq c s = want_fiq c t"
  by (simp add: want_fiq_def gate_view_want [of s t])

lemma expire_levels:
  assumes "ohv_expire_timers w st s = (st', s')"
  shows "bit (ctx_rd s' ctl_hcr_el2) 6 = want_fiq (w_cfg w) s'"
    and "bit (ctx_rd s' ctl_hcr_el2) 7 = want_irq (w_cfg w) s'"
proof -
  from assms obtain t where
    t: "s' = ohv_set_irq_level (w_cfg w) (ohv_set_fiq_level (w_cfg w) t)"
    by (auto simp: ohv_expire_timers_def Let_def split: prod.splits)
  have g: "gate_view s' = gate_view t" by (simp add: t)
  show "bit (ctx_rd s' ctl_hcr_el2) 6 = want_fiq (w_cfg w) s'"
    using want_fiq_view [OF g, of "w_cfg w"] by (simp add: t set_irq_level_bits set_fiq_level_bits)
  show "bit (ctx_rd s' ctl_hcr_el2) 7 = want_irq (w_cfg w) s'"
    using gate_view_want(5) [OF g, of "w_cfg w"] gate_view_want(5) [of "ohv_set_fiq_level (w_cfg w) t" t]
    by (simp add: t set_irq_level_bits)
qed

text \<open>C6: No interrupt level stands across a guarded entry.  With the default settings,
  once the monitor's place is known to the vCPU, the levels the guest is entered with after the
  timers have been looked at are up only when the guest takes the interrupt at once: it is
  parked on a wait instruction, or it is outside the monitor images with the mask bit for that
  line (F for the FIQ, I for the IRQ) clear -- whether the VMM, a timer, or both asked.\<close>

theorem levels_only_when_takeable:
  assumes "ohv_expire_timers w st s = (st', s')"
    and "ohv_timer_gate_mode (w_cfg w) = 4"
    and "\<not> ohv_env (w_cfg w) cfg_OHV_IRQ_UNGATED" and "\<not> ohv_env (w_cfg w) cfg_OHV_IPI_UNGATED"
    and "sptm_base s' \<noteq> 0"
  shows "(bit (ctx_rd s' ctl_hcr_el2) 6 \<longrightarrow>
        in_wfx s' \<or> (\<not> ohv_guest_in_monitor s' \<and> \<not> bit (slot_cpsr s') 6))
    \<and> (bit (ctx_rd s' ctl_hcr_el2) 7 \<longrightarrow>
        in_wfx s' \<or> (\<not> ohv_guest_in_monitor s' \<and> \<not> bit (slot_cpsr s') 7))"
proof -
  have f: "want_fiq (w_cfg w) s' \<Longrightarrow> ohv_fiq_takeable s'"
    using assms(2-5)
    by (auto simp: want_fiq_def want_vmm_fiq_def ohv_timer_fiq_wanted_def Let_def split: if_splits)
  have i: "want_irq (w_cfg w) s' \<Longrightarrow> ohv_irq_takeable s'"
    using assms(3-5) by (auto simp: want_irq_def)
  note b = and_bit_mask_eq_0 [of "slot_cpsr s'" 6] and_bit_mask_eq_0 [of "slot_cpsr s'" 7]
  show ?thesis
    using expire_levels [OF assms(1)] f i b unfolding ohv_fiq_takeable_def ohv_irq_takeable_def
    by blast
qed

section \<open>Expiry\<close>

lemma timer_ctl_moves [simp]:
  "timer_ctl p (ctx_dirty b s) = timer_ctl p s" "timer_ctl p (s\<lparr>timer_fired_v := x\<rparr>) = timer_ctl p s"
  "timer_ctl p (s\<lparr>timer_fired_p := x\<rparr>) = timer_ctl p s" "timer_ctl p (s\<lparr>sptm_base := y\<rparr>) = timer_ctl p s"
  "timer_ctl p (s\<lparr>timer_fiq := x\<rparr>) = timer_ctl p s"
  by (simp_all add: timer_ctl_def layout)

lemma timer_ctl_set [simp]:
  "timer_ctl p (set_timer_ctl q v s) = (if p = q then v else timer_ctl p s)"
  by (simp add: timer_ctl_def set_timer_ctl_def)

lemma timer_ctl_put_level [simp]: "timer_ctl p (put_level n up s) = timer_ctl p s"
  by (simp add: put_level_def Let_def timer_ctl_def layout)

lemma cval_moves [simp]:
  "ctx_rd (ctx_dirty b s) (timer_cval_off p) = ctx_rd s (timer_cval_off p)"
  "ctx_rd (set_timer_ctl q v s) (timer_cval_off p) = ctx_rd s (timer_cval_off p)"
  "ctx_rd (put_level n up s) (timer_cval_off p) = ctx_rd s (timer_cval_off p)"
  by (auto simp: timer_cval_off_def set_timer_ctl_def put_level_def Let_def layout)

lemma gate_view_set_timer [simp]:
  "gate_view (set_timer_ctl q v s) = gate_view s" "gate_view (ctx_dirty b s) = gate_view s"
  by (simp_all add: gate_view_def)
     (simp_all add: set_timer_ctl_def ctx_wr_def ctx_dirty_def slot_cpsr_def layout)

definition timer_fires :: "bool \<Rightarrow> u64 \<Rightarrow> VcpuSlot \<Rightarrow> bool" where
  "timer_fires p now s \<longleftrightarrow>
     bit (timer_ctl p s) 0 \<and> timer_due now (ctx_rd s (timer_cval_off p)) \<and> \<not> bit (timer_ctl p s) 1"

definition timer_status :: "bool \<Rightarrow> u64 \<Rightarrow> VcpuSlot \<Rightarrow> u64" where
  "timer_status p now s =
     (let c = timer_ctl p s in
      if bit c 0 then (if timer_due now (ctx_rd s (timer_cval_off p)) then c OR bit_mask 2
                       else c AND NOT (bit_mask 2)) else c)"

lemma or_bit_set: "bit (c :: u64) n \<Longrightarrow> c OR bit_mask n = c"
  by (rule bit_word_eqI) (auto simp: bit_simps)

lemma andnot_bit_clear: "\<not> bit (c :: u64) n \<Longrightarrow> c AND NOT (bit_mask n) = c"
  by (rule bit_word_eqI) (auto simp: bit_simps)

lemma expire_timer_spec:
  assumes "expire_timer p now s = (f, s')"
  shows "f = timer_fires p now s" and "timer_ctl p s' = timer_status p now s"
    and "q \<noteq> p \<Longrightarrow> timer_ctl q s' = timer_ctl q s"
    and "ctx_rd s' (timer_cval_off r) = ctx_rd s (timer_cval_off r)" and "gate_view s' = gate_view s"
proof -
  note b = and_bit_mask_eq_0 [of "timer_ctl p s" 0] and_bit_mask_eq_0 [of "timer_ctl p s" 1]
    and_bit_mask_eq_0 [of "timer_ctl p s" 2]
  note a = assms [unfolded expire_timer_def Let_def OHV_CNT_ENABLE_def OHV_CNT_IMASK_def
      OHV_CNT_ISTATUS_def b]
  from a show "f = timer_fires p now s" "q \<noteq> p \<Longrightarrow> timer_ctl q s' = timer_ctl q s"
    "ctx_rd s' (timer_cval_off r) = ctx_rd s (timer_cval_off r)" "gate_view s' = gate_view s"
    by (auto simp: timer_fires_def split: if_splits)
  from a show "timer_ctl p s' = timer_status p now s"
    unfolding timer_status_def Let_def
    using or_bit_set [of "timer_ctl p s" 2] andnot_bit_clear [of "timer_ctl p s" 2]
    by (auto split: if_splits)
qed

lemma note_band_frame:
  assumes "ohv_note_image_band st s = (st', s')"
  shows "timer_ctl p s' = timer_ctl p s" and "ctx_rd s' off = ctx_rd s off"
    and "\<exists>b. s' = s\<lparr>sptm_base := b\<rparr>"
proof -
  show e: "\<exists>b. s' = s\<lparr>sptm_base := b\<rparr>"
    using assms by (cases s) (auto simp: ohv_note_image_band_def Let_def split: if_splits)
  then obtain b where b: "s' = s\<lparr>sptm_base := b\<rparr>" ..
  show "timer_ctl p s' = timer_ctl p s" "ctx_rd s' off = ctx_rd s off" by (simp_all add: b)
qed

lemma expire_timers_unfold:
  assumes "ohv_expire_timers w st s = (st', s')"
  obtains s1 s2 s4 where "ohv_note_image_band st s = (st', s1)"
    "expire_timer False (w_now w) s1 = (timer_fires False (w_now w) s, s2)"
    "expire_timer True (w_now w) (s2\<lparr>timer_fired_v := timer_fires False (w_now w) s\<rparr>)
       = (timer_fires True (w_now w) s, s4)"
    "s' = ohv_set_irq_level (w_cfg w) (ohv_set_fiq_level (w_cfg w)
            (s4\<lparr>timer_fired_p := timer_fires True (w_now w) s\<rparr>))"
proof -
  obtain st1 s1 where n: "ohv_note_image_band st s = (st1, s1)" by force
  obtain fv s2 where v: "expire_timer False (w_now w) s1 = (fv, s2)" by force
  obtain fp s4 where p: "expire_timer True (w_now w) (s2\<lparr>timer_fired_v := fv\<rparr>) = (fp, s4)" by force
  have fv: "fv = timer_fires False (w_now w) s"
    using expire_timer_spec(1) [OF v] note_band_frame [OF n] by (simp add: timer_fires_def)
  have fp: "fp = timer_fires True (w_now w) s"
    using expire_timer_spec(1) [OF p] expire_timer_spec(3,4) [OF v] note_band_frame [OF n]
    by (simp add: timer_fires_def)
  show ?thesis
    by (rule that [of s1 s2 s4]) (use assms n v p fv fp in \<open>auto simp: ohv_expire_timers_def Let_def\<close>)
qed

text \<open>C10: Before every entry each timer's status says whether its compare value has
  passed, and fires exactly when it is enabled, due and not masked by its own mask bit: the
  status bit is set once due, taken back when the compare value moves into the future, left
  alone while the timer is off; and no compare value is touched.\<close>

theorem timers_expire:
  assumes "ohv_expire_timers w st s = (st', s')"
  shows "timer_fired_v s' = timer_fires False (w_now w) s
     \<and> timer_fired_p s' = timer_fires True (w_now w) s
     \<and> (\<forall>p. timer_ctl p s' = timer_status p (w_now w) s
           \<and> ctx_rd s' (timer_cval_off p) = ctx_rd s (timer_cval_off p))"
proof -
  from assms obtain s1 s2 s4 where n: "ohv_note_image_band st s = (st', s1)"
    and v: "expire_timer False (w_now w) s1 = (timer_fires False (w_now w) s, s2)"
    and p: "expire_timer True (w_now w) (s2\<lparr>timer_fired_v := timer_fires False (w_now w) s\<rparr>)
       = (timer_fires True (w_now w) s, s4)"
    and s': "s' = ohv_set_irq_level (w_cfg w) (ohv_set_fiq_level (w_cfg w)
            (s4\<lparr>timer_fired_p := timer_fires True (w_now w) s\<rparr>))"
    by (rule expire_timers_unfold)
  note f = note_band_frame [OF n]
  have lv: "timer_ctl q (ohv_set_irq_level c (ohv_set_fiq_level c u)) = timer_ctl q u"
    "ctx_rd (ohv_set_irq_level c (ohv_set_fiq_level c u)) (timer_cval_off q) = ctx_rd u (timer_cval_off q)"
    for q c u
    by (simp_all add: ohv_set_irq_level_def ohv_set_fiq_level_def Let_def)
  have st: "timer_status q now u = timer_status q now t"
    if "timer_ctl q u = timer_ctl q t" "ctx_rd u (timer_cval_off q) = ctx_rd t (timer_cval_off q)"
    for q now u t using that by (simp add: timer_status_def Let_def)
  have ctl: "timer_ctl q s' = timer_status q (w_now w) s" for q
  proof (cases q)
    case True
    have "timer_ctl True s4 = timer_status True (w_now w) (s2\<lparr>timer_fired_v := timer_fires False (w_now w) s\<rparr>)"
      by (rule expire_timer_spec(2) [OF p])
    also have "\<dots> = timer_status True (w_now w) s"
      by (rule st) (use expire_timer_spec(3,4) [OF v] f in simp_all)
    finally show ?thesis using True by (simp add: s' lv)
  next
    case False
    have "timer_ctl False s4 = timer_ctl False s2" using expire_timer_spec(3) [OF p, of False] by simp
    also have "\<dots> = timer_status False (w_now w) s"
      unfolding expire_timer_spec(2) [OF v] by (rule st) (use f in simp_all)
    finally show ?thesis using False by (simp add: s' lv)
  qed
  have cv: "ctx_rd s' (timer_cval_off q) = ctx_rd s (timer_cval_off q)" for q
    using expire_timer_spec(4) [OF p, of q] expire_timer_spec(4) [OF v, of q] f by (simp add: s' lv)
  have g: "gate_view s' = gate_view (s4\<lparr>timer_fired_p := timer_fires True (w_now w) s\<rparr>)"
    by (simp add: s')
  with expire_timer_spec(5) [OF p] ctl cv show ?thesis by (simp add: gate_view_def)
qed

text \<open>The witness for both: the virtual timer armed for 900 and looked at when the clock says
  1000, on a vCPU that knows where the monitor is and runs below it with nothing masked.\<close>

definition armed_vcpu :: VcpuSlot where
  "armed_vcpu = (ctx_wr bk_cntv_ctl_el0 1 (ctx_wr bk_cntv_cval_el0 900 new_VcpuSlot))
     \<lparr>sptm_base := 0xfffffff010000000\<rparr>"

lemma armed_vcpu_words:
  "timer_ctl False armed_vcpu = 1" "ctx_rd armed_vcpu (timer_cval_off False) = 900"
  "timer_ctl True armed_vcpu = 0" "slot_pc armed_vcpu = 0" "slot_cpsr armed_vcpu = 0"
  "\<not> in_wfx armed_vcpu" "sptm_base armed_vcpu = 0xfffffff010000000"
  "slot_id armed_vcpu = 0" "\<not> vmm_fiq armed_vcpu"
  by (simp_all add: armed_vcpu_def timer_ctl_def timer_cval_off_def layout slot_pc_def slot_cpsr_def)
     (simp_all add: new_VcpuSlot_def ctx_rd_def ctx_wr_def)

lemma armed_fires: "timer_fires False (w_now test_world) armed_vcpu"
  "timer_status False (w_now test_world) armed_vcpu = 5"
  by (simp_all add: timer_fires_def timer_status_def armed_vcpu_words timer_due_def test_world_def)

lemma expire_gate_view:
  assumes "ohv_expire_timers w st s = (st', s')" and "ohv_note_image_band st s = (st', s1)"
  shows "gate_view s' = gate_view (s1\<lparr>timer_fired_v := timer_fires False (w_now w) s,
                                      timer_fired_p := timer_fires True (w_now w) s\<rparr>)"
proof -
  from assms obtain s1' s2 s4 where n: "ohv_note_image_band st s = (st', s1')"
    and v: "expire_timer False (w_now w) s1' = (timer_fires False (w_now w) s, s2)"
    and p: "expire_timer True (w_now w) (s2\<lparr>timer_fired_v := timer_fires False (w_now w) s\<rparr>)
       = (timer_fires True (w_now w) s, s4)"
    and s': "s' = ohv_set_irq_level (w_cfg w) (ohv_set_fiq_level (w_cfg w)
            (s4\<lparr>timer_fired_p := timer_fires True (w_now w) s\<rparr>))"
    using expire_timers_unfold [OF assms(1)] by metis
  from n assms(2) have "s1' = s1" by simp
  moreover have "gate_view s' = gate_view (s4\<lparr>timer_fired_p := timer_fires True (w_now w) s\<rparr>)"
    by (simp add: s')
  ultimately show ?thesis using expire_timer_spec(5) [OF v] expire_timer_spec(5) [OF p]
    by (simp add: gate_view_def slot_pc_def)
qed

lemma armed_expires:
  obtains s' where "ohv_expire_timers test_world initial_statics armed_vcpu = (initial_statics, s')"
    "gate_view s' = gate_view (armed_vcpu\<lparr>timer_fired_v := True,
       timer_fired_p := timer_fires True (w_now test_world) armed_vcpu\<rparr>)"
proof -
  have n: "ohv_note_image_band initial_statics armed_vcpu = (initial_statics, armed_vcpu)"
    by (simp add: ohv_note_image_band_def armed_vcpu_words)
  obtain st' s' where e: "ohv_expire_timers test_world initial_statics armed_vcpu = (st', s')" by force
  have "st' = initial_statics" using expire_timers_unfold [OF e] n by (metis prod.inject)
  with e expire_gate_view [OF _ n, of test_world s'] armed_fires(1) that show ?thesis by simp
qed

theorem timers_expire_witness:
  "\<exists>s'. ohv_expire_timers test_world initial_statics armed_vcpu = (initial_statics, s')
     \<and> timer_fired_v s' \<and> timer_ctl False s' = 5"
proof -
  obtain s' where e: "ohv_expire_timers test_world initial_statics armed_vcpu = (initial_statics, s')"
    by (rule armed_expires)
  from timers_expire [OF e] armed_fires e show ?thesis by auto
qed

theorem levels_only_when_takeable_witness:
  "\<exists>s'. ohv_expire_timers test_world initial_statics armed_vcpu = (initial_statics, s')
     \<and> bit (ctx_rd s' ctl_hcr_el2) 6 \<and> \<not> ohv_guest_in_monitor s' \<and> \<not> bit (slot_cpsr s') 6"
proof -
  obtain s' where e: "ohv_expire_timers test_world initial_statics armed_vcpu = (initial_statics, s')"
    and g: "gate_view s' = gate_view (armed_vcpu\<lparr>timer_fired_v := True,
       timer_fired_p := timer_fires True (w_now test_world) armed_vcpu\<rparr>)"
    by (rule armed_expires)
  from g have f: "sptm_base s' = 0xfffffff010000000" "\<not> in_wfx s'" "slot_pc s' = 0" "slot_cpsr s' = 0"
    "timer_fired_v s'" "slot_id s' = 0"
    by (simp_all add: gate_view_def armed_vcpu_words slot_pc_def) (simp add: armed_vcpu_words(4) [unfolded slot_pc_def])
  have c: "ohv_timer_gate_mode (w_cfg test_world) = 4" "\<not> ohv_env (w_cfg test_world) v" for v
    by (simp_all add: ohv_timer_gate_mode_def cfg_num_def test_world_def)
  have irq: "\<not> ohv_timer_as_irq (w_cfg test_world) s'"
    by (simp add: ohv_timer_as_irq_def ohv_timer_irq_vcpus_def cfg_num_def test_world_def)
  have "want_fiq (w_cfg test_world) s'"
    using f c irq by (simp add: want_fiq_def ohv_timer_fiq_wanted_def Let_def ohv_fiq_takeable_def
        ohv_guest_in_monitor_def)
  with expire_levels(1) [OF e] have "bit (ctx_rd s' ctl_hcr_el2) 6" by simp
  with levels_only_when_takeable [OF e c(1) c(2) c(2)] e f show ?thesis by auto
qed

section \<open>Held, not lost\<close>

lemma set_pending_records:
  "vmm_fiq (set_pending c t p s) = (if t = HV_INTERRUPT_TYPE_FIQ then p else vmm_fiq s)"
  "vmm_irq (set_pending c t p s) = (if t = HV_INTERRUPT_TYPE_FIQ then vmm_irq s else p)"
proof -
  have g: "vmm_fiq u = vmm_fiq v \<and> vmm_irq u = vmm_irq v" if "gate_view u = gate_view v" for u v
    using that by (simp add: gate_view_def)
  have f: "gate_view (ohv_set_fiq_level c u) = gate_view u"
    "gate_view (ohv_set_irq_level c u) = gate_view u" for u by simp_all
  show "vmm_fiq (set_pending c t p s) = (if t = HV_INTERRUPT_TYPE_FIQ then p else vmm_fiq s)"
    "vmm_irq (set_pending c t p s) = (if t = HV_INTERRUPT_TYPE_FIQ then vmm_irq s else p)"
    using g [OF f(1)] g [OF f(2)] by (simp_all add: set_pending_def)
qed



section \<open>The monitor's place\<close>

text \<open>A run of the machine as the band sees it: vCPU \<open>v\<close> left the guest at \<open>pc\<close>.\<close>

fun note_exits ::
  "(nat \<times> u64) list \<Rightarrow> ohv_statics \<Rightarrow> (nat \<Rightarrow> VcpuSlot) \<Rightarrow> ohv_statics \<times> (nat \<Rightarrow> VcpuSlot)" where
  "note_exits [] st S = (st, S)"
| "note_exits ((v, pc) # es) st S =
     (case ohv_note_image_band st (ctx_wr OHV_RW_PC pc (S v)) of
        (st', s') \<Rightarrow> note_exits es st' (S(v := s')))"

definition bands :: "(nat \<times> u64) list \<Rightarrow> u64 list" where
  "bands es = map image_band (filter (\<lambda>pc. 0xfffffff000000000 \<le> pc) (map snd es))"

definition least_band :: "u64 list \<Rightarrow> u64" where
  "least_band bs = (if bs = [] then 0 else Min (set bs))"

lemma image_band_pos: "0xfffffff000000000 \<le> pc \<Longrightarrow> image_band pc \<noteq> 0"
proof
  assume p: "0xfffffff000000000 \<le> pc" and z: "image_band pc = 0"
  have "pc = (pc AND NOT 0xfffffff) OR (pc AND 0xfffffff)"
    by (rule bit_word_eqI) (auto simp: bit_simps)
  with z have "pc = pc AND 0xfffffff" by (simp add: image_band_def)
  then have "pc \<le> 0xfffffff" using word_and_le1 [of pc "0xfffffff"] by simp
  with p have "(0xfffffff000000000 :: u64) \<le> 0xfffffff" by (rule order_trans)
  then show False by simp
qed

definition bands_known :: "u64 list \<Rightarrow> ohv_statics \<Rightarrow> (nat \<Rightarrow> VcpuSlot) \<Rightarrow> bool" where
  "bands_known bs st S \<longleftrightarrow> 0 \<notin> set bs \<and> g_monitor_band st = least_band bs
     \<and> (\<forall>v. sptm_base (S v) = 0 \<or> (bs \<noteq> [] \<and> least_band bs \<le> sptm_base (S v)))"

lemma least_band_snoc:
  "bs \<noteq> [] \<Longrightarrow> least_band (bs @ [b]) = min (least_band bs) b" "least_band [b] = b"
  by (simp_all add: least_band_def min.commute)

lemma least_band_zero: "0 \<notin> set bs \<Longrightarrow> least_band bs = 0 \<longleftrightarrow> bs = []"
  using Min_in [OF finite_set [of bs]] unfolding least_band_def by (metis set_empty)

lemma note_band_values:
  assumes "ohv_note_image_band st s = (st', s')" and "0xfffffff000000000 \<le> slot_pc s"
  defines "b \<equiv> image_band (slot_pc s)"
  defines "base \<equiv> (if sptm_base s = 0 then g_monitor_band st else sptm_base s)"
  shows "g_monitor_band st' =
      (if base = 0 \<or> b < base then lower_band b (g_monitor_band st) else g_monitor_band st)"
    and "sptm_base s' = (if base = 0 \<or> b < base then b else base)"
proof -
  have e: "(if sptm_base s = 0 then s\<lparr>sptm_base := g_monitor_band st\<rparr> else s) = s\<lparr>sptm_base := base\<rparr>"
    by (cases s) (simp add: base_def)
  have "\<not> slot_pc s < 0xfffffff000000000" using assms(2) by (simp only: not_less)
  with assms(1) have r: "(st', s') = (if base = 0 \<or> b < base
      then (st\<lparr>g_monitor_band := lower_band b (g_monitor_band st)\<rparr>, s\<lparr>sptm_base := base, sptm_base := b\<rparr>)
      else (st, s\<lparr>sptm_base := base\<rparr>))"
    unfolding ohv_note_image_band_def Let_def e b_def [symmetric] by simp
  show "g_monitor_band st' =
      (if base = 0 \<or> b < base then lower_band b (g_monitor_band st) else g_monitor_band st)"
    "sptm_base s' = (if base = 0 \<or> b < base then b else base)"
    using r by (cases "base = 0 \<or> b < base"; simp)+
qed

lemma note_band_step:
  assumes i: "bands_known bs st S"
    and n: "ohv_note_image_band st (ctx_wr OHV_RW_PC pc (S v)) = (st', s')"
  shows "bands_known (bs @ bands [(v, pc)]) st' (S(v := s'))"
proof -
  have pc: "slot_pc (ctx_wr OHV_RW_PC pc (S v)) = pc" by (simp add: slot_pc_def)
  have sb: "sptm_base (ctx_wr OHV_RW_PC pc (S v)) = sptm_base (S v)" by (simp add: ctx_wr_def)
  show ?thesis
  proof (cases "pc < 0xfffffff000000000")
    case True
    then have "bands [(v, pc)] = []" by (simp add: bands_def not_le)
    with True n i show ?thesis
      by (auto simp: ohv_note_image_band_def Let_def pc sb bands_known_def least_band_def split: if_splits)
  next
    case False
    then have b: "bands [(v, pc)] = [image_band pc]" by (simp add: bands_def not_less)
    have z: "image_band pc \<noteq> 0" using False image_band_pos by (simp add: not_less)
    note val = note_band_values [OF n, unfolded pc sb]
    have hi: "0xfffffff000000000 \<le> pc" using False by simp
    have g: "g_monitor_band st = least_band bs" and nz: "0 \<notin> set bs"
      and k: "sptm_base (S u) = 0 \<or> (bs \<noteq> [] \<and> least_band bs \<le> sptm_base (S u))" for u
      using i by (simp_all add: bands_known_def)
    have "g_monitor_band st' = least_band (bs @ [image_band pc])
        \<and> least_band (bs @ [image_band pc]) \<le> sptm_base s'"
    proof (cases "bs = []")
      case True
      then have "sptm_base (S v) = 0" "g_monitor_band st = 0" using k [of v] g by (auto simp: least_band_def)
      with val [OF hi] True show ?thesis by (simp add: lower_band_def least_band_snoc)
    next
      case False
      then have l: "least_band bs \<noteq> 0" using nz by (simp add: least_band_zero)
      then have "(if sptm_base (S v) = 0 then g_monitor_band st else sptm_base (S v)) \<noteq> 0"
        "least_band bs \<le> (if sptm_base (S v) = 0 then g_monitor_band st else sptm_base (S v))"
        using k [of v] g by auto
      with val [OF hi] l False g show ?thesis
        by (auto simp: lower_band_def least_band_snoc min_def not_less)
    qed
    moreover have "least_band (bs @ [image_band pc]) \<le> sptm_base (S u)" if "sptm_base (S u) \<noteq> 0" for u
    proof -
      from k [of u] that have "bs \<noteq> []" "least_band bs \<le> sptm_base (S u)" by auto
      then show ?thesis by (simp add: least_band_snoc min.coboundedI1)
    qed
    ultimately show ?thesis using nz z by (auto simp: bands_known_def b)
  qed
qed

lemma note_exits_known:
  "bands_known bs st S \<Longrightarrow> note_exits es st S = (st', S') \<Longrightarrow> bands_known (bs @ bands es) st' S'"
proof (induction es arbitrary: bs st S)
  case (Cons e es)
  obtain v pc where e: "e = (v, pc)" by force
  obtain st1 s1 where n: "ohv_note_image_band st (ctx_wr OHV_RW_PC pc (S v)) = (st1, s1)" by force
  with Cons.prems(2) e have r: "note_exits es st1 (S(v := s1)) = (st', S')" by simp
  have "bands_known ((bs @ bands [(v, pc)]) @ bands es) st' S'"
    by (rule Cons.IH [OF note_band_step [OF Cons.prems(1) n] r])
  then show ?case by (simp add: bands_def e split: if_splits)
qed (simp add: bands_def)

text \<open>C28: The monitor's place is learned for the machine: over any run of exits of any
  vCPUs from the start, the shared band is the lowest 256 MiB band any of them was seen in above
  the kernel's base, zero while there was none, and what a vCPU has taken for its own is never
  below it.\<close>

theorem monitor_band_is_least:
  "case note_exits es initial_statics (\<lambda>_. new_VcpuSlot) of (st, S) \<Rightarrow>
     g_monitor_band st = least_band (bands es)
     \<and> (\<forall>v. sptm_base (S v) = 0 \<or> least_band (bands es) \<le> sptm_base (S v))"
proof -
  have i: "bands_known [] initial_statics (\<lambda>_. new_VcpuSlot)"
    by (simp add: bands_known_def least_band_def initial_statics_def new_VcpuSlot_def)
  show ?thesis
    using note_exits_known [OF i, of es] by (auto simp: bands_known_def split: prod.splits)
qed

end
