(* ===== verification/Ohv_Exit.thy ===== *)
theory Ohv_Exit
  imports Ohv_Irq
begin

text \<open>
  What becomes of an exit from the guest: \<open>exit_from_ro\<close> of \<open>src/ohv_vcpu.cpp\<close>, one definition per
  step in its order -- the nested-virtualization bit put back after a guarded return and for the
  monitor, the optional mirror of the guarded return pair, the exit record, and the
  classification: hand the exit to the VMM, or go back into the guest after carrying out what it
  was about (a trapped register access, an HVC into the guest's own EL2, a guarded or an
  ordinary exception return).

  Tracing is left out here and added in \<open>Ohv_Trace\<close>.  Two trace settings (OHV_TRACE_GLVL, OHV_TRACE_GL1) issue the
  sync trap besides printing; the definitions of this theory are of a process that has not set them.

  The exit words are read from the context where the code reads them, so a sync between two
  reads is seen.
\<close>

datatype ExitAction = EXIT_TO_VMM | EXIT_KEEP_RUNNING

definition OHV_VMEXIT_MSR_TRAP :: u32 where [masks]: "OHV_VMEXIT_MSR_TRAP = 8"
definition OHV_VECT_LOWER64_SYNC :: u64 where [masks]: "OHV_VECT_LOWER64_SYNC = 0x400"
definition VBAR_EL2_WORD :: nat where [layout]: "VBAR_EL2_WORD = 0x1250"

definition exit_esr :: "VcpuSlot \<Rightarrow> u64" where "exit_esr s = ctx_rd s OHV_RO_EXIT_ESR"
definition exit_ec :: "VcpuSlot \<Rightarrow> nat" where "exit_ec s = bits_of (exit_esr s) 26 0x3f"

definition set_exit_reason :: "u32 \<Rightarrow> VcpuSlot \<Rightarrow> VcpuSlot" where
  "set_exit_reason r s = s\<lparr>pub_exit := (pub_exit s)\<lparr>exit_reason := r\<rparr>\<rparr>"

definition set_syndrome :: "u64 \<Rightarrow> VcpuSlot \<Rightarrow> VcpuSlot" where
  "set_syndrome v s = s\<lparr>pub_exit := (pub_exit s)
     \<lparr>exit_exception := (exit_exception (pub_exit s))\<lparr>syndrome := v\<rparr>\<rparr>\<rparr>"

section \<open>Syndromes the kernel leaves out\<close>

text \<open>The syndrome of the MSR or MRS instruction \<open>i\<close>.\<close>

definition is_msr_insn :: "u32 \<Rightarrow> bool" where
  "is_msr_insn i \<longleftrightarrow> i AND 0xffd00000 = 0xd5100000"

definition msr_syndrome :: "u32 \<Rightarrow> u64" where
  "msr_syndrome i =
     (let rd = drop_bit 21 i AND 1; op0 = 2 + (drop_bit 19 i AND 1); op1 = drop_bit 16 i AND 7;
          crn = drop_bit 12 i AND 0xf; crm = drop_bit 8 i AND 0xf; op2 = drop_bit 5 i AND 7;
          rt = i AND 0x1f
      in push_bit 26 0x18 OR push_bit 25 1 OR
         ucast (push_bit 20 op0 OR push_bit 17 op2 OR push_bit 14 op1 OR push_bit 10 crn
                OR push_bit 5 rt OR push_bit 1 crm OR rd))"

definition synth_msr_trap_syndrome :: "world \<Rightarrow> VcpuSlot \<Rightarrow> VcpuSlot" where
  "synth_msr_trap_syndrome w s =
     (case guest_rd32 w (slot_pc s) of
        Some i \<Rightarrow> if is_msr_insn i then set_syndrome (msr_syndrome i) s else s
      | None \<Rightarrow> s)"

definition GEXIT_INSN :: u32 where [masks]: "GEXIT_INSN = 0x00201400"
definition GEXIT_SYNDROME :: u64 where [masks]: "GEXIT_SYNDROME = push_bit 26 0x3f OR push_bit 25 1 OR 0x22"

definition synth_guarded_exit_syndrome :: "world \<Rightarrow> VcpuSlot \<Rightarrow> VcpuSlot" where
  "synth_guarded_exit_syndrome w s =
     (case guest_rd32 w (slot_pc s) of
        Some i \<Rightarrow> if i = GEXIT_INSN then set_syndrome GEXIT_SYNDROME s else s
      | None \<Rightarrow> s)"

section \<open>Exception returns\<close>

datatype spsr_fault = AArch32 | EL3 | Reserved | EL2_from_EL1

definition spsr_illegal_reason :: "u64 \<Rightarrow> spsr_fault option" where
  "spsr_illegal_reason spsr =
     (if spsr AND 0x10 \<noteq> 0 then Some AArch32
      else let m = bits_of spsr 0 0xf in
        if m = 0 \<or> m = 4 \<or> m = 5 \<or> m = 8 \<or> m = 9 then None
        else if m = 0xc \<or> m = 0xd then Some EL3 else Some Reserved)"

text \<open>What \<open>report_illegal_eret\<close> prints, if anything.\<close>

definition report_illegal_eret :: "u64 \<Rightarrow> bool \<Rightarrow> spsr_fault option" where
  "report_illegal_eret spsr from_el1 =
     (let m = bits_of spsr 0 0xf in
      case spsr_illegal_reason spsr of
        Some why \<Rightarrow> Some why
      | None \<Rightarrow> if from_el1 \<and> (m = 8 \<or> m = 9) then Some EL2_from_EL1 else None)"

definition spsr_guarded :: "u64 \<Rightarrow> bool" where
  "spsr_guarded spsr \<longleftrightarrow>
     spsr \<noteq> 0 \<and> spsr_illegal_reason spsr = None \<and> bits_of spsr 0 0xf \<noteq> 8 \<and> bits_of spsr 0 0xf \<noteq> 9"

definition eret_is_guarded :: "world \<Rightarrow> VcpuSlot \<Rightarrow> bool \<times> u64 \<times> VcpuSlot" where
  "eret_is_guarded w s =
     (let s' = snd (sync_ctx w s); spsr = ctx_rd s' ext_spsr_gl1 in (spsr_guarded spsr, spsr, s'))"

definition enter_guest_el2 :: "u64 \<Rightarrow> u64 \<Rightarrow> VcpuSlot \<Rightarrow> VcpuSlot" where
  "enter_guest_el2 esr return_pc s =
     (let vbar = ctx_rd s VBAR_EL2_WORD;
          s1 = ctx_wr bk_elr_el1 return_pc s;
          s2 = ctx_wr bk_esr_el1 esr s1;
          s3 = ctx_wr bk_spsr_el1 (ucast (slot_cpsr s2)) s2;
          s4 = ctx_dirty OHV_STATE_SYSREGS s3;
          s5 = ctx_wr OHV_RW_PC (vbar + OHV_VECT_LOWER64_SYNC) s4;
          s6 = set_slot_cpsr 0x3c5 s5
      in (set_nv True s6)\<lparr>guest_at_el2 := True\<rparr>)"

text \<open>A guarded return handed to the hardware: the guarded pair put where an ERET at hardware
  EL1 looks, and the trap taken off.\<close>

definition guarded_eret :: "u64 \<Rightarrow> VcpuSlot \<Rightarrow> VcpuSlot" where
  "guarded_eret gspsr s =
     (let s1 = ctx_wr bk_elr_el1 (ctx_rd s ext_elr_gl1) s;
          s2 = ctx_dirty OHV_STATE_SYSREGS (ctx_wr bk_spsr_el1 gspsr s1)
      in (set_nv False s2)\<lparr>nv_off_for_geret := True\<rparr>)"

text \<open>An ordinary return, carried out here.\<close>

definition software_eret :: "VcpuSlot \<Rightarrow> VcpuSlot" where
  "software_eret s =
     (let elr = ctx_rd s bk_elr_el1; spsr = ctx_rd s bk_spsr_el1; mode = ucast spsr AND 0xf :: u32;
          s1 = set_slot_cpsr (ucast spsr) (ctx_wr OHV_RW_PC elr s)
      in if mode = 4 \<or> mode = 5 then set_nv False (s1\<lparr>guest_at_el2 := False\<rparr>)
         else if mode = 8 \<or> mode = 9
         then set_slot_cpsr (ucast (spsr AND ucast (NOT 0xf :: u32)) OR (mode - 4)) s1
         else s1)"

section \<open>Before the classification\<close>

definition exit_nv_restore :: "VcpuSlot \<Rightarrow> VcpuSlot" where
  "exit_nv_restore s =
     (if nv_off_for_geret s \<and> exit_ec s = 0x3f then (set_nv True s)\<lparr>nv_off_for_geret := False\<rparr> else s)"

definition exit_mirror_gl1 :: "world \<Rightarrow> VcpuSlot \<Rightarrow> VcpuSlot" where
  "exit_mirror_gl1 w s =
     (if ohv_env (w_cfg w) cfg_OHV_MIRROR_GL1 \<and> exit_ec s = 0x18
      then (let s1 = snd (sync_ctx w s); gelr = ctx_rd s1 ext_elr_gl1; gspsr = ctx_rd s1 ext_spsr_gl1 in
            if gelr \<noteq> 0 \<and> gspsr \<noteq> 0 \<and> (ctx_rd s1 bk_elr_el1 \<noteq> gelr \<or> ctx_rd s1 bk_spsr_el1 \<noteq> gspsr)
            then ctx_dirty OHV_STATE_SYSREGS (ctx_wr bk_spsr_el1 gspsr (ctx_wr bk_elr_el1 gelr s1))
            else s1)
      else s)"

definition exit_rearm_nv :: "OhvCfg \<Rightarrow> VcpuSlot \<Rightarrow> VcpuSlot" where
  "exit_rearm_nv cfg s =
     (if \<not> ohv_env cfg cfg_OHV_NO_MONITOR_NV \<and> 0xfffffff000000000 \<le> slot_pc s
         \<and> ctx_rd s ctl_hcr_el2 AND OHV_HCR_NV = 0
      then set_nv True s else s)"

definition note_kernel :: "VcpuSlot \<Rightarrow> ohv_statics \<Rightarrow> ohv_statics" where
  "note_kernel s st =
     (if 0xfffffff06b000000 \<le> slot_pc s \<and> slot_pc s < 0xfffffff070000000
      then st\<lparr>g_kernel_running := True\<rparr> else st)"

definition fill_exit :: "VcpuSlot \<Rightarrow> VcpuSlot" where
  "fill_exit s =
     (let far = ctx_rd s OHV_RO_EXIT_FAR; hpfar = ctx_rd s OHV_RO_EXIT_HPFAR in
      s\<lparr>pub_exit := (pub_exit s)\<lparr>exit_exception :=
          \<lparr>syndrome = exit_esr s, virtual_address = far,
           physical_address = (hpfar AND NOT 0xfff) OR (far AND 0xfff)\<rparr>\<rparr>,
        last_reason := vmexit_reason s, last_esr := exit_esr s\<rparr>)"

definition exit_prepare :: "world \<Rightarrow> VcpuSlot \<Rightarrow> VcpuSlot" where
  "exit_prepare w s = exit_rearm_nv (w_cfg w) (exit_mirror_gl1 w (exit_nv_restore s))"

section \<open>The classification\<close>

type_synonym exit_result = "ExitAction \<times> ohv_statics \<times> VcpuSlot"

text \<open>Reasons 3 and 4, a physical interrupt: the virtual timer's when it is enabled, due and not
  masked, and masked from here on.\<close>

definition exit_physical :: "ohv_statics \<Rightarrow> VcpuSlot \<Rightarrow> exit_result" where
  "exit_physical st s =
     (if ctx_rd s OHV_RW_TIMER AND OHV_TIMER_MASK = 0 \<and> ctx_rd s bk_cntv_ctl_el0 = 5
      then (EXIT_TO_VMM, st, set_exit_reason HV_EXIT_REASON_VTIMER_ACTIVATED
              (ctx_upd OHV_RW_TIMER (\<lambda>v. v OR OHV_TIMER_MASK) s))
      else (EXIT_TO_VMM, st, set_exit_reason HV_EXIT_REASON_UNKNOWN s))"

definition exit_exception_out :: "world \<Rightarrow> u32 \<Rightarrow> ohv_statics \<Rightarrow> VcpuSlot \<Rightarrow> exit_result" where
  "exit_exception_out w reason st s =
     (let s1 = (if exit_esr s = 0
                then (if reason = OHV_VMEXIT_MSR_TRAP then synth_msr_trap_syndrome w s
                      else if reason = 1 then synth_guarded_exit_syndrome w s else s)
                else s)
      in (EXIT_TO_VMM, st, set_exit_reason HV_EXIT_REASON_EXCEPTION s1))"

definition is_eret :: "VcpuSlot \<Rightarrow> bool" where
  "is_eret s \<longleftrightarrow> exit_ec s = 0x1a \<and> exit_esr s AND 1 = 0"

definition exit_software_eret :: "world \<Rightarrow> u32 \<Rightarrow> ohv_statics \<Rightarrow> VcpuSlot \<Rightarrow> exit_result" where
  "exit_software_eret w reason st s =
     (if is_eret s \<and> guest_at_el2 s
      then (case eret_is_guarded w s of
              (g, _, s') \<Rightarrow>
                if \<not> g \<and> \<not> ohv_env (w_cfg w) cfg_OHV_NO_ERET_EMULATION
                then (EXIT_KEEP_RUNNING, st, software_eret s')
                else exit_exception_out w reason st s')
      else exit_exception_out w reason st s)"

definition exit_eret :: "world \<Rightarrow> u32 \<Rightarrow> ohv_statics \<Rightarrow> VcpuSlot \<Rightarrow> exit_result" where
  "exit_eret w reason st s =
     (if \<not> ohv_env (w_cfg w) cfg_OHV_NO_HW_GERET \<and> is_eret s
      then (case eret_is_guarded w s of
              (g, gspsr, s') \<Rightarrow>
                if g then (EXIT_KEEP_RUNNING, st, guarded_eret gspsr s')
                else exit_software_eret w reason st s')
      else exit_software_eret w reason st s)"

text \<open>Reason 1, a synchronous exception, and what a trapped access falls through to.\<close>

definition exit_sync :: "world \<Rightarrow> u32 \<Rightarrow> ohv_statics \<Rightarrow> VcpuSlot \<Rightarrow> exit_result" where
  "exit_sync w reason st s =
     (if ohv_env (w_cfg w) cfg_OHV_SPIN_WFI \<and> exit_ec s = 1
      then (EXIT_KEEP_RUNNING, st, next_insn s)
      else if exit_ec s = 0x16 \<and> \<not> guest_at_el2 s \<and> \<not> ohv_env (w_cfg w) cfg_OHV_NO_EL2_INJECTION
      then (EXIT_KEEP_RUNNING, st, enter_guest_el2 (exit_esr s) (slot_pc s + 4) s)
      else exit_eret w reason st s)"

definition exit_msr :: "world \<Rightarrow> ohv_statics \<Rightarrow> VcpuSlot \<Rightarrow> exit_result" where
  "exit_msr w st s =
     (if exit_ec s = 0x18
      then (case service_nv2_access w (exit_esr s) st s of
              (ok, st', s') \<Rightarrow>
                if ok then (EXIT_KEEP_RUNNING, st', s') else exit_sync w OHV_VMEXIT_MSR_TRAP st' s')
      else exit_sync w OHV_VMEXIT_MSR_TRAP st s)"

definition exit_classify :: "world \<Rightarrow> u32 \<Rightarrow> ohv_statics \<Rightarrow> VcpuSlot \<Rightarrow> exit_result" where
  "exit_classify w reason st s =
     (if reason = 0 then (EXIT_TO_VMM, st, set_exit_reason HV_EXIT_REASON_CANCELED s)
      else if reason = 2 \<or> reason = 7 \<or> reason = 11 \<or> reason = 12 then (EXIT_KEEP_RUNNING, st, s)
      else if reason = 3 \<or> reason = 4 then exit_physical st s
      else if reason = OHV_VMEXIT_MSR_TRAP then exit_msr w st s
      else if reason = 1 then exit_sync w reason st s
      else if reason = 6 then exit_exception_out w reason st s
      else (EXIT_TO_VMM, st, set_exit_reason HV_EXIT_REASON_UNKNOWN s))"

definition exit_from_ro :: "world \<Rightarrow> ohv_statics \<Rightarrow> VcpuSlot \<Rightarrow> exit_result" where
  "exit_from_ro w st s =
     (let s1 = exit_prepare w s; st1 = note_kernel s1 st; reason = vmexit_reason s1
      in exit_classify w reason st1 (fill_exit s1))"

section \<open>Which exits reach the VMM\<close>

lemma set_exit_reason_sel [simp]: "exit_reason (pub_exit (set_exit_reason r s)) = r"
  by (simp add: set_exit_reason_def)

text \<open>What the record says of an exit that reaches the VMM.\<close>

definition vmm_reason :: "VcpuSlot \<Rightarrow> u32" where
  "vmm_reason s =
     (let reason = vmexit_reason s in
      if reason = 0 then HV_EXIT_REASON_CANCELED
      else if reason = 1 \<or> reason = 6 \<or> reason = 8 then HV_EXIT_REASON_EXCEPTION
      else if (reason = 3 \<or> reason = 4) \<and> \<not> bit (ctx_rd s OHV_RW_TIMER) 0 \<and> ctx_rd s bk_cntv_ctl_el0 = 5
      then HV_EXIT_REASON_VTIMER_ACTIVATED else HV_EXIT_REASON_UNKNOWN)"

lemma exit_exception_reason:
  "exit_exception_out w reason st s = (a, st', s') \<Longrightarrow>
     a = EXIT_TO_VMM \<and> exit_reason (pub_exit s') = HV_EXIT_REASON_EXCEPTION"
  by (auto simp: exit_exception_out_def Let_def)

lemma exit_sync_reason:
  assumes "exit_sync w reason st s = (a, st', s')" and "a = EXIT_TO_VMM"
  shows "exit_reason (pub_exit s') = HV_EXIT_REASON_EXCEPTION"
  using assms
  by (auto simp: exit_sync_def exit_eret_def exit_software_eret_def dest: exit_exception_reason
      split: if_splits prod.splits)

lemma exit_msr_reason:
  assumes "exit_msr w st s = (a, st', s')" and "a = EXIT_TO_VMM"
  shows "exit_reason (pub_exit s') = HV_EXIT_REASON_EXCEPTION"
  using assms by (auto simp: exit_msr_def dest: exit_sync_reason split: if_splits prod.splits)

lemma fill_exit_frame [simp]:
  "ctx (fill_exit s) = ctx s" "ctx_rd (fill_exit s) off = ctx_rd s off"
  "vmexit_reason (fill_exit s) = vmexit_reason s"
  by (simp_all add: fill_exit_def ctx_rd_def vmexit_reason_def Let_def)

text \<open>C5: What the VMM is told.  An exit is kept from it only for a synchronous exception,
  a trapped register access or the four reasons that are the kernel's own business, and for
  those four always, with nothing but the record changed; every exit that does reach it carries
  the reason the table says -- a cancel, an exception, the virtual timer, or unknown -- and never
  the one an earlier exit left.\<close>

theorem exit_classification:
  "case exit_from_ro w st s of (a, st', s') \<Rightarrow>
     (let p = exit_prepare w s; reason = vmexit_reason p in
       (a = EXIT_KEEP_RUNNING \<longrightarrow> reason \<in> {1, 2, 7, 8, 11, 12})
     \<and> (reason \<in> {2, 7, 11, 12} \<longrightarrow> a = EXIT_KEEP_RUNNING \<and> s' = fill_exit p)
     \<and> (a = EXIT_TO_VMM \<longrightarrow> exit_reason (pub_exit s') = vmm_reason p))"
proof -
  define p where "p = exit_prepare w s"
  define q where "q = fill_exit p"
  obtain a st' s' where x: "exit_from_ro w st s = (a, st', s')" by (rule prod_cases3)
  then have c: "exit_classify w (vmexit_reason p) (note_kernel p st) q = (a, st', s')"
    by (simp add: exit_from_ro_def Let_def p_def q_def)
  have t: "OHV_TIMER_MASK = bit_mask 0" by (rule OHV_TIMER_MASK_def)
  have "(a = EXIT_KEEP_RUNNING \<longrightarrow> vmexit_reason p \<in> {1, 2, 7, 8, 11, 12})
     \<and> (vmexit_reason p \<in> {2, 7, 11, 12} \<longrightarrow> a = EXIT_KEEP_RUNNING \<and> s' = q)
     \<and> (a = EXIT_TO_VMM \<longrightarrow> exit_reason (pub_exit s') = vmm_reason p)"
  proof (cases "vmexit_reason p = 8 \<or> vmexit_reason p = 1 \<or> vmexit_reason p = 6")
    case True
    have k: "vmm_reason p = HV_EXIT_REASON_EXCEPTION"
      using True by (auto simp: vmm_reason_def masks)
    have r: "a = EXIT_TO_VMM \<Longrightarrow> exit_reason (pub_exit s') = HV_EXIT_REASON_EXCEPTION"
      "vmexit_reason p = 6 \<Longrightarrow> a = EXIT_TO_VMM"
      using True c unfolding exit_classify_def OHV_VMEXIT_MSR_TRAP_def
      by (auto dest: exit_msr_reason exit_sync_reason exit_exception_reason)
    have "vmexit_reason p \<in> {1, 2, 7, 8, 11, 12} \<or> vmexit_reason p = 6"
      "vmexit_reason p \<notin> {2, 7, 11, 12}" using True by auto
    with k r show ?thesis by auto
  next
    case False
    have b: "ctx_rd q OHV_RW_TIMER AND OHV_TIMER_MASK = 0 \<longleftrightarrow> \<not> bit (ctx_rd p OHV_RW_TIMER) 0"
      unfolding t and_bit_mask_eq_0 by (simp add: q_def)
    have r: "ctx_rd q bk_cntv_ctl_el0 = ctx_rd p bk_cntv_ctl_el0" by (simp add: q_def)
    from False c show ?thesis
      unfolding exit_classify_def exit_physical_def b r OHV_VMEXIT_MSR_TRAP_def
      by (auto simp: vmm_reason_def split: if_splits)
  qed
  then show ?thesis by (simp add: x p_def q_def)
qed

text \<open>The witness: a physical interrupt while the virtual timer stands due and unmasked.\<close>

definition vtimer_exit :: VcpuSlot where
  "vtimer_exit = (ctx_wr bk_cntv_ctl_el0 5 new_VcpuSlot)
     \<lparr>ctx := wr32 (wr64 zero_mem bk_cntv_ctl_el0 5) OHV_RO_EXIT_REASON 4\<rparr>"

lemma vtimer_exit_prepared:
  "exit_prepare test_world vtimer_exit = vtimer_exit" "vmexit_reason vtimer_exit = 4"
  "vmm_reason vtimer_exit = HV_EXIT_REASON_VTIMER_ACTIVATED"
proof -
  have w: "ctx_rd vtimer_exit off = rd64 (wr64 zero_mem bk_cntv_ctl_el0 5) off"
    if "off + 8 \<le> OHV_RO_EXIT_REASON \<or> OHV_RO_EXIT_REASON + 4 \<le> off" for off
    using that by (auto simp: ctx_rd_def vtimer_exit_def)
  have r: "vmexit_reason vtimer_exit = 4" by (simp add: vmexit_reason_def vtimer_exit_def)
  have pc: "slot_pc vtimer_exit = 0" by (simp add: slot_pc_def w layout)
  have nv: "\<not> nv_off_for_geret vtimer_exit"
    by (simp add: vtimer_exit_def ctx_wr_def) (simp add: new_VcpuSlot_def)
  have c: "ctx_rd vtimer_exit bk_cntv_ctl_el0 = 5" by (simp add: w layout)
  have m: "ctx_rd vtimer_exit OHV_RW_TIMER = 0" by (simp add: w layout)
  show "exit_prepare test_world vtimer_exit = vtimer_exit"
    using pc nv by (simp add: exit_prepare_def exit_nv_restore_def exit_mirror_gl1_def exit_rearm_nv_def
        test_world_def)
  show "vmexit_reason vtimer_exit = 4" by (rule r)
  show "vmm_reason vtimer_exit = HV_EXIT_REASON_VTIMER_ACTIVATED"
    by (simp add: vmm_reason_def Let_def r c m)
qed

theorem exit_classification_witness:
  "case exit_from_ro test_world initial_statics vtimer_exit of (a, st', s') \<Rightarrow>
     a = EXIT_TO_VMM \<and> exit_reason (pub_exit s') = HV_EXIT_REASON_VTIMER_ACTIVATED"
proof -
  obtain a st' s' where x: "exit_from_ro test_world initial_statics vtimer_exit = (a, st', s')"
    by (rule prod_cases3)
  from exit_classification [where w = test_world and st = initial_statics and s = vtimer_exit]
  have e: "(a = EXIT_KEEP_RUNNING \<longrightarrow> (4 :: u32) \<in> {1, 2, 7, 8, 11, 12})
    \<and> (a = EXIT_TO_VMM \<longrightarrow> exit_reason (pub_exit s') = HV_EXIT_REASON_VTIMER_ACTIVATED)"
    unfolding x by (simp add: vtimer_exit_prepared)
  have "(4 :: u32) \<notin> {1, 2, 7, 8, 11, 12}" by simp
  with e have "a \<noteq> EXIT_KEEP_RUNNING" by blast
  then have "a = EXIT_TO_VMM" by (cases a) simp_all
  with e x show ?thesis by simp
qed

section \<open>The syndrome built out of the instruction\<close>

lemma bit_of_mask: "bit (bit_mask m :: 'a::len word) n \<longleftrightarrow> n = m \<and> m < LENGTH('a)"
  unfolding bit_push_bit_iff bit_1_iff by auto

lemma bit_field:
  fixes i :: u32
  shows "bit (push_bit a (drop_bit b i AND mask k)) n \<longleftrightarrow> n < 32 \<and> a \<le> n \<and> n < a + k \<and> bit i (n - a + b)"
  by (auto simp: bit_push_bit_iff bit_and_iff bit_drop_bit_eq bit_mask_iff add.commute
      dest: bit_imp_le_length)

lemma msr_fields:
  fixes i :: u32
  shows "drop_bit 21 i AND 1 = push_bit 0 (drop_bit 21 i AND mask 1)"
    and "push_bit 20 (2 + (drop_bit 19 i AND 1)) = bit_mask 21 OR push_bit 20 (drop_bit 19 i AND mask 1)"
    and "drop_bit 16 i AND 7 = drop_bit 16 i AND mask 3" "drop_bit 5 i AND 7 = drop_bit 5 i AND mask 3"
    and "drop_bit 12 i AND 0xf = drop_bit 12 i AND mask 4" "drop_bit 8 i AND 0xf = drop_bit 8 i AND mask 4"
    and "i AND 0x1f = drop_bit 0 i AND mask 5"
proof -
  have "(2 :: u32) + (x AND 1) = 2 OR (x AND 1)" for x :: u32
  proof (rule disjunctive_add)
    fix n
    have "bit (2 :: u32) n \<longleftrightarrow> n = 1" using bit_of_mask [of 1 n, where 'a = 32] by simp
    then show "\<not> bit (2 :: u32) n \<or> \<not> bit (x AND 1) n" by (auto simp: bit_and_iff bit_1_iff)
  qed
  then show "push_bit 20 (2 + (drop_bit 19 i AND 1)) = bit_mask 21 OR push_bit 20 (drop_bit 19 i AND mask 1)"
    by (simp add: push_bit_or mask_eq_exp_minus_1)
qed (simp_all add: mask_eq_exp_minus_1)

lemma syndrome_head: "(push_bit 26 0x18 :: u64) = bit_mask 30 OR bit_mask 29"
  by simp

text \<open>The syndrome, bit by bit.\<close>

lemma msr_syndrome_bit:
  "bit (msr_syndrome i) n \<longleftrightarrow> n = 25 \<or> n = 29 \<or> n = 30
     \<or> (n = 0 \<and> bit i 21) \<or> (1 \<le> n \<and> n < 5 \<and> bit i (n + 7)) \<or> (5 \<le> n \<and> n < 10 \<and> bit i (n - 5))
     \<or> (10 \<le> n \<and> n < 14 \<and> bit i (n + 2)) \<or> (14 \<le> n \<and> n < 17 \<and> bit i (n + 2))
     \<or> (17 \<le> n \<and> n < 20 \<and> bit i (n - 12)) \<or> (n = 20 \<and> bit i 19) \<or> n = 21"
proof -
  have e: "n = 0 \<or> n = 20 \<or> 1 \<le> n \<and> n < 5 \<or> 5 \<le> n \<and> n < 10 \<or> 10 \<le> n \<and> n < 14 \<or> 14 \<le> n \<and> n < 17
    \<or> 17 \<le> n \<and> n < 20 \<or> n \<ge> 21" by linarith
  show ?thesis
    unfolding msr_syndrome_def Let_def msr_fields syndrome_head
    unfolding bit_or_iff bit_of_mask bit_unsigned_iff bit_field
    using e by (elim disjE) (auto simp: add.commute)
qed


text \<open>A field of the syndrome holds the bits of the instruction it was made from.\<close>

lemma bits_of_field:
  fixes i :: u32
  assumes "m = mask k" "k \<le> 32" "\<And>n. n < k \<Longrightarrow> bit v (sh + n) = bit i (b + n)"
  shows "bits_of v sh m = unat (drop_bit b i AND mask k)"
proof -
  have "drop_bit sh v AND mask k = (ucast (drop_bit b i AND mask k) :: u64)"
    by (rule bit_word_eqI)
      (use assms(2,3) in \<open>auto simp: bit_and_iff bit_drop_bit_eq bit_mask_iff bit_unsigned_iff\<close>)
  then have "bits_of v sh m = unat (ucast (drop_bit b i AND mask k) :: u64)"
    by (simp add: bits_of_def assms(1))
  then show ?thesis by (simp add: unsigned_ucast_eq take_bit_nat_eq_self_iff order_less_le_trans [OF unsigned_less])
qed

text \<open>C27: The kernel reports a trapped MSR or MRS with no syndrome, and the library makes one out of
  the instruction: decoding it with the decoder of the trapped-access path gives exactly the
  operands encoded in the instruction, the direction bit included, with exception class 0x18 and
  the 32-bit-instruction bit.\<close>

theorem msr_syndrome_decodes:
  "decode_esr (msr_syndrome i) =
     \<lparr>a_op0 = 2 + unat (drop_bit 19 i AND 1), a_op1 = unat (drop_bit 16 i AND 7),
      a_crn = unat (drop_bit 12 i AND 0xf), a_crm = unat (drop_bit 8 i AND 0xf),
      a_op2 = unat (drop_bit 5 i AND 7), a_rt = unat (i AND 0x1f), a_read = bit i 21\<rparr>
   \<and> bits_of (msr_syndrome i) 26 0x3f = 0x18 \<and> bit (msr_syndrome i) 25"
proof -
  define v where "v = msr_syndrome i"
  note b = msr_syndrome_bit [of i, folded v_def]
  have m: "(7 :: u64) = mask 3" "(0xf :: u64) = mask 4" "(0x1f :: u64) = mask 5"
    "(7 :: u32) = mask 3" "(0xf :: u32) = mask 4" "(0x1f :: u32) = mask 5"
    by (simp_all add: mask_eq_exp_minus_1)
  have two: "bit (2 :: u64) n \<longleftrightarrow> n = 1" for n using bit_of_mask [of 1 n, where 'a = 64] by simp
  have three: "bit (3 :: u64) n \<longleftrightarrow> n = 0 \<or> n = 1" for n
  proof -
    have "(3 :: u64) = 1 OR 2" by simp
    then have "bit (3 :: u64) n \<longleftrightarrow> bit (1 :: u64) n \<or> bit (2 :: u64) n"
      by (simp only: bit_or_iff)
    then show ?thesis unfolding two bit_1_iff .
  qed
  have c24: "bit (0x18 :: u64) n \<longleftrightarrow> n = 3 \<or> n = 4" for n
    using bit_or_iff [of 8 "16 :: u64" n] bit_of_mask [of 3 n, where 'a = 64]
      bit_of_mask [of 4 n, where 'a = 64] by auto
  have op0: "bits_of v 20 3 = 2 + unat (drop_bit 19 i AND 1)"
  proof -
    have x: "drop_bit 20 v AND 3 = (if bit i 19 then 3 else 2)"
    proof -
      have "drop_bit 20 v AND mask 2 = (if bit i 19 then 3 else 2)"
        by (rule bit_word_eqI) (auto simp: b bit_and_iff bit_drop_bit_eq bit_mask_iff two three simp del: bit_numeral_word_iff)
      then show ?thesis by (simp add: mask_eq_exp_minus_1)
    qed
    have "drop_bit 19 i AND 1 = (if bit i 19 then 1 else 0)"
      by (simp add: and_one_eq bit_iff_odd_drop_bit odd_iff_mod_2_eq_one)
    with x show ?thesis by (simp add: bits_of_def)
  qed
  have ec: "bits_of v 26 0x3f = 0x18"
  proof -
    have "drop_bit 26 v AND mask 6 = 0x18"
      by (rule bit_word_eqI) (auto simp: b bit_and_iff bit_drop_bit_eq bit_mask_iff c24 simp del: bit_numeral_word_iff)
    then show ?thesis by (simp add: bits_of_def mask_eq_exp_minus_1)
  qed
  have rd: "v AND 1 \<noteq> 0 \<longleftrightarrow> bit i 21"
    using b [of 0] and_bit_mask_eq_0 [of v 0] by simp
  have f: "bits_of v 14 7 = unat (drop_bit 16 i AND 7)" "bits_of v 17 7 = unat (drop_bit 5 i AND 7)"
    "bits_of v 10 0xf = unat (drop_bit 12 i AND 0xf)" "bits_of v 1 0xf = unat (drop_bit 8 i AND 0xf)"
    unfolding m by (rule bits_of_field, simp_all add: b add.commute)+
  have rt: "bits_of v 5 0x1f = unat (i AND 0x1f)"
    unfolding m using bits_of_field [of "mask 5" 5 v 5 i 0] by (simp add: b)
  show ?thesis
    using op0 f rt rd ec b [of 25] unfolding v_def [symmetric] decode_esr_def by simp
qed

section \<open>Into the guest's own EL2 and back\<close>

lemma set_nv_bit:
  "bit (ctx_rd (set_nv on s) ctl_hcr_el2) 42 = on"
  by (simp add: set_nv_def OHV_HCR_NV_def layout bit_simps bit_of_mask) 

lemma set_nv_rd [simp]:
  "ctl_hcr_el2 + 8 \<le> off \<or> off + 8 \<le> ctl_hcr_el2 \<Longrightarrow> off + 8 \<le> OHV_RW_STATE_DIRTY \<or> OHV_RW_STATE_DIRTY + 8 \<le> off
     \<Longrightarrow> ctx_rd (set_nv on s) off = ctx_rd s off"
  by (simp add: set_nv_def)

lemma set_nv_frame [simp]:
  "guest_at_el2 (set_nv on s) = guest_at_el2 s" "slot_pc (set_nv on s) = slot_pc s"
  "slot_cpsr (set_nv on s) = slot_cpsr s"
  by (simp_all add: slot_pc_def layout) (simp_all add: set_nv_def layout)

lemma slot_pc_upd [simp]: "slot_pc (s\<lparr>guest_at_el2 := x\<rparr>) = slot_pc s" 
   "slot_cpsr (s\<lparr>guest_at_el2 := x\<rparr>) = slot_cpsr s"
  by (simp_all add: slot_pc_def slot_cpsr_def)

lemma enter_guest_el2_state:
  defines "t \<equiv> \<lambda>esr ret s. enter_guest_el2 esr ret s"
  shows "guest_at_el2 (t esr ret s)" "slot_pc (t esr ret s) = ctx_rd s VBAR_EL2_WORD + 0x400"
    "slot_cpsr (t esr ret s) = 0x3c5" "bit (ctx_rd (t esr ret s) ctl_hcr_el2) 42"
    "ctx_rd (t esr ret s) bk_elr_el1 = ret" "ctx_rd (t esr ret s) bk_esr_el1 = esr"
    "ctx_rd (t esr ret s) bk_spsr_el1 = ucast (slot_cpsr s)"
  unfolding t_def enter_guest_el2_def Let_def
  by (simp_all add: set_nv_bit [unfolded layout] slot_pc_def layout OHV_VECT_LOWER64_SYNC_def)

lemma software_eret_to_el1:
  assumes "ctx_rd u bk_spsr_el1 = ucast c" "c AND 0xf = 4 \<or> c AND 0xf = 5"
  shows "slot_pc (software_eret u) = ctx_rd u bk_elr_el1" "slot_cpsr (software_eret u) = c"
    "\<not> guest_at_el2 (software_eret u)" "\<not> bit (ctx_rd (software_eret u) ctl_hcr_el2) 42"
proof -
  have c: "ucast (ucast (c :: u32) :: u64) = c" by (rule bit_word_eqI) (simp add: bit_unsigned_iff)
  have m: "(ucast (ucast c :: u64) AND 0xf = (4 :: u32)) \<or> (ucast (ucast c :: u64) AND 0xf = (5 :: u32))"
    unfolding c by (rule assms(2))
  show "slot_pc (software_eret u) = ctx_rd u bk_elr_el1" "slot_cpsr (software_eret u) = c"
    "\<not> guest_at_el2 (software_eret u)" "\<not> bit (ctx_rd (software_eret u) ctl_hcr_el2) 42"
    using m unfolding software_eret_def Let_def assms(1) 
    by (auto simp: set_nv_bit [unfolded layout] c slot_pc_def layout)
qed


text \<open>C11: A guest that does HVC from its own EL1 is taken into its own EL2 without the VMM seeing
  it -- at the vector its VBAR_EL2 names, with the syndrome, the return address and the
  interrupted PSTATE where an EL2 at hardware EL1 looks for them -- and when that code, whatever
  else it did, does an ordinary exception return with those two words still in place, the guest
  goes on after the HVC with the very PSTATE it had, back out of its EL2.
  (The sync trap is assumed to leave the exit record and to change nothing the second time.)\<close>

theorem hvc_eret_roundtrip:
  assumes cfg: "\<not> ohv_env (w_cfg w) cfg_OHV_NO_EL2_INJECTION" "\<not> ohv_env (w_cfg w) cfg_OHV_NO_ERET_EMULATION"
    and hvc: "exit_ec s = 0x16" "\<not> guest_at_el2 s"
    and el1: "slot_cpsr s AND 0xf = 4 \<or> slot_cpsr s AND 0xf = 5"
    and enter: "exit_classify w 1 st s = (a, st', t)"
    and eret: "is_eret u" "guest_at_el2 u"
    and sync: "sync_ctx w u = (r, u')" "sync_ctx w u' = (r', u')" "is_eret u'" "\<not> spsr_guarded (ctx_rd u' ext_spsr_gl1)"
    and kept: "ctx_rd u' bk_elr_el1 = ctx_rd t bk_elr_el1" "ctx_rd u' bk_spsr_el1 = ctx_rd t bk_spsr_el1"
    and leave: "exit_classify w 1 st' u = (b, st'', v)"
  shows "a = EXIT_KEEP_RUNNING \<and> guest_at_el2 t \<and> bit (ctx_rd t ctl_hcr_el2) 42
      \<and> slot_pc t = ctx_rd s VBAR_EL2_WORD + 0x400 \<and> slot_cpsr t = 0x3c5
      \<and> ctx_rd t bk_esr_el1 = exit_esr s \<and> ctx_rd t bk_elr_el1 = slot_pc s + 4
      \<and> b = EXIT_KEEP_RUNNING \<and> \<not> guest_at_el2 v \<and> \<not> bit (ctx_rd v ctl_hcr_el2) 42
      \<and> slot_pc v = slot_pc s + 4 \<and> slot_cpsr v = slot_cpsr s"
proof -
  have t: "(a, st', t) = (EXIT_KEEP_RUNNING, st, enter_guest_el2 (exit_esr s) (slot_pc s + 4) s)"
    unfolding enter [symmetric] exit_classify_def exit_sync_def using cfg hvc
    by (simp add: OHV_VMEXIT_MSR_TRAP_def)
  then have entered: "a = EXIT_KEEP_RUNNING \<and> guest_at_el2 t \<and> bit (ctx_rd t ctl_hcr_el2) 42
      \<and> slot_pc t = ctx_rd s VBAR_EL2_WORD + 0x400 \<and> slot_cpsr t = 0x3c5
      \<and> ctx_rd t bk_esr_el1 = exit_esr s \<and> ctx_rd t bk_elr_el1 = slot_pc s + 4"
    by (simp add: enter_guest_el2_state)
  have ec: "exit_ec u = 0x1a" using eret(1) by (simp add: is_eret_def)
  have "(b, st'', v) = (EXIT_KEEP_RUNNING, st', software_eret u')"
    unfolding leave [symmetric] exit_classify_def exit_sync_def exit_eret_def exit_software_eret_def
      eret_is_guarded_def using eret sync cfg ec
    by (simp add: OHV_VMEXIT_MSR_TRAP_def Let_def)
  moreover have "ctx_rd u' bk_spsr_el1 = ucast (slot_cpsr s)" "ctx_rd u' bk_elr_el1 = slot_pc s + 4"
    using kept t by (simp_all add: enter_guest_el2_state)
  ultimately have "b = EXIT_KEEP_RUNNING \<and> \<not> guest_at_el2 v \<and> \<not> bit (ctx_rd v ctl_hcr_el2) 42
      \<and> slot_pc v = slot_pc s + 4 \<and> slot_cpsr v = slot_cpsr s"
    using software_eret_to_el1 [of u' "slot_cpsr s"] el1 by simp
  with entered show ?thesis by blast
qed


text \<open>The guest's handler at its worst: it changes nothing, and its ERET traps.\<close>

definition hvc_guest :: VcpuSlot where
  "hvc_guest = set_slot_cpsr 0x3c4 (ctx_wr OHV_RO_EXIT_ESR 0x5a000000 new_VcpuSlot)"

definition eret_trapped :: "VcpuSlot \<Rightarrow> VcpuSlot" where
  "eret_trapped t = ctx_wr OHV_RO_EXIT_ESR 0x6a000000 t"

lemma sync_test_world [simp]: "sync_ctx test_world s = (HV_SUCCESS, s)"
  by (simp add: sync_ctx_def test_world_def)

lemma test_world_cfg [simp]: "w_cfg test_world = no_settings"
  by (simp add: test_world_def)

lemma eret_trapped_state:
  "is_eret (eret_trapped t)" "guest_at_el2 (eret_trapped t) = guest_at_el2 t"
  "ctx_rd (eret_trapped t) ext_spsr_gl1 = ctx_rd t ext_spsr_gl1"
  "ctx_rd (eret_trapped t) bk_elr_el1 = ctx_rd t bk_elr_el1"
  "ctx_rd (eret_trapped t) bk_spsr_el1 = ctx_rd t bk_spsr_el1"
  by (simp_all add: is_eret_def exit_ec_def exit_esr_def eret_trapped_def bits_of_def layout)

lemma ctx_rd_new [simp]: "ctx_rd new_VcpuSlot off = 0"
  by (simp add: ctx_rd_def new_VcpuSlot_def)

theorem hvc_eret_roundtrip_witness:
  "let t = snd (snd (exit_classify test_world 1 initial_statics hvc_guest));
       v = snd (snd (exit_classify test_world 1 initial_statics (eret_trapped t)))
   in guest_at_el2 t \<and> slot_pc t = 0x400 \<and> \<not> guest_at_el2 v \<and> slot_pc v = 4 \<and> slot_cpsr v = 0x3c4"
proof -
  obtain a st' t where t: "exit_classify test_world 1 initial_statics hvc_guest = (a, st', t)"
    by (rule prod_cases3)
  obtain b st'' v where v: "exit_classify test_world 1 st' (eret_trapped t) = (b, st'', v)"
    by (rule prod_cases3)
  have g: "exit_ec hvc_guest = 0x16" "\<not> guest_at_el2 hvc_guest" "slot_cpsr hvc_guest = 0x3c4"
    "slot_pc hvc_guest = 0" "ctx_rd hvc_guest VBAR_EL2_WORD = 0"
    by (simp_all add: exit_ec_def exit_esr_def hvc_guest_def bits_of_def slot_pc_def layout)
      (simp add: new_VcpuSlot_def)
  have st: "st' = initial_statics" and t': "t = enter_guest_el2 (exit_esr hvc_guest) (slot_pc hvc_guest + 4) hvc_guest"
    using t g by (simp_all add: exit_classify_def exit_sync_def OHV_VMEXIT_MSR_TRAP_def)
  have gl: "ctx_rd t ext_spsr_gl1 = 0"
    unfolding t' enter_guest_el2_def Let_def hvc_guest_def by (simp add: layout)
  note r = hvc_eret_roundtrip [OF _ _ g(1,2) _ t _ _ _ _ _ _ _ _ v, where r = HV_SUCCESS and r' = HV_SUCCESS]
  have "guest_at_el2 t" using t' by (simp add: enter_guest_el2_state)
  then have k: "is_eret (eret_trapped t)" "guest_at_el2 (eret_trapped t)"
    "\<not> spsr_guarded (ctx_rd (eret_trapped t) ext_spsr_gl1)"
    using gl by (simp_all add: eret_trapped_state spsr_guarded_def)
  from r [OF _ _ _ k(1,2) _ _ k(1,3)] g k(1,3) v st
  show ?thesis by (simp add: Let_def t eret_trapped_state)
qed

section \<open>Guarded returns\<close>

lemma guarded_eret_state:
  "ctx_rd (guarded_eret g s) bk_elr_el1 = ctx_rd s ext_elr_gl1"
  "ctx_rd (guarded_eret g s) bk_spsr_el1 = g" "slot_pc (guarded_eret g s) = slot_pc s"
  "\<not> bit (ctx_rd (guarded_eret g s) ctl_hcr_el2) 42" "nv_off_for_geret (guarded_eret g s)"
proof -
  define s2 where "s2 = ctx_dirty OHV_STATE_SYSREGS (ctx_wr bk_spsr_el1 g (ctx_wr bk_elr_el1 (ctx_rd s ext_elr_gl1) s))"
  have d: "guarded_eret g s = (set_nv False s2)\<lparr>nv_off_for_geret := True\<rparr>"
    by (simp add: guarded_eret_def s2_def Let_def)
  have u: "ctx_rd (q\<lparr>nv_off_for_geret := x\<rparr>) off = ctx_rd q off" for q x off by (simp add: ctx_rd_def)
  show "ctx_rd (guarded_eret g s) bk_elr_el1 = ctx_rd s ext_elr_gl1"
    "ctx_rd (guarded_eret g s) bk_spsr_el1 = g" "nv_off_for_geret (guarded_eret g s)"
    "\<not> bit (ctx_rd (guarded_eret g s) ctl_hcr_el2) 42"
    unfolding d u by (simp_all add: s2_def layout set_nv_bit [unfolded layout])
  show "slot_pc (guarded_eret g s) = slot_pc s"
    unfolding d slot_pc_def u by (simp add: s2_def layout)
qed

lemma guarded_is_legal: "spsr_guarded g \<Longrightarrow> report_illegal_eret g True = None"
  by (simp add: spsr_guarded_def report_illegal_eret_def Let_def)

lemma nv_restored:
  assumes "nv_off_for_geret n" "exit_ec n = 0x3f"
  shows "bit (ctx_rd (exit_nv_restore n) ctl_hcr_el2) 42 \<and> \<not> nv_off_for_geret (exit_nv_restore n)"
proof -
  have u: "ctx_rd (q\<lparr>nv_off_for_geret := x\<rparr>) off = ctx_rd q off" for q x off by (simp add: ctx_rd_def)
  show ?thesis using assms by (simp add: exit_nv_restore_def u set_nv_bit)
qed

text \<open>C12: A guarded return is left to the hardware: when the guarded SPSR the kernel hands out names
  a legal return that is not into EL2, the guarded pair stands where an ERET at hardware EL1
  looks for it, the program counter stays on the ERET, the nested-virtualization trap is off for
  it and remembered as such, and the SPSR is one the library's own check has no objection to; the
  next guarded exit puts the trap back on.\<close>

theorem guarded_return:
  assumes "\<not> ohv_env (w_cfg w) cfg_OHV_NO_HW_GERET" "is_eret s"
    and "sync_ctx w s = (r, s')" "spsr_guarded (ctx_rd s' ext_spsr_gl1)"
    and "exit_classify w 1 st s = (a, st', t)"
    and "nv_off_for_geret n = nv_off_for_geret t" "exit_ec n = 0x3f"
  shows "a = EXIT_KEEP_RUNNING \<and> slot_pc t = slot_pc s'
      \<and> ctx_rd t bk_elr_el1 = ctx_rd s' ext_elr_gl1 \<and> ctx_rd t bk_spsr_el1 = ctx_rd s' ext_spsr_gl1
      \<and> report_illegal_eret (ctx_rd t bk_spsr_el1) True = None
      \<and> \<not> bit (ctx_rd t ctl_hcr_el2) 42 \<and> nv_off_for_geret t
      \<and> bit (ctx_rd (exit_nv_restore n) ctl_hcr_el2) 42 \<and> \<not> nv_off_for_geret (exit_nv_restore n)"
proof -
  have ec: "exit_ec s = 0x1a" using assms(2) by (simp add: is_eret_def)
  have t: "(a, st', t) = (EXIT_KEEP_RUNNING, st, guarded_eret (ctx_rd s' ext_spsr_gl1) s')"
    unfolding assms(5) [symmetric] exit_classify_def exit_sync_def exit_eret_def eret_is_guarded_def
    using assms(1-4) ec by (simp add: OHV_VMEXIT_MSR_TRAP_def Let_def)
  then have "a = EXIT_KEEP_RUNNING \<and> slot_pc t = slot_pc s'
      \<and> ctx_rd t bk_elr_el1 = ctx_rd s' ext_elr_gl1 \<and> ctx_rd t bk_spsr_el1 = ctx_rd s' ext_spsr_gl1
      \<and> report_illegal_eret (ctx_rd t bk_spsr_el1) True = None
      \<and> \<not> bit (ctx_rd t ctl_hcr_el2) 42 \<and> nv_off_for_geret t"
    using guarded_is_legal [OF assms(4)] by (simp add: guarded_eret_state)
  moreover have "bit (ctx_rd (exit_nv_restore n) ctl_hcr_el2) 42 \<and> \<not> nv_off_for_geret (exit_nv_restore n)"
    by (rule nv_restored) (use assms(6,7) t guarded_eret_state(5) in auto)
  ultimately show ?thesis by blast
qed

definition geret_guest :: VcpuSlot where
  "geret_guest = ctx_wr ext_spsr_gl1 0x3c4 (ctx_wr ext_elr_gl1 0x8000
     (ctx_wr OHV_RO_EXIT_ESR 0x6a000000 new_VcpuSlot))"

theorem guarded_return_witness:
  "let t = snd (snd (exit_classify test_world 1 initial_statics geret_guest));
       n = exit_nv_restore (ctx_wr OHV_RO_EXIT_ESR 0xfe000000 t)
   in ctx_rd t bk_elr_el1 = 0x8000 \<and> ctx_rd t bk_spsr_el1 = 0x3c4
     \<and> \<not> bit (ctx_rd t ctl_hcr_el2) 42 \<and> bit (ctx_rd n ctl_hcr_el2) 42"
proof -
  obtain a st' t where t: "exit_classify test_world 1 initial_statics geret_guest = (a, st', t)"
    by (rule prod_cases3)
  have g: "is_eret geret_guest" "ctx_rd geret_guest ext_spsr_gl1 = 0x3c4"
    "ctx_rd geret_guest ext_elr_gl1 = 0x8000" "spsr_guarded 0x3c4"
    by (simp_all add: is_eret_def exit_ec_def exit_esr_def geret_guest_def bits_of_def layout
        spsr_guarded_def spsr_illegal_reason_def)
  have n: "nv_off_for_geret (ctx_wr OHV_RO_EXIT_ESR 0xfe000000 t) = nv_off_for_geret t"
    "exit_ec (ctx_wr OHV_RO_EXIT_ESR 0xfe000000 t) = 0x3f"
    by (simp_all add: exit_ec_def exit_esr_def bits_of_def) (simp add: ctx_wr_def)
  from guarded_return [OF _ g(1) sync_test_world _ t n] g(2-4) show ?thesis
    by (simp add: Let_def t)
qed

end
