(* ===== verification/Ohv_Run.thy ===== *)
theory Ohv_Run
  imports Ohv_Exit
begin

text \<open>
  The run loop of \<open>src/ohv_vcpu.cpp\<close>: \<open>hv_vcpu_run\<close> and \<open>hv_vcpus_exit\<close>.

  One pass of the loop depends on the surroundings -- the host's clock, what the run trap does
  to the context, what other threads do to the slot meanwhile -- and a \<open>turn\<close> is one such set
  of surroundings.  The loop is a recursion over a list of turns; the answer \<open>None\<close> is a vCPU
  that is still running when the turns are used up.  Other threads act on the slot at two
  places of a turn: \<open>t_during\<close> while the guest runs (before the first look at the cancel
  request) and \<open>t_between\<close> while the exit is classified (before the second).  The tracing of the
  first exits is left out here, with its counter; it is \<open>trace_first_run\<close> of \<open>Ohv_Trace\<close>.
\<close>

section \<open>What the exit path never touches\<close>

definition slot_meta :: "VcpuSlot \<Rightarrow> bool \<times> nat \<times> bool \<times> u64 \<times> u64 \<times> u64 \<times> bool \<times> bool \<times> bool" where
  "slot_meta s = (used s, owner s, ctx_mapped s, slot_id s, run_count s, wfi_ticks s, exit_requested s,
     vmm_irq s, vmm_fiq s)"

lemma slot_meta_field_upd [simp]:
  "slot_meta (s\<lparr>ctx := m\<rparr>) = slot_meta s" "slot_meta (s\<lparr>el2_shadow := e\<rparr>) = slot_meta s"
  "slot_meta (s\<lparr>gl2_bank := b\<rparr>) = slot_meta s" "slot_meta (s\<lparr>vm_tmr_fiq_ena := v\<rparr>) = slot_meta s"
  "slot_meta (s\<lparr>ctrr := c\<rparr>) = slot_meta s" "slot_meta (s\<lparr>ctx_trace := t\<rparr>) = slot_meta s"
  "slot_meta (s\<lparr>apple_shadow := p\<rparr>) = slot_meta s" "slot_meta (s\<lparr>gic_if := g\<rparr>) = slot_meta s"
  "slot_meta (s\<lparr>gic_if_ready := r\<rparr>) = slot_meta s" "slot_meta (s\<lparr>guest_at_el2 := x\<rparr>) = slot_meta s"
  "slot_meta (s\<lparr>pub_exit := q\<rparr>) = slot_meta s" "slot_meta (s\<lparr>nv_off_for_geret := x\<rparr>) = slot_meta s"
  "slot_meta (s\<lparr>timer_fired_v := x\<rparr>) = slot_meta s" "slot_meta (s\<lparr>timer_fired_p := x\<rparr>) = slot_meta s"
  "slot_meta (s\<lparr>timer_fiq := x\<rparr>) = slot_meta s" "slot_meta (s\<lparr>sptm_base := v\<rparr>) = slot_meta s"
  "slot_meta (s\<lparr>last_reason := y, last_esr := v\<rparr>) = slot_meta s"
  "slot_meta (s\<lparr>last_esr := v\<rparr>) = slot_meta s" "slot_meta (s\<lparr>last_reason := y\<rparr>) = slot_meta s"
  by (simp_all add: slot_meta_def)

lemma slot_meta_moves [simp]:
  "slot_meta (ctx_wr off v s) = slot_meta s" "slot_meta (ctx_dirty b s) = slot_meta s"
  "slot_meta (set_slot_cpsr c s) = slot_meta s" "slot_meta (dst_reg rt v s) = slot_meta s"
  "slot_meta (next_insn s) = slot_meta s" "slot_meta (set_nv on s) = slot_meta s"
  "slot_meta (set_timer_ctl p v s) = slot_meta s" "slot_meta (ctx_upd off f s) = slot_meta s"
  "slot_meta (set_exit_reason x s) = slot_meta s" "slot_meta (set_syndrome v s) = slot_meta s"
  by (simp_all add: ctx_wr_def ctx_dirty_def set_slot_cpsr_def dst_reg_def next_insn_def set_nv_def
      set_timer_ctl_def ctx_upd_def set_exit_reason_def set_syndrome_def)

lemma slot_meta_sync [simp]: "slot_meta (snd (sync_ctx w s)) = slot_meta s"
  by (simp add: sync_ctx_def split: prod.splits)

lemma slot_meta_sync_eq: "sync_ctx w s = (r, s') \<Longrightarrow> slot_meta s' = slot_meta s"
  using slot_meta_sync [of w s] by simp

lemma slot_meta_gic_if_slot: "gic_if_slot s e = (s', i) \<Longrightarrow> slot_meta s' = slot_meta s"
  by (auto simp: gic_if_slot_def Let_def split: option.splits if_splits)

lemma nv2_service_meta:
  assumes "nv2_service w a st s = (ok, st', s')"
  shows "slot_meta s' = slot_meta s"
proof (cases "nv2_block_of a")
  case Gic_if
  obtain s1 i where g: "gic_if_slot s (ucast (sys_enc a)) = (s1, i)" by force
  from slot_meta_gic_if_slot [OF g] Gic_if assms g show ?thesis
    by (auto simp: nv2_service_def nv2_gic_if_def done_access_def split: option.splits if_splits)
next
  case Timer
  with assms show ?thesis
    by (auto simp: nv2_service_def nv2_timer_def done_access_def Let_def split: if_splits)
qed (use assms in \<open>auto simp: nv2_service_def nv2_amxidr_def nv2_handoff_def nv2_gxf_def
      nv2_cache_id_def nv2_counter_def nv2_at_def nv2_pstate_field_def nv2_gl2_def nv2_tmr_ena_def
      nv2_ctx_trace_def nv2_el2_reg_def nv2_ctrr_def nv2_impdef_def done_access_def Let_def
      split: if_splits option.splits\<close>)

lemma service_meta: "service_nv2_access w e st s = (ok, st', s') \<Longrightarrow> slot_meta s' = slot_meta s"
  by (simp add: service_nv2_access_def nv2_service_meta)

lemma exit_steps_meta [simp]:
  "slot_meta (enter_guest_el2 e r s) = slot_meta s" "slot_meta (guarded_eret g s) = slot_meta s"
  "slot_meta (software_eret s) = slot_meta s" "slot_meta (exit_nv_restore s) = slot_meta s"
  "slot_meta (exit_rearm_nv c s) = slot_meta s" "slot_meta (exit_mirror_gl1 w s) = slot_meta s"
  "slot_meta (fill_exit s) = slot_meta s" "slot_meta (synth_msr_trap_syndrome w s) = slot_meta s"
  "slot_meta (synth_guarded_exit_syndrome w s) = slot_meta s"
  by (simp_all add: enter_guest_el2_def guarded_eret_def software_eret_def exit_nv_restore_def
      exit_rearm_nv_def exit_mirror_gl1_def fill_exit_def synth_msr_trap_syndrome_def
      synth_guarded_exit_syndrome_def Let_def split: option.splits)

lemma exit_eret_meta:
  "slot_meta (snd (snd (exit_software_eret w r st s))) = slot_meta s"
  "slot_meta (snd (snd (exit_eret w r st s))) = slot_meta s"
proof -
  have o: "slot_meta (snd (snd (exit_exception_out w r st s))) = slot_meta s" for s
    by (simp add: exit_exception_out_def)
  have e: "slot_meta (snd (snd (exit_software_eret w r st s))) = slot_meta s" for s
    by (simp add: exit_software_eret_def eret_is_guarded_def o Let_def)
  show "slot_meta (snd (snd (exit_software_eret w r st s))) = slot_meta s" by (rule e)
  show "slot_meta (snd (snd (exit_eret w r st s))) = slot_meta s"
    by (simp add: exit_eret_def eret_is_guarded_def e Let_def)
qed

lemma exit_sync_meta: "slot_meta (snd (snd (exit_sync w r st s))) = slot_meta s"
  by (simp add: exit_sync_def exit_eret_meta)

lemma exit_meta: "slot_meta (snd (snd (exit_from_ro w st s))) = slot_meta s"
proof -
  have m: "slot_meta (snd (snd (exit_msr w st s))) = slot_meta s" for st s
    by (simp add: exit_msr_def exit_sync_meta service_meta split: prod.split)
  have "slot_meta (snd (snd (exit_classify w r st s))) = slot_meta s" for r st s
    by (simp add: exit_classify_def exit_physical_def exit_exception_out_def exit_sync_meta m)
  then show ?thesis by (simp add: exit_from_ro_def exit_prepare_def Let_def)
qed

lemma expire_meta:
  assumes "ohv_expire_timers w st s = (st', s')"
  shows "slot_meta s' = slot_meta s"
proof -
  have e: "slot_meta (snd (expire_timer p n q)) = slot_meta q" for p n q
    by (simp add: expire_timer_def Let_def)
  have l: "slot_meta (put_level n up q) = slot_meta q" for n up q
    by (simp add: put_level_def Let_def)
  have i: "slot_meta (ohv_set_irq_level c q) = slot_meta q" "slot_meta (ohv_set_fiq_level c q) = slot_meta q" for c q
    by (simp_all add: ohv_set_irq_level_def ohv_set_fiq_level_def l Let_def)
  obtain b where n: "snd (ohv_note_image_band st s) = s\<lparr>sptm_base := b\<rparr>"
    using note_band_frame(3) [of st s] by (cases "ohv_note_image_band st s") auto
  have "slot_meta (snd (ohv_expire_timers w st s)) = slot_meta s"
    unfolding ohv_expire_timers_def Let_def using n
    by (simp add: i split: prod.split) (metis e slot_meta_field_upd snd_conv)
  with assms show ?thesis by simp
qed


text \<open>And the searched arrays stay within their bounds.\<close>

lemma slot_wf_exit_upd [simp]:
  "slot_wf (s\<lparr>pub_exit := q\<rparr>) = slot_wf s" "slot_wf (s\<lparr>nv_off_for_geret := x\<rparr>) = slot_wf s"
  "slot_wf (s\<lparr>timer_fired_v := x\<rparr>) = slot_wf s" "slot_wf (s\<lparr>timer_fired_p := x\<rparr>) = slot_wf s"
  "slot_wf (s\<lparr>timer_fiq := x\<rparr>) = slot_wf s" "slot_wf (s\<lparr>sptm_base := v\<rparr>) = slot_wf s"
  "slot_wf (s\<lparr>last_esr := v\<rparr>) = slot_wf s" "slot_wf (s\<lparr>last_reason := y\<rparr>) = slot_wf s"
  by (simp_all add: slot_wf_def)

lemma slot_wf_sync [simp]: "slot_wf (snd (sync_ctx w s)) = slot_wf s"
  using sync_ctx_frame [of w s "fst (sync_ctx w s)" "snd (sync_ctx w s)"] by (metis prod.collapse)

lemma slot_wf_reason [simp]:
  "slot_wf (set_exit_reason x s) = slot_wf s" "slot_wf (set_syndrome v s) = slot_wf s"
  by (simp_all add: set_exit_reason_def set_syndrome_def)

lemma exit_steps_wf [simp]:
  "slot_wf (enter_guest_el2 e r s) = slot_wf s" "slot_wf (guarded_eret g s) = slot_wf s"
  "slot_wf (software_eret s) = slot_wf s" "slot_wf (exit_nv_restore s) = slot_wf s"
  "slot_wf (exit_rearm_nv c s) = slot_wf s" "slot_wf (exit_mirror_gl1 w s) = slot_wf s"
  "slot_wf (fill_exit s) = slot_wf s" "slot_wf (synth_msr_trap_syndrome w s) = slot_wf s"
  "slot_wf (synth_guarded_exit_syndrome w s) = slot_wf s"
  by (simp_all add: enter_guest_el2_def guarded_eret_def software_eret_def exit_nv_restore_def
      exit_rearm_nv_def exit_mirror_gl1_def fill_exit_def synth_msr_trap_syndrome_def
      synth_guarded_exit_syndrome_def Let_def split: option.split)

lemma exit_sync_wf: "slot_wf (snd (snd (exit_sync w r st s))) = slot_wf s"
proof -
  have o: "slot_wf (snd (snd (exit_exception_out w r st s))) = slot_wf s" for s
    by (simp add: exit_exception_out_def)
  have e: "slot_wf (snd (snd (exit_software_eret w r st s))) = slot_wf s" for s
    by (simp add: exit_software_eret_def eret_is_guarded_def o Let_def)
  have "slot_wf (snd (snd (exit_eret w r st s))) = slot_wf s"
    by (simp add: exit_eret_def eret_is_guarded_def e Let_def)
  then show ?thesis by (simp add: exit_sync_def)
qed

lemma exit_wf: "slot_wf s \<Longrightarrow> slot_wf (snd (snd (exit_from_ro w st s)))"
proof -
  have "slot_wf (snd (snd (exit_msr w st s)))" if "slot_wf s" for st s
    using that by (auto simp: exit_msr_def exit_sync_wf service_nv2_access_def split: prod.split
        dest: nv2_service_wf)
  then have "slot_wf (snd (snd (exit_classify w r st s)))" if "slot_wf s" for r st s
    using that by (simp add: exit_classify_def exit_physical_def exit_exception_out_def exit_sync_wf)
  then show "slot_wf s \<Longrightarrow> ?thesis" by (simp add: exit_from_ro_def exit_prepare_def Let_def)
qed

lemma expire_wf:
  assumes "ohv_expire_timers w st s = (st', s')"
  shows "slot_wf s' = slot_wf s"
proof -
  have e: "slot_wf (snd (expire_timer p n q)) = slot_wf q" for p n q
    by (simp add: expire_timer_def Let_def)
  have l: "slot_wf (put_level n up q) = slot_wf q" for n up q
    by (simp add: put_level_def Let_def)
  have i: "slot_wf (ohv_set_irq_level c q) = slot_wf q" "slot_wf (ohv_set_fiq_level c q) = slot_wf q" for c q
    by (simp_all add: ohv_set_irq_level_def ohv_set_fiq_level_def l Let_def)
  obtain b where n: "snd (ohv_note_image_band st s) = s\<lparr>sptm_base := b\<rparr>"
    using note_band_frame(3) [of st s] by (cases "ohv_note_image_band st s") auto
  have "slot_wf (snd (ohv_expire_timers w st s)) = slot_wf s"
    unfolding ohv_expire_timers_def Let_def using n
    by (simp add: i split: prod.split) (metis e slot_wf_exit_upd snd_conv)
  with assms show ?thesis by simp
qed

section \<open>The loop\<close>

record turn =
  t_world :: world
  t_before :: u64
  t_run :: "mem \<Rightarrow> hv_return \<times> mem"
  t_during :: "VcpuSlot \<Rightarrow> VcpuSlot"
  t_after :: u64
  t_exit_world :: world
  t_between :: "VcpuSlot \<Rightarrow> VcpuSlot"

definition cancelled :: "VcpuSlot \<Rightarrow> VcpuSlot" where
  "cancelled s = set_exit_reason HV_EXIT_REASON_CANCELED (s\<lparr>exit_requested := False\<rparr>)"

definition enter_guest :: "turn \<Rightarrow> ohv_statics \<Rightarrow> VcpuSlot \<Rightarrow> hv_return \<times> ohv_statics \<times> VcpuSlot" where
  "enter_guest t st s =
     (let (st1, s1) = ohv_expire_timers (t_world t) st s;
          (r, m) = t_run t (ctx s1);
          s2 = t_during t (s1\<lparr>ctx := m\<rparr>)
      in (r, st1, s2\<lparr>wfi_ticks := wfi_ticks s2 + (t_after t - t_before t), run_count := run_count s2 + 1\<rparr>))"

definition run_turn ::
  "turn \<Rightarrow> ohv_statics \<Rightarrow> VcpuSlot \<Rightarrow> hv_return option \<times> ohv_statics \<times> VcpuSlot" where
  "run_turn t st s =
     (case enter_guest t st s of (r, st1, s1) \<Rightarrow>
        if r \<noteq> HV_SUCCESS then (Some r, st1, s1)
        else if exit_requested s1 then (Some HV_SUCCESS, st1, cancelled s1)
        else (case exit_from_ro (t_exit_world t) st1 s1 of (a, st2, s2) \<Rightarrow>
                let s3 = t_between t s2 in
                if a = EXIT_TO_VMM then (Some HV_SUCCESS, st2, s3\<lparr>exit_requested := False\<rparr>)
                else if exit_requested s3 then (Some HV_SUCCESS, st2, cancelled s3)
                else (None, st2, s3)))"

fun vcpu_run ::
  "turn list \<Rightarrow> ohv_statics \<Rightarrow> VcpuSlot \<Rightarrow> hv_return option \<times> ohv_statics \<times> VcpuSlot" where
  "vcpu_run [] st s = (None, st, s)"
| "vcpu_run (t # ts) st s =
     (case run_turn t st s of
        (Some r, st', s') \<Rightarrow> (Some r, st', s')
      | (None, st', s') \<Rightarrow> vcpu_run ts st' s')"

text \<open>Every turn is run under the settings as they settle here.\<close>

definition with_cfg :: "OhvCfg \<Rightarrow> turn \<Rightarrow> turn" where
  "with_cfg c t = t\<lparr>t_world := (t_world t)\<lparr>w_cfg := c\<rparr>, t_exit_world := (t_exit_world t)\<lparr>w_cfg := c\<rparr>\<rparr>"

definition hv_vcpu_run ::
  "nat \<Rightarrow> environment \<Rightarrow> turn list \<Rightarrow> u64 \<Rightarrow> cfg_state \<Rightarrow> ohv_statics \<Rightarrow> ohv_vm_state
     \<Rightarrow> hv_return option \<times> cfg_state \<times> ohv_statics \<times> ohv_vm_state" where
  "hv_vcpu_run me getenv ts i cs st g =
     (case owned_vcpu me g i of
        None \<Rightarrow> (Some HV_BAD_ARGUMENT, cs, st, g)
      | Some n \<Rightarrow>
          let cs' = ohv_cfg_settle getenv cs;
              (r, st', s') = vcpu_run (map (with_cfg (g_ohv_cfg cs')) ts) st (g_vcpus g n)
          in (r, cs', st', upd_slot n (\<lambda>_. s') g))"

section \<open>Asking a vCPU out\<close>

definition cancel_mask :: "u64 list \<Rightarrow> u64" where
  "cancel_mask ids = foldl (\<lambda>m i. m OR bit_mask (unat i)) 0 ids"

definition hv_vcpus_exit ::
  "'k kernel \<Rightarrow> u64 list option \<Rightarrow> u32 \<Rightarrow> ohv_vm_state \<Rightarrow> 'k \<Rightarrow> hv_return \<times> ohv_vm_state \<times> 'k" where
  "hv_vcpus_exit K vcpus n g k =
     (case vcpus of
        None \<Rightarrow> if n \<noteq> 0 then (HV_BAD_ARGUMENT, g, k)
               else (case k_run_cancel K k 0 of (r, k') \<Rightarrow> (r, g, k'))
      | Some a \<Rightarrow>
          let ids = take (unat n) a in
          if list_ex (\<lambda>i. of_nat kMaxVcpuIds \<le> i) ids then (HV_BAD_ARGUMENT, g, k)
          else
            let g' = foldl (\<lambda>h i. upd_slot (unat i) (\<lambda>s. s\<lparr>exit_requested := True\<rparr>) h) g ids
            in (case k_run_cancel K k (cancel_mask ids) of (r, k') \<Rightarrow> (r, g', k')))"

section \<open>What other threads may do\<close>

text \<open>The entry points another thread may call on a vCPU leave its identity and its counters alone and can only
  raise a cancel request.\<close>

definition meddles :: "(VcpuSlot \<Rightarrow> VcpuSlot) \<Rightarrow> bool" where
  "meddles f \<longleftrightarrow> (\<forall>q. used (f q) = used q \<and> owner (f q) = owner q \<and> slot_id (f q) = slot_id q
     \<and> run_count (f q) = run_count q \<and> wfi_ticks (f q) = wfi_ticks q
     \<and> (exit_requested q \<longrightarrow> exit_requested (f q)) \<and> (slot_wf q \<longrightarrow> slot_wf (f q)))"

definition turn_ok :: "turn \<Rightarrow> bool" where
  "turn_ok t \<longleftrightarrow> meddles (t_during t) \<and> meddles (t_between t)"

lemma meddlesD:
  assumes "meddles f"
  shows "used (f q) = used q" "owner (f q) = owner q" "slot_id (f q) = slot_id q"
    "run_count (f q) = run_count q" "wfi_ticks (f q) = wfi_ticks q"
    "exit_requested q \<Longrightarrow> exit_requested (f q)" "slot_wf q \<Longrightarrow> slot_wf (f q)"
  using assms by (simp_all add: meddles_def)

lemma meddles_id: "meddles (\<lambda>q. q)" "meddles (\<lambda>q. q\<lparr>exit_requested := True\<rparr>)"
  by (simp_all add: meddles_def slot_wf_def)

lemma slot_metaD:
  "slot_meta s = slot_meta t \<Longrightarrow> used s = used t \<and> owner s = owner t \<and> slot_id s = slot_id t
     \<and> run_count s = run_count t \<and> wfi_ticks s = wfi_ticks t \<and> exit_requested s = exit_requested t
     \<and> vmm_irq s = vmm_irq t \<and> vmm_fiq s = vmm_fiq t"
  by (simp add: slot_meta_def)

lemma enter_guest_frame:
  assumes "enter_guest t st s = (r, st', s')" "meddles (t_during t)"
  shows "used s' = used s \<and> owner s' = owner s \<and> slot_id s' = slot_id s
      \<and> run_count s' = run_count s + 1 \<and> wfi_ticks s' = wfi_ticks s + (t_after t - t_before t)
      \<and> (exit_requested s \<longrightarrow> exit_requested s') \<and> (slot_wf s \<longrightarrow> slot_wf s')"
proof -
  obtain st1 s1 where e: "ohv_expire_timers (t_world t) st s = (st1, s1)" by force
  obtain m where m: "t_run t (ctx s1) = (r, m)"
    using assms(1) e by (auto simp: enter_guest_def Let_def split: prod.splits)
  have s': "s' = (t_during t (s1\<lparr>ctx := m\<rparr>))\<lparr>wfi_ticks := wfi_ticks s1 + (t_after t - t_before t),
      run_count := run_count s1 + 1\<rparr>"
    using assms e m by (auto simp: enter_guest_def Let_def meddlesD)
  have wf: "slot_wf (q\<lparr>wfi_ticks := a, run_count := b\<rparr>) = slot_wf q" for q a b
    by (simp add: slot_wf_def)
  note m1 = slot_metaD [OF expire_meta [OF e]]
  note d = meddlesD [OF assms(2), of "s1\<lparr>ctx := m\<rparr>"]
  show ?thesis
    using m1 d expire_wf [OF e] unfolding s' by (simp add: wf)
qed

lemma exit_frame:
  assumes "exit_from_ro w st s = (a, st', s')"
  shows "used s' = used s \<and> owner s' = owner s \<and> slot_id s' = slot_id s
      \<and> run_count s' = run_count s \<and> wfi_ticks s' = wfi_ticks s \<and> exit_requested s' = exit_requested s
      \<and> (slot_wf s \<longrightarrow> slot_wf s')"
  using slot_metaD [OF exit_meta [of w st s]] exit_wf [of s w st] by (simp add: assms)

lemma cancelled_frame [simp]:
  "used (cancelled s) = used s" "owner (cancelled s) = owner s" "slot_id (cancelled s) = slot_id s"
  "run_count (cancelled s) = run_count s" "wfi_ticks (cancelled s) = wfi_ticks s"
  "\<not> exit_requested (cancelled s)" "slot_wf (cancelled s) = slot_wf s"
  "exit_reason (pub_exit (cancelled s)) = HV_EXIT_REASON_CANCELED"
  by (simp_all add: cancelled_def set_exit_reason_def slot_wf_def)

lemma run_turn_frame:
  assumes "run_turn t st s = (r, st', s')" "turn_ok t"
  shows "used s' = used s \<and> owner s' = owner s \<and> slot_id s' = slot_id s
      \<and> run_count s' = run_count s + 1 \<and> wfi_ticks s' = wfi_ticks s + (t_after t - t_before t)
      \<and> (slot_wf s \<longrightarrow> slot_wf s')"
proof -
  obtain e st1 s1 where g: "enter_guest t st s = (e, st1, s1)" by (rule prod_cases3)
  obtain a st2 s2 where x: "exit_from_ro (t_exit_world t) st1 s1 = (a, st2, s2)" by (rule prod_cases3)
  have m: "meddles (t_during t)" "meddles (t_between t)" using assms(2) by (simp_all add: turn_ok_def)
  have wf: "slot_wf (q\<lparr>exit_requested := b\<rparr>) = slot_wf q" for q b by (simp add: slot_wf_def)
  note f = enter_guest_frame [OF g m(1)]
  have b: "used (t_between t s2) = used s1" "owner (t_between t s2) = owner s1"
    "slot_id (t_between t s2) = slot_id s1" "run_count (t_between t s2) = run_count s1"
    "wfi_ticks (t_between t s2) = wfi_ticks s1" "slot_wf s1 \<Longrightarrow> slot_wf (t_between t s2)"
    using exit_frame [OF x] meddlesD [OF m(2), of s2] by simp_all
  consider "s' = s1" | "s' = cancelled s1" | "s' = (t_between t s2)\<lparr>exit_requested := False\<rparr>"
    | "s' = cancelled (t_between t s2)" | "s' = t_between t s2"
    using assms(1) by (simp add: run_turn_def g x Let_def split: if_split_asm)
  then show ?thesis using f b by cases (simp_all add: wf)
qed

lemma vcpu_run_frame:
  assumes "vcpu_run ts st s = (r, st', s')" "\<forall>t \<in> set ts. turn_ok t"
  shows "used s' = used s \<and> owner s' = owner s \<and> slot_id s' = slot_id s \<and> (slot_wf s \<longrightarrow> slot_wf s')"
  using assms
proof (induction ts arbitrary: st s)
  case (Cons t ts)
  obtain e st1 s1 where t: "run_turn t st s = (e, st1, s1)" by (rule prod_cases3)
  have "turn_ok t" using Cons.prems(2) by simp
  note f = run_turn_frame [OF t this]
  show ?case
  proof (cases e)
    case None
    with Cons.prems t have "vcpu_run ts st1 s1 = (r, st', s')" by simp
    from Cons.IH [OF this] Cons.prems(2) f show ?thesis by simp
  qed (use Cons.prems t f in simp)
qed simp

section \<open>The clock of a run\<close>

text \<open>Every entry into the guest is counted, and the whole time of each is added to the counter
  \<open>hv_vcpu_get_wait_for_interrupt_time\<close> answers with -- not only the time the guest waited: over a run
  of the loop the counters move by exactly the entries made and by the sum of their durations, and
  a run that is still going has made one entry for every turn.\<close>

theorem run_accounts:
  assumes "vcpu_run ts st s = (r, st', s')" "\<forall>t \<in> set ts. turn_ok t"
  shows "\<exists>n \<le> length ts. run_count s' = run_count s + of_nat n
      \<and> wfi_ticks s' = wfi_ticks s + sum_list (map (\<lambda>t. t_after t - t_before t) (take n ts))
      \<and> (ts \<noteq> [] \<longrightarrow> 0 < n) \<and> (r = None \<longrightarrow> n = length ts)"
  using assms
proof (induction ts arbitrary: st s)
  case (Cons t ts)
  obtain e st1 s1 where t: "run_turn t st s = (e, st1, s1)" by (rule prod_cases3)
  have "turn_ok t" using Cons.prems(2) by simp
  note f = run_turn_frame [OF t this]
  show ?case
  proof (cases e)
    case None
    with Cons.prems t have "vcpu_run ts st1 s1 = (r, st', s')" by simp
    from Cons.IH [OF this] Cons.prems(2) obtain n where n: "n \<le> length ts"
      "run_count s' = run_count s1 + of_nat n"
      "wfi_ticks s' = wfi_ticks s1 + sum_list (map (\<lambda>t. t_after t - t_before t) (take n ts))"
      "r = None \<longrightarrow> n = length ts" by auto
    then show ?thesis using f by (intro exI [of _ "Suc n"]) (simp add: algebra_simps)
  next
    case (Some e')
    with Cons.prems t f show ?thesis by (intro exI [of _ 1]) auto
  qed
qed simp


section \<open>Cancellation\<close>

lemma vcpu_run_append:
  "vcpu_run pre st s = (None, st1, s1) \<Longrightarrow> vcpu_run (pre @ ts) st s = vcpu_run ts st1 s1"
proof (induction pre arbitrary: st s)
  case (Cons t pre)
  obtain e st2 s2 where t: "run_turn t st s = (e, st2, s2)" by (rule prod_cases3)
  with Cons.prems have "e = None" by (cases e) auto
  with Cons t show ?case by simp
qed simp

lemma run_turn_cancel:
  assumes ok: "turn_ok t" and e: "enter_guest t st s = (r, st1, s1)"
    and c: "exit_requested s1 \<or> (\<forall>q. exit_requested (t_between t q))"
  shows "\<exists>st' s'. run_turn t st s = (Some r, st', s')
      \<and> (r = HV_SUCCESS \<longrightarrow> \<not> exit_requested s')
      \<and> (r = HV_SUCCESS \<and> exit_requested s1 \<longrightarrow> exit_reason (pub_exit s') = HV_EXIT_REASON_CANCELED)
      \<and> (r \<noteq> HV_SUCCESS \<longrightarrow> s' = s1)"
proof (cases "r = HV_SUCCESS \<and> \<not> exit_requested s1")
  case True
  obtain a st2 s2 where x: "exit_from_ro (t_exit_world t) st1 s1 = (a, st2, s2)" by (rule prod_cases3)
  from True c have b: "exit_requested (t_between t s2)" by blast
  show ?thesis using True b by (simp add: run_turn_def e x Let_def)
next
  case False
  then show ?thesis by (auto simp: run_turn_def e)
qed

text \<open>C4: A cancel is never lost: whether the request was standing before a pass of the loop, came in
  while the guest was running, or came in while its exit was being handled, \<open>hv_vcpu_run\<close> returns in
  that very pass, however the surroundings behave afterwards.  When the run trap succeeded the
  request is used up, and one that was there before the exit was looked at is reported as a
  cancelled exit; when the trap failed, its error is returned and the request keeps standing.\<close>

theorem cancel_is_served:
  assumes "vcpu_run pre st s = (None, st1, s1)" "turn_ok t"
    and "enter_guest t st1 s1 = (r, st2, s2)"
    and "exit_requested s1 \<or> (\<forall>q. exit_requested (t_during t q)) \<or> (\<forall>q. exit_requested (t_between t q))"
  shows "\<exists>st' s'. vcpu_run (pre @ t # post) st s = (Some r, st', s')
      \<and> (r = HV_SUCCESS \<longrightarrow> \<not> exit_requested s')
      \<and> (r = HV_SUCCESS \<and> exit_requested s2 \<longrightarrow> exit_reason (pub_exit s') = HV_EXIT_REASON_CANCELED)
      \<and> (r \<noteq> HV_SUCCESS \<longrightarrow> exit_requested s' = exit_requested s2)
      \<and> (exit_requested s1 \<or> (\<forall>q. exit_requested (t_during t q)) \<longrightarrow> exit_requested s2)"
proof -
  have d: "exit_requested s2" if "exit_requested s1 \<or> (\<forall>q. exit_requested (t_during t q))"
  proof -
    have "exit_requested s2" if "\<forall>q. exit_requested (t_during t q)"
      using assms(3) that by (auto simp: enter_guest_def Let_def split: prod.splits)
    with that enter_guest_frame [OF assms(3)] assms(2) show ?thesis by (auto simp: turn_ok_def)
  qed
  with assms(4) have "exit_requested s2 \<or> (\<forall>q. exit_requested (t_between t q))" by blast
  from run_turn_cancel [OF assms(2,3) this] obtain st' s' where
    x: "run_turn t st1 s1 = (Some r, st', s')" "r = HV_SUCCESS \<longrightarrow> \<not> exit_requested s'"
      "r = HV_SUCCESS \<and> exit_requested s2 \<longrightarrow> exit_reason (pub_exit s') = HV_EXIT_REASON_CANCELED"
      "r \<noteq> HV_SUCCESS \<longrightarrow> s' = s2" by blast
  have "vcpu_run (pre @ t # post) st s = (Some r, st', s')"
    by (simp add: vcpu_run_append [OF assms(1)] x(1))
  with x d show ?thesis by blast
qed

text \<open>The witnesses: a guest whose exits are all the library's own business (reason 2, handled by the
  kernel) would be run for ever; another thread asks it out during the second entry.\<close>

definition busy_turn :: "(VcpuSlot \<Rightarrow> VcpuSlot) \<Rightarrow> turn" where
  "busy_turn f = \<lparr>t_world = test_world, t_before = 10, t_run = (\<lambda>m. (HV_SUCCESS, wr32 m OHV_RO_EXIT_REASON 2)),
     t_during = f, t_after = 14, t_exit_world = test_world, t_between = (\<lambda>q. q)\<rparr>"

definition ask_out :: "VcpuSlot \<Rightarrow> VcpuSlot" where
  "ask_out q = q\<lparr>exit_requested := True\<rparr>"

lemma busy_turn_ok: "turn_ok (busy_turn (\<lambda>q. q))" "turn_ok (busy_turn ask_out)"
  using meddles_id by (simp_all add: turn_ok_def busy_turn_def ask_out_def [abs_def])

lemma busy_enter: "\<exists>st' s'. enter_guest (busy_turn f) st s = (HV_SUCCESS, st', s')"
  by (simp add: enter_guest_def busy_turn_def Let_def split: prod.split)


lemma vmexit_reason_moves [simp]:
  "off + 8 \<le> OHV_RO_EXIT_REASON \<Longrightarrow> vmexit_reason (ctx_wr off v s) = vmexit_reason s"
  "vmexit_reason (ctx_dirty b s) = vmexit_reason s" "vmexit_reason (s\<lparr>nv_off_for_geret := x\<rparr>) = vmexit_reason s"
  by (simp_all add: vmexit_reason_def ctx_wr_def ctx_dirty_def layout)

lemma vmexit_reason_set_nv [simp]: "vmexit_reason (set_nv on s) = vmexit_reason s"
  by (simp add: set_nv_def layout)

lemma busy_exit:
  assumes "vmexit_reason s = 2"
  shows "\<exists>st' s'. exit_from_ro test_world st s = (EXIT_KEEP_RUNNING, st', s')"
proof -
  have "vmexit_reason (exit_prepare test_world s) = 2"
    using assms by (simp add: exit_prepare_def exit_mirror_gl1_def exit_nv_restore_def exit_rearm_nv_def)
  then show ?thesis by (simp add: exit_from_ro_def exit_classify_def Let_def)
qed

lemma busy_runs_on:
  assumes "\<not> exit_requested s"
  shows "\<exists>st' s'. run_turn (busy_turn (\<lambda>q. q)) st s = (None, st', s') \<and> \<not> exit_requested s'"
proof -
  obtain st1 s1 where e: "ohv_expire_timers test_world st s = (st1, s1)" by force
  define s2 where "s2 = s1\<lparr>ctx := wr32 (ctx s1) OHV_RO_EXIT_REASON 2,
      wfi_ticks := wfi_ticks s1 + 4, run_count := run_count s1 + 1\<rparr>"
  have g: "enter_guest (busy_turn (\<lambda>q. q)) st s = (HV_SUCCESS, st1, s2)"
    by (simp add: enter_guest_def busy_turn_def e s2_def)
  have q: "\<not> exit_requested s2" using slot_metaD [OF expire_meta [OF e]] assms by (simp add: s2_def)
  have "vmexit_reason s2 = 2" by (simp add: vmexit_reason_def s2_def)
  from busy_exit [OF this] obtain st3 s3 where x: "exit_from_ro test_world st1 s2 = (EXIT_KEEP_RUNNING, st3, s3)"
    by blast
  have "exit_requested s3 = exit_requested s2" using exit_frame [OF x] by simp
  with q x show ?thesis by (simp add: run_turn_def g) (simp add: busy_turn_def)
qed

theorem run_accounts_witness:
  "case vcpu_run [busy_turn (\<lambda>q. q), busy_turn (\<lambda>q. q)] initial_statics new_VcpuSlot of (r, _, s) \<Rightarrow>
     r = None \<and> run_count s = 2 \<and> wfi_ticks s = 8"
proof -
  let ?t = "busy_turn (\<lambda>q. q)"
  have n: "\<not> exit_requested new_VcpuSlot" by (simp add: new_VcpuSlot_def)
  obtain st1 s1 where 1: "run_turn ?t initial_statics new_VcpuSlot = (None, st1, s1)" "\<not> exit_requested s1"
    using busy_runs_on [OF n] by blast
  obtain st2 s2 where 2: "run_turn ?t st1 s1 = (None, st2, s2)" using busy_runs_on [OF 1(2)] by blast
  have r: "vcpu_run [?t, ?t] initial_statics new_VcpuSlot = (None, st2, s2)" by (simp add: 1 2)
  from run_accounts [OF r] busy_turn_ok have "run_count s2 = 2 \<and> wfi_ticks s2 = 8"
    by (auto simp: new_VcpuSlot_def busy_turn_def)
  with r show ?thesis by simp
qed

theorem cancel_is_served_witness:
  "fst (vcpu_run ([busy_turn (\<lambda>q. q)] @ busy_turn ask_out # replicate 9 (busy_turn (\<lambda>q. q)))
     initial_statics new_VcpuSlot) = Some HV_SUCCESS"
proof -
  let ?t = "busy_turn (\<lambda>q. q)"
  have n: "\<not> exit_requested new_VcpuSlot" by (simp add: new_VcpuSlot_def)
  obtain st1 s1 where 1: "run_turn ?t initial_statics new_VcpuSlot = (None, st1, s1)"
    using busy_runs_on [OF n] by blast
  obtain st2 s2 where e: "enter_guest (busy_turn ask_out) st1 s1 = (HV_SUCCESS, st2, s2)"
    using busy_enter by blast
  have "vcpu_run [?t] initial_statics new_VcpuSlot = (None, st1, s1)" by (simp add: 1)
  from cancel_is_served [OF this busy_turn_ok(2) e, of "replicate 9 ?t"] show ?thesis
    by (auto simp: busy_turn_def ask_out_def)
qed

section \<open>A cancel that outlives its vCPU\<close>

lemma vcpu_init_keeps_request:
  "exit_requested (vcpu_init cfg g me n m mapped s) = exit_requested s"
  "run_count (vcpu_init cfg g me n m mapped s) = 0" "owner (vcpu_init cfg g me n m mapped s) = me"
proof -
  have e: "slot_meta (el2_controls c v q) = slot_meta q" for c v q
    by (simp add: el2_controls_def Let_def split: option.split)
  have v: "slot_meta (enable_vgic q) = slot_meta q" for q by (simp add: enable_vgic_def)
  define s1 where "s1 = s\<lparr>used := True, ctx := m, ctx_mapped := mapped, slot_id := of_nat n,
     owner := me, run_count := 0\<rparr>"
  have "slot_meta (vcpu_init cfg g me n m mapped s) = slot_meta s1"
    by (simp add: vcpu_init_def Let_def s1_def [symmetric] e v)
  from slot_metaD [OF this] show "exit_requested (vcpu_init cfg g me n m mapped s) = exit_requested s"
    "run_count (vcpu_init cfg g me n m mapped s) = 0" "owner (vcpu_init cfg g me n m mapped s) = me"
    by (simp_all add: s1_def)
qed

lemma exit_one:
  assumes "hv_vcpus_exit K (Some [i]) 1 g k = (e, g', k')" "i < 64"
  shows "g' = upd_slot (unat i) (\<lambda>s. s\<lparr>exit_requested := True\<rparr>) g"
proof -
  have "\<not> of_nat kMaxVcpuIds \<le> i" using assms(2) by (simp add: kMaxVcpuIds_def)
  with assms(1) show ?thesis by (simp add: hv_vcpus_exit_def split: prod.split_asm)
qed

lemma create_success:
  assumes "hv_vcpu_create K cfg me p q g k = (HV_SUCCESS, out, g', k')" "free_slot g = Some n"
  shows "\<exists>m mapped. out = Some n \<and> g' = (upd_slot n (vcpu_init cfg g me n m mapped) g)
      \<lparr>tl_current_vcpu := (tl_current_vcpu g)(me := Some n)\<rparr> \<and> g_vm_alive g"
proof -
  obtain r mapped m k1 where v: "k_vcpu_create K k (of_nat n) = (r, mapped, m, k1)" by (rule prod_cases4)
  from assms show ?thesis
    unfolding hv_vcpu_create_def Let_def
    by (intro exI [of _ m] exI [of _ mapped]) (auto simp: v split: if_split_asm)
qed

text \<open>C25: A request to leave is accepted for a vCPU number nobody holds, and creation does not clear it:
  the vCPU that later gets the number is taken out of its first run right after its first entry,
  with a cancelled exit its owner never asked for.\<close>

theorem stale_cancel:
  assumes "free_slot g = Some n" "hv_vcpus_exit K (Some [of_nat n]) 1 g k = (e, g1, k1)"
    and "hv_vcpu_create K cfg me True True g1 k1 = (HV_SUCCESS, out, g2, k2)"
    and "turn_ok t" "\<forall>m. fst (t_run t m) = HV_SUCCESS"
    and "hv_vcpu_run me getenv (t # ts) (of_nat n) cs st g2 = (r, cs', st', g3)"
  shows "out = Some n \<and> r = Some HV_SUCCESS
      \<and> exit_reason (pub_exit (g_vcpus g3 n)) = HV_EXIT_REASON_CANCELED \<and> run_count (g_vcpus g3 n) = 1"
proof -
  have n: "n < 64" using free_slot_Some [OF assms(1)] by simp
  then have u: "unat (of_nat n :: u64) = n" by (simp add: unat_of_nat)
  have "(of_nat n :: u64) < 64" using n by (simp add: word_less_nat_alt unat_of_nat)
  from exit_one [OF assms(2) this] have g1: "g1 = upd_slot n (\<lambda>s. s\<lparr>exit_requested := True\<rparr>) g"
    by (simp add: u)
  have f1: "free_slot g1 = Some n"
  proof -
    have "used (g_vcpus g1 i) = used (g_vcpus g i)" for i by (simp add: g1)
    then show ?thesis using assms(1) by (simp add: free_slot_def)
  qed
  obtain m mapped where g2: "g2 = (upd_slot n (vcpu_init cfg g1 me n m mapped) g1)
      \<lparr>tl_current_vcpu := (tl_current_vcpu g1)(me := Some n)\<rparr>" and out: "out = Some n"
    using create_success [OF assms(3) f1] by blast
  define s where "s = g_vcpus g2 n"
  have s: "exit_requested s" "run_count s = 0" "used s"
    unfolding s_def g2 by (simp_all add: vcpu_init_keeps_request g1)
  have o: "owned_vcpu me g2 (of_nat n) = Some n"
    using find_vcpu_used [of n g2] n s(3) by (simp add: owned_vcpu_def s_def) (simp add: g2)
  define cs1 where "cs1 = ohv_cfg_settle getenv cs"
  define t' where "t' = with_cfg (g_ohv_cfg cs1) t"
  have ok: "turn_ok t'" "\<forall>m. fst (t_run t' m) = HV_SUCCESS"
    using assms(4,5) by (simp_all add: t'_def with_cfg_def turn_ok_def)
  obtain e1 st1 s1 where g: "enter_guest t' st s = (e1, st1, s1)" by (rule prod_cases3)
  have e1: "e1 = HV_SUCCESS" using g ok(2) by (auto simp: enter_guest_def Let_def split: prod.splits) (metis fst_conv)
  have f: "exit_requested s1" "run_count s1 = 1"
    using enter_guest_frame [OF g] ok(1) s by (simp_all add: turn_ok_def)
  have "run_turn t' st s = (Some HV_SUCCESS, st1, cancelled s1)" by (simp add: run_turn_def g e1 f)
  with assms(6) o have "r = Some HV_SUCCESS \<and> g3 = upd_slot n (\<lambda>_. cancelled s1) g2"
    by (simp add: hv_vcpu_run_def Let_def cs1_def [symmetric] t'_def [symmetric] s_def [symmetric])
  with f out show ?thesis by simp
qed


theorem stale_cancel_witness:
  "let (_, g1, k1) = hv_vcpus_exit granting_kernel (Some [0]) 1 el2_vm 0;
       (r, out, g2, _) = hv_vcpu_create granting_kernel no_settings 7 True True g1 k1;
       (r', _, _, g3) = hv_vcpu_run 7 (\<lambda>_. None) [busy_turn (\<lambda>q. q)] 0 (ohv_cfg_init (\<lambda>_. None)) initial_statics g2
   in r = HV_SUCCESS \<and> r' = Some HV_SUCCESS \<and> exit_reason (pub_exit (g_vcpus g3 0)) = HV_EXIT_REASON_CANCELED"
proof -
  obtain e g1 k1 where x: "hv_vcpus_exit granting_kernel (Some [of_nat 0]) 1 el2_vm 0 = (e, g1, k1)"
    by (rule prod_cases3)
  have g1: "g1 = upd_slot 0 (\<lambda>s. s\<lparr>exit_requested := True\<rparr>) el2_vm" using exit_one [OF x] by simp
  have f: "free_slot g1 = Some 0"
  proof -
    have "used (g_vcpus g1 i) = used (g_vcpus el2_vm i)" for i by (simp add: g1)
    then show ?thesis using initial_free by (simp add: free_slot_def)
  qed
  have a: "g_vm_alive g1" "tl_current_vcpu g1 7 = None"
    by (simp_all add: g1) (simp_all add: el2_vm_def initial_state_def)
  have "\<exists>out g2 k2. hv_vcpu_create granting_kernel no_settings 7 True True g1 k1 = (HV_SUCCESS, out, g2, k2)"
    by (simp add: hv_vcpu_create_def f a granting_kernel_def Let_def) (simp add: layout masks)
  then obtain out g2 k2 where c: "hv_vcpu_create granting_kernel no_settings 7 True True g1 k1 = (HV_SUCCESS, out, g2, k2)"
    by blast
  obtain r cs' st' g3 where r: "hv_vcpu_run 7 (\<lambda>_. None) [busy_turn (\<lambda>q. q)] (of_nat 0)
      (ohv_cfg_init (\<lambda>_. None)) initial_statics g2 = (r, cs', st', g3)" by (rule prod_cases4)
  have t: "\<forall>m. fst (t_run (busy_turn (\<lambda>q. q)) m) = HV_SUCCESS" by (simp add: busy_turn_def)
  from stale_cancel [OF initial_free x c busy_turn_ok(1) t r] 
  show ?thesis using x c r by (simp add: Let_def)
qed

end
