(* ===== verification/Ohv_Gic.thy ===== *)
theory Ohv_Gic
  imports Ohv_Vcpu Ohv_Bank
begin

text \<open>
  The interrupt controller of \<open>src/ohv_gic.cpp\<close>: a model object (\<open>GicModel\<close> of \<open>Ohv_State\<close>) that
  lives in this process, its configuration, the register frames addressed by byte offset, the CPU
  interface registers addressed by system register encoding, the half of the virtual CPU interface
  that reaches the hardware through the vCPU context, shared interrupts and saved state.

  The arrays of the model are functions from their index; every index the code computes stays
  inside its array (\<open>gic_indices_in_bounds\<close>).  The registers of
  \<open>include/openhyp/hv_compat_enums.h\<close> are a datatype with the offsets of the header's families.
  The traces of this file are left out.
\<close>

section \<open>Geometry and register numbers\<close>

definition kDistSize :: nat where [layout]: "kDistSize = 0x10000"
definition kRedistSize :: nat where [layout]: "kRedistSize = 0x20000"
definition kRedistRegion :: nat where [layout]: "kRedistRegion = 0x2000000"
definition kMsiRegionSize :: nat where [layout]: "kMsiRegionSize = 0x10000"
definition kSpiBase :: u32 where [masks]: "kSpiBase = 32"
definition kSpiCount :: u32 where [masks]: "kSpiCount = 988"
definition kDistSlots :: nat where [layout]: "kDistSlots = kDistSize div 4"
definition kRedistSlots :: nat where [layout]: "kRedistSlots = kRedistSize div 4"
definition kMsiSlots :: nat where [layout]: "kMsiSlots = kMsiRegionSize div 4"
definition kModelledCpus :: nat where [layout]: "kModelledCpus = 16"
definition kIccSlots :: nat where [layout]: "kIccSlots = 16"
definition kIchSlots :: nat where [layout]: "kIchSlots = 32"
definition kIcvSlots :: nat where [layout]: "kIcvSlots = 16"
definition kGicdCtlrReset :: u64 where [masks]: "kGicdCtlrReset = 0x50"
definition kGicdTyperReset :: u64 where [masks]: "kGicdTyperReset = 0x0478001f"

text \<open>The distributor's registers, \<open>HV_GIC_DISTRIBUTOR_REG_*\<close>: the numbered ones with their number.\<close>

datatype gicd_reg = GICD_CTLR | GICD_TYPER | GICD_IGROUPR nat | GICD_ISENABLER nat
  | GICD_ICENABLER nat | GICD_ISPENDR nat | GICD_ICPENDR nat | GICD_ISACTIVER nat
  | GICD_ICACTIVER nat | GICD_IPRIORITYR nat | GICD_ICFGR nat | GICD_IROUTER nat | GICD_PIDR2

fun gicd_exists :: "gicd_reg \<Rightarrow> bool" where
  "gicd_exists GICD_CTLR = True"
| "gicd_exists GICD_TYPER = True"
| "gicd_exists (GICD_IGROUPR n) = (n < 32)"
| "gicd_exists (GICD_ISENABLER n) = (n < 32)"
| "gicd_exists (GICD_ICENABLER n) = (n < 32)"
| "gicd_exists (GICD_ISPENDR n) = (n < 32)"
| "gicd_exists (GICD_ICPENDR n) = (n < 32)"
| "gicd_exists (GICD_ISACTIVER n) = (n < 32)"
| "gicd_exists (GICD_ICACTIVER n) = (n < 32)"
| "gicd_exists (GICD_IPRIORITYR n) = (n < 255)"
| "gicd_exists (GICD_ICFGR n) = (n < 64)"
| "gicd_exists (GICD_IROUTER n) = (32 \<le> n \<and> n < 1020)"
| "gicd_exists GICD_PIDR2 = True"

text \<open>The offsets the enumeration gives the numbered registers, family by family.\<close>

definition gicd_igroupr :: "nat \<Rightarrow> nat" where [simp]: "gicd_igroupr n = 0x0080 + 4 * n"
definition gicd_isenabler :: "nat \<Rightarrow> nat" where [simp]: "gicd_isenabler n = 0x0100 + 4 * n"
definition gicd_icenabler :: "nat \<Rightarrow> nat" where [simp]: "gicd_icenabler n = 0x0180 + 4 * n"
definition gicd_ispendr :: "nat \<Rightarrow> nat" where [simp]: "gicd_ispendr n = 0x0200 + 4 * n"
definition gicd_icpendr :: "nat \<Rightarrow> nat" where [simp]: "gicd_icpendr n = 0x0280 + 4 * n"
definition gicd_isactiver :: "nat \<Rightarrow> nat" where [simp]: "gicd_isactiver n = 0x0300 + 4 * n"
definition gicd_icactiver :: "nat \<Rightarrow> nat" where [simp]: "gicd_icactiver n = 0x0380 + 4 * n"
definition gicd_ipriorityr :: "nat \<Rightarrow> nat" where [simp]: "gicd_ipriorityr n = 0x0400 + 4 * n"
definition gicd_icfgr :: "nat \<Rightarrow> nat" where [simp]: "gicd_icfgr n = 0x0c00 + 4 * n"
definition gicd_irouter :: "nat \<Rightarrow> nat" where [simp]: "gicd_irouter n = 0x6100 + 8 * (n - 32)"

fun gicd_offset :: "gicd_reg \<Rightarrow> nat" where
  "gicd_offset GICD_CTLR = 0x0000"
| "gicd_offset GICD_TYPER = 0x0004"
| "gicd_offset (GICD_IGROUPR n) = gicd_igroupr n"
| "gicd_offset (GICD_ISENABLER n) = gicd_isenabler n"
| "gicd_offset (GICD_ICENABLER n) = gicd_icenabler n"
| "gicd_offset (GICD_ISPENDR n) = gicd_ispendr n"
| "gicd_offset (GICD_ICPENDR n) = gicd_icpendr n"
| "gicd_offset (GICD_ISACTIVER n) = gicd_isactiver n"
| "gicd_offset (GICD_ICACTIVER n) = gicd_icactiver n"
| "gicd_offset (GICD_IPRIORITYR n) = gicd_ipriorityr n"
| "gicd_offset (GICD_ICFGR n) = gicd_icfgr n"
| "gicd_offset (GICD_IROUTER n) = gicd_irouter n"
| "gicd_offset GICD_PIDR2 = 0xffe8"

text \<open>The redistributor's, \<open>HV_GIC_REDISTRIBUTOR_REG_*\<close>, and the system register encodings of the CPU
  interface.\<close>

definition gicr_regs :: "(string \<times> nat) list" where
  "gicr_regs =
    [(''GICR_TYPER'', 0x0008), (''GICR_PIDR2'', 0xffe8), (''GICR_IGROUPR0'', 0x10080),
     (''GICR_ISENABLER0'', 0x10100), (''GICR_ICENABLER0'', 0x10180), (''GICR_ISPENDR0'', 0x10200),
     (''GICR_ICPENDR0'', 0x10280), (''GICR_ISACTIVER0'', 0x10300), (''GICR_ICACTIVER0'', 0x10380),
     (''GICR_IPRIORITYR0'', 0x10400), (''GICR_IPRIORITYR1'', 0x10404), (''GICR_IPRIORITYR2'', 0x10408),
     (''GICR_IPRIORITYR3'', 0x1040c), (''GICR_IPRIORITYR4'', 0x10410), (''GICR_IPRIORITYR5'', 0x10414),
     (''GICR_IPRIORITYR6'', 0x10418), (''GICR_IPRIORITYR7'', 0x1041c), (''GICR_ICFGR0'', 0x10c00),
     (''GICR_ICFGR1'', 0x10c04)]"

definition icc_regs :: "(string \<times> u32) list" where
  "icc_regs =
    [(''PMR_EL1'', 0xc230), (''BPR0_EL1'', 0xc643), (''AP0R0_EL1'', 0xc644), (''AP1R0_EL1'', 0xc648),
     (''RPR_EL1'', 0xc65b), (''BPR1_EL1'', 0xc663), (''CTLR_EL1'', 0xc664), (''SRE_EL1'', 0xc665),
     (''IGRPEN0_EL1'', 0xc666), (''IGRPEN1_EL1'', 0xc667), (''SRE_EL2'', 0xe64d)]"

definition ich_regs :: "(string \<times> u32) list" where
  "ich_regs =
    [(''AP0R0_EL2'', 0xe640), (''AP1R0_EL2'', 0xe648), (''HCR_EL2'', 0xe658), (''VTR_EL2'', 0xe659),
     (''MISR_EL2'', 0xe65a), (''EISR_EL2'', 0xe65b), (''ELRSR_EL2'', 0xe65d), (''VMCR_EL2'', 0xe65f),
     (''LR0_EL2'', 0xe660), (''LR1_EL2'', 0xe661), (''LR2_EL2'', 0xe662), (''LR3_EL2'', 0xe663),
     (''LR4_EL2'', 0xe664), (''LR5_EL2'', 0xe665), (''LR6_EL2'', 0xe666), (''LR7_EL2'', 0xe667),
     (''LR8_EL2'', 0xe668), (''LR9_EL2'', 0xe669), (''LR10_EL2'', 0xe66a), (''LR11_EL2'', 0xe66b),
     (''LR12_EL2'', 0xe66c), (''LR13_EL2'', 0xe66d), (''LR14_EL2'', 0xe66e), (''LR15_EL2'', 0xe66f)]"

definition icv_regs :: "(string \<times> u32) list" where
  "icv_regs =
    [(''PMR_EL1'', 0xc230), (''BPR0_EL1'', 0xc643), (''AP0R0_EL1'', 0xc644), (''AP1R0_EL1'', 0xc648),
     (''RPR_EL1'', 0xc65b), (''BPR1_EL1'', 0xc663), (''CTLR_EL1'', 0xc664), (''SRE_EL1'', 0xc665),
     (''IGRPEN0_EL1'', 0xc666), (''IGRPEN1_EL1'', 0xc667)]"

section \<open>Configuration and creation\<close>

definition zero_gic_config :: hv_gic_config_s where
  "zero_gic_config = \<lparr>distributor_base = 0, redistributor_base = 0, msi_region_base = 0,
     msi_intid_base = 0, msi_intid_count = 0\<rparr>"

text \<open>The allocator may fail, and then the handle is null.\<close>

definition hv_gic_config_create :: "bool \<Rightarrow> hv_gic_config_s option" where
  "hv_gic_config_create allocated = (if allocated then Some zero_gic_config else None)"

definition gic_config_set ::
  "hv_gic_config_s option \<Rightarrow> (hv_gic_config_s \<Rightarrow> hv_gic_config_s) \<Rightarrow> hv_return \<times> hv_gic_config_s option" where
  "gic_config_set c f =
     (case c of None \<Rightarrow> (HV_BAD_ARGUMENT, None) | Some x \<Rightarrow> (HV_SUCCESS, Some (f x)))"

definition hv_gic_config_set_distributor_base ::
  "hv_gic_config_s option \<Rightarrow> u64 \<Rightarrow> hv_return \<times> hv_gic_config_s option" where
  "hv_gic_config_set_distributor_base c a = gic_config_set c (\<lambda>x. x\<lparr>distributor_base := a\<rparr>)"
definition hv_gic_config_set_redistributor_base ::
  "hv_gic_config_s option \<Rightarrow> u64 \<Rightarrow> hv_return \<times> hv_gic_config_s option" where
  "hv_gic_config_set_redistributor_base c a = gic_config_set c (\<lambda>x. x\<lparr>redistributor_base := a\<rparr>)"
definition hv_gic_config_set_msi_region_base ::
  "hv_gic_config_s option \<Rightarrow> u64 \<Rightarrow> hv_return \<times> hv_gic_config_s option" where
  "hv_gic_config_set_msi_region_base c a = gic_config_set c (\<lambda>x. x\<lparr>msi_region_base := a\<rparr>)"
definition hv_gic_config_set_msi_interrupt_range ::
  "hv_gic_config_s option \<Rightarrow> u32 \<Rightarrow> u32 \<Rightarrow> hv_return \<times> hv_gic_config_s option" where
  "hv_gic_config_set_msi_interrupt_range c base n =
     gic_config_set c (\<lambda>x. x\<lparr>msi_intid_base := base, msi_intid_count := n\<rparr>)"

definition zero_gic :: "hv_gic_config_s \<Rightarrow> GicModel" where
  "zero_gic c = \<lparr>gic_cfg = c, dist = (\<lambda>_. 0), redist = (\<lambda>_ _. 0), icc = (\<lambda>_ _. 0), ich = (\<lambda>_ _. 0),
     icv = (\<lambda>_ _. 0), msi = (\<lambda>_. 0)\<rparr>"

text \<open>A reset distributor describes itself.\<close>

definition describe :: "GicModel \<Rightarrow> GicModel" where
  "describe m = m\<lparr>dist := (dist m)(gicd_offset GICD_CTLR div 4 := kGicdCtlrReset,
                                  gicd_offset GICD_TYPER div 4 := kGicdTyperReset)\<rparr>"

definition for_vcpus :: "(VcpuSlot \<Rightarrow> VcpuSlot) \<Rightarrow> ohv_vm_state \<Rightarrow> ohv_vm_state" where
  "for_vcpus f g = g\<lparr>g_vcpus := (\<lambda>n.
     if n < kMaxVcpuIds \<and> used (g_vcpus g n) \<and> ctx_mapped (g_vcpus g n) then f (g_vcpus g n) else g_vcpus g n)\<rparr>"

definition hv_gic_create :: "hv_gic_config_s option \<Rightarrow> ohv_vm_state \<Rightarrow> hv_return \<times> ohv_vm_state" where
  "hv_gic_create config g =
     (case config of
        None \<Rightarrow> (HV_BAD_ARGUMENT, g)
      | Some c \<Rightarrow>
          if require_vm g \<noteq> HV_SUCCESS then (HV_NO_DEVICE, g)
          else if list_ex (\<lambda>n. used (g_vcpus g n)) [0..<kMaxVcpuIds] then (HV_BUSY, g)
          else if g_gic g \<noteq> None then (HV_BUSY, g)
          else (HV_SUCCESS, for_vcpus enable_vgic (g\<lparr>g_gic := Some (describe (zero_gic c))\<rparr>)))"


section \<open>Queries\<close>

definition out_value :: "bool \<Rightarrow> 'a \<Rightarrow> hv_return \<times> 'a option" where
  "out_value p v = (if \<not> p then (HV_BAD_ARGUMENT, None) else (HV_SUCCESS, Some v))"

definition hv_gic_get_distributor_size :: "bool \<Rightarrow> hv_return \<times> nat option" where
  "hv_gic_get_distributor_size p = out_value p kDistSize"
definition hv_gic_get_distributor_base_alignment :: "bool \<Rightarrow> hv_return \<times> nat option" where
  "hv_gic_get_distributor_base_alignment p = out_value p 0x10000"
definition hv_gic_get_redistributor_region_size :: "bool \<Rightarrow> hv_return \<times> nat option" where
  "hv_gic_get_redistributor_region_size p = out_value p kRedistRegion"
definition hv_gic_get_redistributor_size :: "bool \<Rightarrow> hv_return \<times> nat option" where
  "hv_gic_get_redistributor_size p = out_value p kRedistSize"
definition hv_gic_get_redistributor_base_alignment :: "bool \<Rightarrow> hv_return \<times> nat option" where
  "hv_gic_get_redistributor_base_alignment p = out_value p 0x10000"
definition hv_gic_get_msi_region_size :: "bool \<Rightarrow> hv_return \<times> nat option" where
  "hv_gic_get_msi_region_size p = out_value p kMsiRegionSize"
definition hv_gic_get_msi_region_base_alignment :: "bool \<Rightarrow> hv_return \<times> nat option" where
  "hv_gic_get_msi_region_base_alignment p = out_value p 0x1000"
definition hv_gic_get_spi_interrupt_range :: "bool \<Rightarrow> bool \<Rightarrow> hv_return \<times> (u32 \<times> u32) option" where
  "hv_gic_get_spi_interrupt_range p q = out_value (p \<and> q) (kSpiBase, kSpiCount)"
definition hv_gic_get_intid :: "u32 \<Rightarrow> bool \<Rightarrow> hv_return \<times> u32 option" where
  "hv_gic_get_intid i p = out_value p i"

section \<open>Slots\<close>

text \<open>An offset into one of the memory-mapped frames, as a slot in the model.\<close>

definition frame_slot :: "u32 \<Rightarrow> nat \<Rightarrow> nat option" where
  "frame_slot off slots =
     (if off AND 3 \<noteq> 0 \<or> slots \<le> unat (off div 4) then None else Some (unat (off div 4)))"

text \<open>The dense slot of a system register encoding: its place in a table.\<close>

fun sparse_slot :: "u32 \<Rightarrow> u32 list \<Rightarrow> nat option" where
  "sparse_slot e [] = None"
| "sparse_slot e (x # t) = (if x = e then Some 0 else map_option Suc (sparse_slot e t))"

definition kIccEncodings :: "u32 list" where
  "kIccEncodings =
    [0xc230, 0xc643, 0xc644, 0xc648, 0xc65b, 0xc663, 0xc664, 0xc665, 0xc666, 0xc667, 0xe64d]"
definition kIcvEncodings :: "u32 list" where
  "kIcvEncodings = [0xc230, 0xc643, 0xc644, 0xc648, 0xc65b, 0xc663, 0xc664, 0xc665, 0xc666, 0xc667]"
definition kIchEncodings :: "u32 list" where
  "kIchEncodings =
    [0xe640, 0xe648, 0xe658, 0xe659, 0xe65a, 0xe65b, 0xe65d, 0xe65f,
     0xe660, 0xe661, 0xe662, 0xe663, 0xe664, 0xe665, 0xe666, 0xe667,
     0xe668, 0xe669, 0xe66a, 0xe66b, 0xe66c, 0xe66d, 0xe66e, 0xe66f]"

section \<open>The registers of the model object\<close>

text \<open>What an access does once the object is there and the slot is known; \<open>n\<close> is the vCPU's number.\<close>

type_synonym gic_get = "GicModel \<Rightarrow> hv_return \<times> u64 option"
type_synonym gic_set = "GicModel \<Rightarrow> hv_return \<times> GicModel"

definition dist_get :: "u32 \<Rightarrow> gic_get" where
  "dist_get reg m =
     (case frame_slot reg kDistSlots of None \<Rightarrow> (HV_BAD_ARGUMENT, None)
      | Some i \<Rightarrow> (HV_SUCCESS, Some (dist m i)))"
definition dist_set :: "u32 \<Rightarrow> u64 \<Rightarrow> gic_set" where
  "dist_set reg v m =
     (case frame_slot reg kDistSlots of None \<Rightarrow> (HV_BAD_ARGUMENT, m)
      | Some i \<Rightarrow> if i = gicd_offset GICD_TYPER div 4 then (HV_SUCCESS, m)
                  else (HV_SUCCESS, m\<lparr>dist := (dist m)(i := v)\<rparr>))"

definition redist_get :: "nat \<Rightarrow> u32 \<Rightarrow> gic_get" where
  "redist_get n reg m =
     (if kModelledCpus \<le> n then (HV_BAD_ARGUMENT, None)
      else case frame_slot reg kRedistSlots of None \<Rightarrow> (HV_BAD_ARGUMENT, None)
      | Some i \<Rightarrow> (HV_SUCCESS, Some (redist m n i)))"
definition redist_set :: "nat \<Rightarrow> u32 \<Rightarrow> u64 \<Rightarrow> gic_set" where
  "redist_set n reg v m =
     (if kModelledCpus \<le> n then (HV_BAD_ARGUMENT, m)
      else case frame_slot reg kRedistSlots of None \<Rightarrow> (HV_BAD_ARGUMENT, m)
      | Some i \<Rightarrow> (HV_SUCCESS, m\<lparr>redist := (redist m)(n := (redist m n)(i := v))\<rparr>))"

definition icc_get :: "nat \<Rightarrow> u32 \<Rightarrow> gic_get" where
  "icc_get n reg m =
     (if kModelledCpus \<le> n then (HV_BAD_ARGUMENT, None)
      else case sparse_slot reg kIccEncodings of None \<Rightarrow> (HV_BAD_ARGUMENT, None)
      | Some i \<Rightarrow> (HV_SUCCESS, Some (icc m n i)))"
definition icc_set :: "nat \<Rightarrow> u32 \<Rightarrow> u64 \<Rightarrow> gic_set" where
  "icc_set n reg v m =
     (if kModelledCpus \<le> n then (HV_BAD_ARGUMENT, m)
      else case sparse_slot reg kIccEncodings of None \<Rightarrow> (HV_BAD_ARGUMENT, m)
      | Some i \<Rightarrow> (HV_SUCCESS, m\<lparr>icc := (icc m)(n := (icc m n)(i := v))\<rparr>))"

definition icv_get :: "nat \<Rightarrow> u32 \<Rightarrow> gic_get" where
  "icv_get n reg m =
     (if kModelledCpus \<le> n then (HV_BAD_ARGUMENT, None)
      else case sparse_slot reg kIcvEncodings of None \<Rightarrow> (HV_BAD_ARGUMENT, None)
      | Some i \<Rightarrow> (HV_SUCCESS, Some (icv m n i)))"
definition icv_set :: "nat \<Rightarrow> u32 \<Rightarrow> u64 \<Rightarrow> gic_set" where
  "icv_set n reg v m =
     (if kModelledCpus \<le> n then (HV_BAD_ARGUMENT, m)
      else case sparse_slot reg kIcvEncodings of None \<Rightarrow> (HV_BAD_ARGUMENT, m)
      | Some i \<Rightarrow> (HV_SUCCESS, m\<lparr>icv := (icv m)(n := (icv m n)(i := v))\<rparr>))"

definition msi_get :: "u32 \<Rightarrow> gic_get" where
  "msi_get reg m =
     (case frame_slot reg kMsiSlots of None \<Rightarrow> (HV_BAD_ARGUMENT, None)
      | Some i \<Rightarrow> (HV_SUCCESS, Some (msi m i)))"
definition msi_set :: "u32 \<Rightarrow> u64 \<Rightarrow> gic_set" where
  "msi_set reg v m =
     (case frame_slot reg kMsiSlots of None \<Rightarrow> (HV_BAD_ARGUMENT, m)
      | Some i \<Rightarrow> (HV_SUCCESS, m\<lparr>msi := (msi m)(i := v)\<rparr>))"

section \<open>The entry points over them\<close>

definition gic_read :: "ohv_vm_state \<Rightarrow> bool \<Rightarrow> gic_get \<Rightarrow> hv_return \<times> u64 option" where
  "gic_read g p f =
     (case g_gic g of None \<Rightarrow> (HV_NO_DEVICE, None)
      | Some m \<Rightarrow> if \<not> p then (HV_NO_DEVICE, None) else f m)"

definition gic_write :: "ohv_vm_state \<Rightarrow> gic_set \<Rightarrow> hv_return \<times> ohv_vm_state" where
  "gic_write g f =
     (case g_gic g of None \<Rightarrow> (HV_NO_DEVICE, g)
      | Some m \<Rightarrow> (case f m of (r, m') \<Rightarrow> (r, g\<lparr>g_gic := Some m'\<rparr>)))"

text \<open>A vCPU's: any thread may name any vCPU; a write that is taken marks the vCPU's state.\<close>

definition gic_read_of ::
  "ohv_vm_state \<Rightarrow> u64 \<Rightarrow> bool \<Rightarrow> (nat \<Rightarrow> gic_get) \<Rightarrow> hv_return \<times> u64 option" where
  "gic_read_of g i p f =
     (case find_vcpu g i of None \<Rightarrow> (HV_NO_DEVICE, None)
      | Some n \<Rightarrow> gic_read g p (f (unat (slot_id (g_vcpus g n)))))"

definition gic_write_of ::
  "ohv_vm_state \<Rightarrow> u64 \<Rightarrow> (nat \<Rightarrow> gic_set) \<Rightarrow> hv_return \<times> ohv_vm_state" where
  "gic_write_of g i f =
     (case find_vcpu g i of None \<Rightarrow> (HV_NO_DEVICE, g)
      | Some n \<Rightarrow>
          (case gic_write g (f (unat (slot_id (g_vcpus g n)))) of
             (r, g') \<Rightarrow> if r = HV_SUCCESS then (r, upd_slot n (ctx_dirty OHV_STATE_GIC) g') else (r, g')))"

definition hv_gic_get_distributor_reg :: "u32 \<Rightarrow> bool \<Rightarrow> ohv_vm_state \<Rightarrow> hv_return \<times> u64 option" where
  "hv_gic_get_distributor_reg reg p g = gic_read g p (dist_get reg)"
definition hv_gic_set_distributor_reg :: "u32 \<Rightarrow> u64 \<Rightarrow> ohv_vm_state \<Rightarrow> hv_return \<times> ohv_vm_state" where
  "hv_gic_set_distributor_reg reg v g = gic_write g (dist_set reg v)"

definition hv_gic_get_redistributor_base :: "u64 \<Rightarrow> bool \<Rightarrow> ohv_vm_state \<Rightarrow> hv_return \<times> u64 option" where
  "hv_gic_get_redistributor_base i p g =
     gic_read_of g i p (\<lambda>n m. (HV_SUCCESS,
       Some (redistributor_base (gic_cfg m) + of_nat n * of_nat kRedistSize)))"
definition hv_gic_get_redistributor_reg :: "u64 \<Rightarrow> u32 \<Rightarrow> bool \<Rightarrow> ohv_vm_state \<Rightarrow> hv_return \<times> u64 option" where
  "hv_gic_get_redistributor_reg i reg p g = gic_read_of g i p (\<lambda>n. redist_get n reg)"
definition hv_gic_set_redistributor_reg :: "u64 \<Rightarrow> u32 \<Rightarrow> u64 \<Rightarrow> ohv_vm_state \<Rightarrow> hv_return \<times> ohv_vm_state" where
  "hv_gic_set_redistributor_reg i reg v g = gic_write_of g i (\<lambda>n. redist_set n reg v)"

definition hv_gic_get_icc_reg :: "u64 \<Rightarrow> u32 \<Rightarrow> bool \<Rightarrow> ohv_vm_state \<Rightarrow> hv_return \<times> u64 option" where
  "hv_gic_get_icc_reg i reg p g = gic_read_of g i p (\<lambda>n. icc_get n reg)"
definition hv_gic_set_icc_reg :: "u64 \<Rightarrow> u32 \<Rightarrow> u64 \<Rightarrow> ohv_vm_state \<Rightarrow> hv_return \<times> ohv_vm_state" where
  "hv_gic_set_icc_reg i reg v g = gic_write_of g i (\<lambda>n. icc_set n reg v)"

definition hv_gic_get_icv_reg :: "u64 \<Rightarrow> u32 \<Rightarrow> bool \<Rightarrow> ohv_vm_state \<Rightarrow> hv_return \<times> u64 option" where
  "hv_gic_get_icv_reg i reg p g = gic_read_of g i p (\<lambda>n. icv_get n reg)"
definition hv_gic_set_icv_reg :: "u64 \<Rightarrow> u32 \<Rightarrow> u64 \<Rightarrow> ohv_vm_state \<Rightarrow> hv_return \<times> ohv_vm_state" where
  "hv_gic_set_icv_reg i reg v g = gic_write_of g i (\<lambda>n. icv_set n reg v)"

definition hv_gic_get_msi_reg :: "u32 \<Rightarrow> bool \<Rightarrow> ohv_vm_state \<Rightarrow> hv_return \<times> u64 option" where
  "hv_gic_get_msi_reg reg p g = gic_read g p (msi_get reg)"
definition hv_gic_set_msi_reg :: "u32 \<Rightarrow> u64 \<Rightarrow> ohv_vm_state \<Rightarrow> hv_return \<times> ohv_vm_state" where
  "hv_gic_set_msi_reg reg v g = gic_write g (msi_set reg v)"

section \<open>The half that reaches the hardware\<close>

definition ICH_AP0R0 :: u32 where [masks]: "ICH_AP0R0 = 0xe640"
definition ICH_AP1R0 :: u32 where [masks]: "ICH_AP1R0 = 0xe648"
definition ICH_HCR :: u32 where [masks]: "ICH_HCR = 0xe658"
definition ICH_VTR :: u32 where [masks]: "ICH_VTR = 0xe659"
definition ICH_MISR :: u32 where [masks]: "ICH_MISR = 0xe65a"
definition ICH_EISR :: u32 where [masks]: "ICH_EISR = 0xe65b"
definition ICH_ELRSR :: u32 where [masks]: "ICH_ELRSR = 0xe65d"
definition ICH_VMCR :: u32 where [masks]: "ICH_VMCR = 0xe65f"
definition ICH_LR0 :: u32 where [masks]: "ICH_LR0 = 0xe660"
definition ICH_LRS :: nat where [layout]: "ICH_LRS = 8"
definition OHV_ICH_LR_DIRTY :: u64 where [masks]: "OHV_ICH_LR_DIRTY = bit_mask 32"

definition lr_off :: "nat \<Rightarrow> nat" where "lr_off i = ctl_ich_lr_el2 + 8 * i"

text \<open>The words kept in the context, by encoding.\<close>

definition ich_word :: "u32 \<Rightarrow> nat option" where
  "ich_word enc =
     (if enc = ICH_AP0R0 then Some OHV_RW_VGIC_SYSREGS
      else if enc = ICH_AP1R0 then Some (OHV_RW_VGIC_SYSREGS + 8)
      else if enc = ICH_HCR then Some ctl_ich_hcr_el2
      else if enc = ICH_VMCR then Some bk_ich_vmcr_el2 else None)"

definition ich_get :: "u32 \<Rightarrow> VcpuSlot \<Rightarrow> gic_get" where
  "ich_get enc s m =
     (if kModelledCpus \<le> unat (slot_id s) then (HV_BAD_ARGUMENT, None)
      else case sparse_slot enc kIchEncodings of None \<Rightarrow> (HV_BAD_ARGUMENT, None)
      | Some slot \<Rightarrow>
          if enc = ICH_VTR then (HV_SUCCESS, Some (ctx_rd s OHV_RO_ICH_VTR))
          else if enc = ICH_MISR then (HV_SUCCESS, Some (ctx_rd s OHV_RO_ICH_MISR))
          else if enc = ICH_ELRSR then (HV_SUCCESS, Some (ctx_rd s OHV_RO_ICH_ELRSR))
          else case ich_word enc of
            Some off \<Rightarrow> (HV_SUCCESS, Some (ctx_rd s off))
          | None \<Rightarrow>
              if ICH_LR0 \<le> enc
              then (if ICH_LRS \<le> unat (enc - ICH_LR0) then (HV_BAD_ARGUMENT, None)
                    else (HV_SUCCESS, Some (ctx_rd s (lr_off (unat (enc - ICH_LR0))) AND NOT OHV_ICH_LR_DIRTY)))
              else (HV_SUCCESS, Some (ich m (unat (slot_id s)) slot)))"

definition ich_set :: "u32 \<Rightarrow> u64 \<Rightarrow> VcpuSlot \<Rightarrow> GicModel \<Rightarrow> hv_return \<times> GicModel \<times> VcpuSlot" where
  "ich_set enc v s m =
     (if kModelledCpus \<le> unat (slot_id s) then (HV_BAD_ARGUMENT, m, s)
      else case sparse_slot enc kIchEncodings of None \<Rightarrow> (HV_BAD_ARGUMENT, m, s)
      | Some slot \<Rightarrow>
          let n = unat (slot_id s); m' = m\<lparr>ich := (ich m)(n := (ich m n)(slot := v))\<rparr>;
              dirty = ctx_dirty (OHV_STATE_GIC OR OHV_STATE_CONTROLS)
          in if enc = ICH_VTR \<or> enc = ICH_MISR \<or> enc = ICH_EISR \<or> enc = ICH_ELRSR then (HV_SUCCESS, m', s)
             else case ich_word enc of
               Some off \<Rightarrow> (HV_SUCCESS, m', dirty (ctx_wr off v s))
             | None \<Rightarrow>
                 if enc < ICH_LR0 \<or> ICH_LRS \<le> unat (enc - ICH_LR0) then (HV_BAD_ARGUMENT, m', s)
                 else (HV_SUCCESS, m', dirty (ctx_wr (lr_off (unat (enc - ICH_LR0))) (v OR OHV_ICH_LR_DIRTY) s)))"

definition hv_gic_get_ich_reg :: "u64 \<Rightarrow> u32 \<Rightarrow> bool \<Rightarrow> ohv_vm_state \<Rightarrow> hv_return \<times> u64 option" where
  "hv_gic_get_ich_reg i reg p g =
     (case find_vcpu g i of None \<Rightarrow> (HV_NO_DEVICE, None)
      | Some n \<Rightarrow> gic_read g p (ich_get reg (g_vcpus g n)))"

definition hv_gic_set_ich_reg :: "u64 \<Rightarrow> u32 \<Rightarrow> u64 \<Rightarrow> ohv_vm_state \<Rightarrow> hv_return \<times> ohv_vm_state" where
  "hv_gic_set_ich_reg i reg v g =
     (case (g_gic g, find_vcpu g i) of
        (Some m, Some n) \<Rightarrow>
          (case ich_set reg v (g_vcpus g n) m of
             (r, m', s') \<Rightarrow> (r, upd_slot n (\<lambda>_. s') (g\<lparr>g_gic := Some m'\<rparr>)))
      | _ \<Rightarrow> (HV_NO_DEVICE, g))"

section \<open>Shared interrupts\<close>

definition LR_STATE_PENDING :: u64 where [masks]: "LR_STATE_PENDING = push_bit 62 1"
definition LR_STATE_MASK :: u64 where [masks]: "LR_STATE_MASK = push_bit 62 3"
definition LR_GROUP1 :: u64 where [masks]: "LR_GROUP1 = push_bit 60 1"
definition LR_VINTID_MASK :: u64 where [masks]: "LR_VINTID_MASK = 0xffffffff"

definition lr_live :: "u64 \<Rightarrow> bool" where "lr_live lr \<longleftrightarrow> lr AND LR_STATE_MASK \<noteq> 0"
definition lr_of :: "u32 \<Rightarrow> u64 \<Rightarrow> bool" where "lr_of intid lr \<longleftrightarrow> lr AND LR_VINTID_MASK = ucast intid"

definition lr_entry :: "u8 \<Rightarrow> u32 \<Rightarrow> u64" where
  "lr_entry priority intid =
     LR_STATE_PENDING OR LR_GROUP1 OR push_bit 48 (ucast priority) OR ucast intid OR OHV_ICH_LR_DIRTY"

definition lr_put :: "nat \<Rightarrow> u64 \<Rightarrow> VcpuSlot \<Rightarrow> VcpuSlot" where
  "lr_put i v s = ctx_dirty (OHV_STATE_GIC OR OHV_STATE_CONTROLS) (ctx_wr (lr_off i) v s)"

definition queue_spi :: "u32 \<Rightarrow> u8 \<Rightarrow> VcpuSlot \<Rightarrow> VcpuSlot" where
  "queue_spi intid priority s =
     (let lr = (\<lambda>i. ctx_rd s (lr_off i)) in
      if list_ex (\<lambda>i. lr_live (lr i) \<and> lr_of intid (lr i)) [0..<ICH_LRS] then s
      else case find (\<lambda>i. \<not> lr_live (lr i)) [0..<ICH_LRS] of
             Some i \<Rightarrow> lr_put i (lr_entry priority intid) s
           | None \<Rightarrow> s)"

definition drop_lr :: "u32 \<Rightarrow> nat \<Rightarrow> VcpuSlot \<Rightarrow> VcpuSlot" where
  "drop_lr intid i s =
     (let lr = ctx_rd s (lr_off i) in
      if lr AND LR_STATE_MASK = LR_STATE_PENDING \<and> lr_of intid lr then lr_put i OHV_ICH_LR_DIRTY s else s)"

definition drop_spi :: "u32 \<Rightarrow> VcpuSlot \<Rightarrow> VcpuSlot" where
  "drop_spi intid s = fold (drop_lr intid) [0..<ICH_LRS] s"

definition spi_target :: "ohv_vm_state \<Rightarrow> nat option" where
  "spi_target g = find (\<lambda>n. used (g_vcpus g n) \<and> ctx_mapped (g_vcpus g n)) [0..<kMaxVcpuIds]"

definition spi_priority :: "GicModel \<Rightarrow> u32 \<Rightarrow> u8" where
  "spi_priority m intid =
     ucast (drop_bit (8 * (unat intid mod 4)) (dist m (gicd_offset (GICD_IPRIORITYR 0) div 4 + unat intid div 4)))"

definition hv_gic_set_spi :: "u32 \<Rightarrow> bool \<Rightarrow> ohv_vm_state \<Rightarrow> hv_return \<times> ohv_vm_state" where
  "hv_gic_set_spi intid level g =
     (case g_gic g of None \<Rightarrow> (HV_NO_DEVICE, g)
      | Some m \<Rightarrow>
          if intid < kSpiBase \<or> kSpiBase + kSpiCount \<le> intid then (HV_BAD_ARGUMENT, g)
          else
            let word = unat intid div 32; b = bit_mask (unat intid mod 32) :: u64;
                pend = gicd_offset (GICD_ISPENDR 0) div 4 + word;
                enabled = gicd_offset (GICD_ISENABLER 0) div 4 + word
            in if kDistSlots \<le> pend then (HV_BAD_ARGUMENT, g)
               else
                 let m' = m\<lparr>dist := (dist m)(pend := if level then dist m pend OR b else dist m pend AND NOT b)\<rparr>;
                     g' = g\<lparr>g_gic := Some m'\<rparr>
                 in case spi_target g' of
                      None \<Rightarrow> (HV_SUCCESS, g')
                    | Some n \<Rightarrow>
                        if of_nat kModelledCpus \<le> slot_id (g_vcpus g' n) then (HV_SUCCESS, g')
                        else if level
                        then (if dist m' enabled AND b = 0 then (HV_SUCCESS, g')
                              else (HV_SUCCESS, upd_slot n (queue_spi intid (spi_priority m' intid)) g'))
                        else (HV_SUCCESS, upd_slot n (drop_spi intid) g'))"

definition hv_gic_send_msi :: "u64 \<Rightarrow> u32 \<Rightarrow> ohv_vm_state \<Rightarrow> hv_return \<times> ohv_vm_state" where
  "hv_gic_send_msi address intid g = (if g_gic g = None then (HV_NO_DEVICE, g) else (HV_SUCCESS, g))"

section \<open>Reset and saved state\<close>

definition hv_gic_reset :: "ohv_vm_state \<Rightarrow> hv_return \<times> ohv_vm_state" where
  "hv_gic_reset g =
     (case g_gic g of None \<Rightarrow> (HV_NO_DEVICE, g)
      | Some m \<Rightarrow> (HV_SUCCESS, for_vcpus (ctx_dirty OHV_STATE_GIC)
                     (g\<lparr>g_gic := Some (describe (zero_gic (gic_cfg m)))\<rparr>)))"

text \<open>The object's size, as the compiler lays it out.\<close>

definition GicModel_fields :: "c_field list" where
  "GicModel_fields =
    [(''cfg'', c_sizeof [(''isa'', 8, 8), (''distributor_base'', 8, 8), (''redistributor_base'', 8, 8),
        (''msi_region_base'', 8, 8), (''msi_intid_base'', 4, 4), (''msi_intid_count'', 4, 4), (''refcnt'', 4, 4)], 8),
     (''dist'', 8 * kDistSlots, 8), (''redist'', 8 * kModelledCpus * kRedistSlots, 8),
     (''icc'', 8 * kModelledCpus * kIccSlots, 8), (''ich'', 8 * kModelledCpus * kIchSlots, 8),
     (''icv'', 8 * kModelledCpus * kIcvSlots, 8), (''msi'', 8 * kMsiSlots, 8)]"

definition GicModel_size :: nat where "GicModel_size = c_sizeof GicModel_fields"

text \<open>A state handle is a zeroed object of the model's size; reading it copies the handle.\<close>

definition hv_gic_state_create :: "bool \<Rightarrow> GicModel option" where
  "hv_gic_state_create allocated = (if allocated then Some (zero_gic zero_gic_config) else None)"

definition hv_gic_state_get_size :: "GicModel option \<Rightarrow> bool \<Rightarrow> hv_return \<times> nat option" where
  "hv_gic_state_get_size state p = out_value (state \<noteq> None \<and> p) GicModel_size"

definition hv_gic_state_get_data :: "GicModel option \<Rightarrow> bool \<Rightarrow> hv_return \<times> GicModel option" where
  "hv_gic_state_get_data state p =
     (case state of None \<Rightarrow> (HV_BAD_ARGUMENT, None) | Some m \<Rightarrow> out_value p m)"

definition hv_gic_set_state :: "GicModel option \<Rightarrow> nat \<Rightarrow> ohv_vm_state \<Rightarrow> hv_return \<times> ohv_vm_state" where
  "hv_gic_set_state dat len g =
     (case g_gic g of None \<Rightarrow> (HV_NO_DEVICE, g)
      | Some m \<Rightarrow>
          (case dat of None \<Rightarrow> (HV_BAD_ARGUMENT, g)
           | Some d \<Rightarrow>
               if len \<noteq> GicModel_size then (HV_BAD_ARGUMENT, g)
               else (HV_SUCCESS, for_vcpus (ctx_dirty OHV_STATE_GIC) (g\<lparr>g_gic := Some d\<rparr>))))"

section \<open>Every index is inside its array\<close>

lemma and_3_mod: "(x :: u32) AND 3 = 0 \<longleftrightarrow> unat x mod 4 = 0"
proof -
  have "x AND mask 2 = x mod 2 ^ 2" by (simp only: take_bit_eq_mask [symmetric] take_bit_eq_mod)
  then have "x AND 3 = x mod 4" by (simp add: mask_eq_exp_minus_1)
  then show ?thesis by (simp add: word_unat_eq_iff unat_mod)
qed

lemma frame_slot_Some: "frame_slot off n = Some i \<Longrightarrow> i < n \<and> unat off = 4 * i"
proof -
  assume a: "frame_slot off n = Some i"
  have d: "unat (off div 4) = unat off div 4" by (simp add: unat_div)
  have "off AND 3 = 0" "i = unat off div 4" "i < n"
    using a unfolding frame_slot_def d by (simp_all split: if_split_asm)
  then show ?thesis unfolding and_3_mod by auto
qed

lemma sparse_slot_Some: "sparse_slot e t = Some i \<Longrightarrow> i < length t \<and> t ! i = e"
  by (induction t arbitrary: i) (auto split: if_splits)

lemma sparse_slot_inj: "sparse_slot e t = Some i \<Longrightarrow> sparse_slot f t = Some i \<Longrightarrow> e = f"
  using sparse_slot_Some [of e t i] sparse_slot_Some [of f t i] by simp

lemma frame_slot_inj: "frame_slot e n = Some i \<Longrightarrow> frame_slot f n = Some i \<Longrightarrow> e = f"
  using frame_slot_Some [of e n i] frame_slot_Some [of f n i] by (metis word_unat_eq_iff)

lemma gicd_offset_bound: "gicd_exists r \<Longrightarrow> gicd_offset r < 0x10000 \<and> gicd_offset r mod 4 = 0"
  by (cases r) auto

lemma frame_slot_aligned:
  assumes "n < 0x100000000" "n mod 4 = 0" "n div 4 < slots"
  shows "frame_slot (of_nat n) slots = Some (n div 4)"
proof -
  have u: "unat (of_nat n :: u32) = n" using assms(1) by (simp add: unat_of_nat)
  have d: "unat ((of_nat n :: u32) div 4) = n div 4" by (simp add: unat_div u)
  show ?thesis using assms(2,3) unfolding frame_slot_def and_3_mod u d by simp
qed

lemma gicd_offset_inj: "gicd_exists r \<Longrightarrow> gicd_exists q \<Longrightarrow> gicd_offset r = gicd_offset q \<Longrightarrow> r = q"
  by (cases r; cases q) auto


lemmas gic_sizes = kDistSlots_def kRedistSlots_def kMsiSlots_def kDistSize_def kRedistSize_def
  kMsiRegionSize_def kModelledCpus_def kIccSlots_def kIchSlots_def kIcvSlots_def

text \<open>Every register number of the three frames and the three encoding tables that is accepted is an
  index inside its array, and so are the words a shared interrupt touches.\<close>

lemma encoding_counts:
  "length kIccEncodings = 11" "length kIchEncodings = 24" "length kIcvEncodings = 10"
  by (simp_all add: kIccEncodings_def kIchEncodings_def kIcvEncodings_def)

lemma gic_indices_in_bounds:
  "frame_slot off slots = Some i \<Longrightarrow> i < slots"
  "sparse_slot e kIccEncodings = Some j \<Longrightarrow> j < kIccSlots"
  "sparse_slot e kIchEncodings = Some j \<Longrightarrow> j < kIchSlots"
  "sparse_slot e kIcvEncodings = Some j \<Longrightarrow> j < kIcvSlots"
  "unat intid < 1020 \<Longrightarrow> gicd_offset (GICD_ISPENDR 0) div 4 + unat intid div 32 < kDistSlots"
  "unat intid < 1020 \<Longrightarrow> gicd_offset (GICD_IPRIORITYR 0) div 4 + unat intid div 4 < kDistSlots"
  by (auto simp: gic_sizes encoding_counts simp del: sparse_slot.simps
      dest!: frame_slot_Some sparse_slot_Some)

section \<open>The model's registers as banks\<close>

interpretation redist: register_bank "redist_get n" "redist_set n" "\<lambda>_ v. v" for n
proof unfold_locales
  fix q r v m e m'
  show "redist_set n r v m = (HV_SUCCESS, m') \<Longrightarrow> redist_get n r m' = (HV_SUCCESS, Some v)"
    by (auto simp: redist_set_def redist_get_def split: option.splits if_splits)
  show "redist_set n r v m = (e, m') \<Longrightarrow> q \<noteq> r \<Longrightarrow> redist_get n q m' = redist_get n q m"
    by (auto simp: redist_set_def redist_get_def split: option.splits if_splits dest: frame_slot_inj)
  show "redist_set n r v m = (e, m') \<Longrightarrow> e \<noteq> HV_SUCCESS \<Longrightarrow> m' = m"
    by (auto simp: redist_set_def split: option.splits if_splits)
qed (auto simp: redist_set_def redist_get_def split: option.splits if_splits)

interpretation icc: register_bank "icc_get n" "icc_set n" "\<lambda>_ v. v" for n
proof unfold_locales
  fix q r v m e m'
  show "icc_set n r v m = (HV_SUCCESS, m') \<Longrightarrow> icc_get n r m' = (HV_SUCCESS, Some v)"
    by (auto simp: icc_set_def icc_get_def split: option.splits if_splits)
  show "icc_set n r v m = (e, m') \<Longrightarrow> q \<noteq> r \<Longrightarrow> icc_get n q m' = icc_get n q m"
    by (auto simp: icc_set_def icc_get_def split: option.splits if_splits dest: sparse_slot_inj)
  show "icc_set n r v m = (e, m') \<Longrightarrow> e \<noteq> HV_SUCCESS \<Longrightarrow> m' = m"
    by (auto simp: icc_set_def split: option.splits if_splits)
qed (auto simp: icc_set_def icc_get_def split: option.splits if_splits)

interpretation icv: register_bank "icv_get n" "icv_set n" "\<lambda>_ v. v" for n
proof unfold_locales
  fix q r v m e m'
  show "icv_set n r v m = (HV_SUCCESS, m') \<Longrightarrow> icv_get n r m' = (HV_SUCCESS, Some v)"
    by (auto simp: icv_set_def icv_get_def split: option.splits if_splits)
  show "icv_set n r v m = (e, m') \<Longrightarrow> q \<noteq> r \<Longrightarrow> icv_get n q m' = icv_get n q m"
    by (auto simp: icv_set_def icv_get_def split: option.splits if_splits dest: sparse_slot_inj)
  show "icv_set n r v m = (e, m') \<Longrightarrow> e \<noteq> HV_SUCCESS \<Longrightarrow> m' = m"
    by (auto simp: icv_set_def split: option.splits if_splits)
qed (auto simp: icv_set_def icv_get_def split: option.splits if_splits)

interpretation msi: register_bank msi_get msi_set "\<lambda>_ v. v"
proof unfold_locales
  fix q r v m e m'
  show "msi_set r v m = (HV_SUCCESS, m') \<Longrightarrow> msi_get r m' = (HV_SUCCESS, Some v)"
    by (auto simp: msi_set_def msi_get_def split: option.splits if_splits)
  show "msi_set r v m = (e, m') \<Longrightarrow> q \<noteq> r \<Longrightarrow> msi_get q m' = msi_get q m"
    by (auto simp: msi_set_def msi_get_def split: option.splits if_splits dest: frame_slot_inj)
  show "msi_set r v m = (e, m') \<Longrightarrow> e \<noteq> HV_SUCCESS \<Longrightarrow> m' = m"
    by (auto simp: msi_set_def split: option.splits if_splits)
qed (auto simp: msi_set_def msi_get_def split: option.splits if_splits)

text \<open>C38: Every register the interface names for the distributor has a slot of its own: a write to any of
  them is accepted, reads back, and leaves every other one as it was -- but GICD_TYPER, which
  describes the model, accepts the write and keeps its value.\<close>

theorem distributor_registers:
  assumes "gicd_exists r" "gicd_exists q"
    and "dist_set (of_nat (gicd_offset r)) v m = (e, m')"
  shows "e = HV_SUCCESS \<and> dist_get (of_nat (gicd_offset q)) m' =
      (if q = r \<and> r \<noteq> GICD_TYPER then (HV_SUCCESS, Some v) else dist_get (of_nat (gicd_offset q)) m)
    \<and> fst (dist_get (of_nat (gicd_offset q)) m) = HV_SUCCESS"
proof -
  have s: "frame_slot (of_nat (gicd_offset x)) kDistSlots = Some (gicd_offset x div 4)" if "gicd_exists x" for x
  proof (rule frame_slot_aligned)
    note b = gicd_offset_bound [OF that]
    show "gicd_offset x < 0x100000000" "gicd_offset x mod 4 = 0" using b by simp_all
    show "gicd_offset x div 4 < kDistSlots" using b less_mult_imp_div_less [of "gicd_offset x" 16384 4] by (simp add: gic_sizes)
  qed
  have i: "gicd_offset x div 4 = gicd_offset y div 4 \<longleftrightarrow> x = y" if "gicd_exists x" "gicd_exists y" for x y
    using gicd_offset_bound [OF that(1)] gicd_offset_bound [OF that(2)] gicd_offset_inj [OF that]
    by (metis mod_0_imp_dvd dvd_div_mult_self)
  have ty: "gicd_exists GICD_TYPER" by simp
  show ?thesis
    using assms(3) i [OF assms(1) ty] i [OF assms(2,1)]
    by (auto simp: dist_set_def dist_get_def s assms(1,2) simp del: gicd_offset.simps split: if_split_asm)
qed

theorem distributor_registers_witness:
  "case dist_set (of_nat (gicd_offset (GICD_IROUTER 40))) 7 (zero_gic zero_gic_config) of (e, m) \<Rightarrow>
     e = HV_SUCCESS \<and> dist_get (of_nat (gicd_offset (GICD_IROUTER 40))) m = (HV_SUCCESS, Some 7)"
proof -
  obtain e m where x: "dist_set (of_nat (gicd_offset (GICD_IROUTER 40))) 7 (zero_gic zero_gic_config) = (e, m)"
    by force
  from distributor_registers [OF _ _ x, of "GICD_IROUTER 40"] show ?thesis unfolding x by simp
qed


text \<open>A vCPU's redistributor frame.\<close>

text \<open>The redistributor frames the library answers for the vCPUs lie inside the region it
  advertises, whole, and no two overlap, for any base the region fits behind.\<close>

theorem redistributor_frames:
  assumes "hv_gic_get_redistributor_base i p g = (HV_SUCCESS, Some a)"
    and "hv_gic_get_redistributor_base j q g = (HV_SUCCESS, Some b)"
    and "g_gic g = Some m" "unat (redistributor_base (gic_cfg m)) + kRedistRegion \<le> 2 ^ 64"
    and "\<And>n. n < 64 \<Longrightarrow> used (g_vcpus g n) \<Longrightarrow> slot_id (g_vcpus g n) = of_nat n"
  shows "unat (redistributor_base (gic_cfg m)) \<le> unat a
      \<and> unat a + kRedistSize \<le> unat (redistributor_base (gic_cfg m)) + kRedistRegion
      \<and> (i \<noteq> j \<longrightarrow> unat a + kRedistSize \<le> unat b \<or> unat b + kRedistSize \<le> unat a)"
proof -
  define base where "base = redistributor_base (gic_cfg m)"
  have frame: "i < 64 \<and> unat a = unat base + unat i * 0x20000"
    if "hv_gic_get_redistributor_base i p g = (HV_SUCCESS, Some a)" for i p a
  proof -
    from that obtain n where n: "find_vcpu g i = Some n"
      by (auto simp: hv_gic_get_redistributor_base_def gic_read_of_def split: option.splits)
    note f = find_vcpu_Some [OF n]
    have id: "unat (slot_id (g_vcpus g n)) = unat i"
      using f assms(5) [of n] by auto
    have a: "a = base + of_nat (unat i) * 0x20000"
      using that n assms(3) id
      by (auto simp: hv_gic_get_redistributor_base_def gic_read_of_def gic_read_def base_def
          kRedistSize_def split: if_splits)
    have i: "unat i < 64" using f by simp
    have o: "unat (of_nat (unat i) * 0x20000 :: u64) = unat i * 0x20000"
      using i by (simp add: unat_word_ariths)
    have "unat base + unat i * 0x20000 < 2 ^ 64"
      using assms(4) i by (simp add: base_def kRedistRegion_def)
    then have "unat a = unat base + unat i * 0x20000"
      unfolding a by (simp add: unat_word_ariths o [unfolded unat_word_ariths])
    with i show ?thesis by (simp add: word_less_nat_alt)
  qed
  note fa = frame [OF assms(1)] and fb = frame [OF assms(2)]
  have "unat (redistributor_base (gic_cfg m)) \<le> unat a" using fa by (simp add: base_def)
  moreover have "unat i < 64" using fa by (simp add: word_less_nat_alt)
  then have "unat a + kRedistSize \<le> unat (redistributor_base (gic_cfg m)) + kRedistRegion"
    using fa by (simp add: base_def kRedistSize_def kRedistRegion_def)
  moreover have "i \<noteq> j \<longrightarrow> unat a + kRedistSize \<le> unat b \<or> unat b + kRedistSize \<le> unat a"
  proof
    assume "i \<noteq> j"
    then have "unat i < unat j \<or> unat j < unat i" by (metis linorder_neqE_nat word_unat_eq_iff)
    then show "unat a + kRedistSize \<le> unat b \<or> unat b + kRedistSize \<le> unat a"
      using fa fb by (auto simp: kRedistSize_def)
  qed
  ultimately show ?thesis by blast
qed

definition gic_vm :: ohv_vm_state where
  "gic_vm = (one_vcpu (new_VcpuSlot\<lparr>used := True, ctx_mapped := True\<rparr>))
     \<lparr>g_vm_alive := True, g_gic := Some (describe (zero_gic (zero_gic_config\<lparr>redistributor_base := 0x10000000\<rparr>)))\<rparr>"

lemma gic_vm_find: "find_vcpu gic_vm 0 = Some 0"
  by (simp add: find_vcpu_def gic_vm_def one_vcpu_def kMaxVcpuIds_def)

theorem redistributor_frames_witness:
  "hv_gic_get_redistributor_base 0 True gic_vm = (HV_SUCCESS, Some 0x10000000)
     \<and> unat (0x10000000 :: u64) + kRedistSize \<le> 0x10000000 + kRedistRegion"
proof -
  have r: "hv_gic_get_redistributor_base 0 True gic_vm = (HV_SUCCESS, Some 0x10000000)"
    by (simp add: hv_gic_get_redistributor_base_def gic_read_of_def gic_read_def gic_vm_find)
      (simp add: gic_vm_def one_vcpu_def new_VcpuSlot_def describe_def zero_gic_def)
  have id: "slot_id (g_vcpus gic_vm n) = of_nat n" if "n < 64" "used (g_vcpus gic_vm n)" for n
    using that by (auto simp: gic_vm_def one_vcpu_def initial_state_def new_VcpuSlot_def split: if_splits)
  have m: "g_gic gic_vm = Some (describe (zero_gic (zero_gic_config\<lparr>redistributor_base := 0x10000000\<rparr>)))"
    by (simp add: gic_vm_def)
  from redistributor_frames [OF r r m _ id] r show ?thesis
    by (simp add: describe_def zero_gic_def kRedistRegion_def)
qed

section \<open>The virtual CPU interface in the context\<close>

text \<open>The words a caller reaches through the ICH registers: four of their own and eight list registers.\<close>

definition ich_held :: "u32 \<Rightarrow> nat option" where
  "ich_held enc =
     (case ich_word enc of Some off \<Rightarrow> Some off
      | None \<Rightarrow> if ICH_LR0 \<le> enc \<and> unat (enc - ICH_LR0) < ICH_LRS then Some (lr_off (unat (enc - ICH_LR0))) else None)"

lemma ich_encodings:
  "enc \<in> set kIchEncodings \<longleftrightarrow> enc \<in> {ICH_AP0R0, ICH_AP1R0, ICH_HCR, ICH_VTR, ICH_MISR, ICH_EISR, ICH_ELRSR, ICH_VMCR}
     \<or> (\<exists>k<16. enc = ICH_LR0 + of_nat k)"
  by (simp add: kIchEncodings_def masks numeral_nat less_Suc_eq ex_disj_distrib conj_disj_distribR)

lemma sparse_slot_None: "sparse_slot e t = None \<longleftrightarrow> e \<notin> set t"
  by (induction t) auto


lemma ich_word_cases:
  assumes "ich_word enc = Some off"
  obtains "enc = ICH_AP0R0" "off = 0x698" | "enc = ICH_AP1R0" "off = 0x6a0"
    | "enc = ICH_HCR" "off = 0x9a8" | "enc = ICH_VMCR" "off = 0x460"
  using assms by (auto simp: ich_word_def layout split: if_splits)

lemma ich_held_cases:
  assumes "ich_held enc = Some off"
  obtains (word) "ich_word enc = Some off"
    | (lr) k where "ich_word enc = None" "k < 8" "enc = ICH_LR0 + of_nat k" "off = lr_off k"
proof (cases "ich_word enc")
  case None
  let ?k = "unat (enc - ICH_LR0)"
  from assms None have k: "?k < 8" "off = lr_off ?k" by (auto simp: ich_held_def layout split: if_splits)
  have "enc = ICH_LR0 + of_nat ?k" by simp
  with None k show ?thesis using lr [of ?k] by blast
qed (use assms word in \<open>auto simp: ich_held_def\<close>)

lemma lr_off_bound: "k < 8 \<Longrightarrow> 0x9b0 \<le> lr_off k \<and> lr_off k + 8 \<le> 0x9f0"
  by (simp add: lr_off_def layout)

lemma ich_word_LR: "k < 16 \<Longrightarrow> ich_word (ICH_LR0 + of_nat k) = None"
proof -
  assume "k < 16"
  then have "unat (ICH_LR0 + of_nat k) = 0xe660 + k" by (simp add: ICH_LR0_def unat_word_ariths unat_of_nat)
  then have "ICH_LR0 + of_nat k \<noteq> x" if "unat x < 0xe660" for x :: u32 using that by auto
  then show ?thesis by (simp add: ich_word_def ICH_AP0R0_def ICH_AP1R0_def ICH_HCR_def ICH_VMCR_def)
qed

lemma ich_held_apart:
  assumes "ich_held q = Some a" "ich_held r = Some b" "q \<noteq> r"
  shows "a + 8 \<le> b \<or> b + 8 \<le> a"
  using assms(1)
proof (cases rule: ich_held_cases)
  case word
  from assms(2) show ?thesis
  proof (cases rule: ich_held_cases)
    case w: word
    from word show ?thesis
      by (rule ich_word_cases) (use w assms(3) in \<open>auto elim!: ich_word_cases\<close>)
  next
    case (lr k)
    with lr_off_bound [of k] word show ?thesis by (auto elim!: ich_word_cases)
  qed
next
  case l: (lr j)
  from assms(2) show ?thesis
  proof (cases rule: ich_held_cases)
    case word
    with lr_off_bound [of j] l show ?thesis by (auto elim!: ich_word_cases)
  next
    case (lr k)
    with l assms(3) have "j \<noteq> k" by auto
    with l lr show ?thesis by (auto simp: lr_off_def)
  qed
qed

lemma ich_held_bound: "ich_held enc = Some off \<Longrightarrow> off + 8 \<le> OHV_RW_STATE_DIRTY"
  by (erule ich_held_cases) (use lr_off_bound in \<open>force elim!: ich_word_cases simp: layout\<close>)+

lemma ich_held_known:
  assumes "ich_held enc = Some off"
  shows "enc \<in> set kIchEncodings \<and> enc \<notin> {ICH_VTR, ICH_MISR, ICH_EISR, ICH_ELRSR}"
  using assms
proof (cases rule: ich_held_cases)
  case word
  then show ?thesis by (auto elim!: ich_word_cases simp: ich_encodings) (simp_all add: masks)
next
  case (lr k)
  have u: "unat enc = 0xe660 + k" using lr by (simp add: ICH_LR0_def unat_word_ariths unat_of_nat)
  have "enc \<noteq> x" if "unat x < 0xe660" for x :: u32 using that u by auto
  moreover have "enc \<in> set kIchEncodings"
    using lr unfolding ich_encodings by (intro disjI2 exI [of _ k]) simp
  ultimately show ?thesis by (simp add: ICH_VTR_def ICH_MISR_def ICH_EISR_def ICH_ELRSR_def)
qed

definition ich_keeps :: "u32 \<Rightarrow> u64 \<Rightarrow> u64" where
  "ich_keeps enc v = (if ich_word enc = None then v AND NOT OHV_ICH_LR_DIRTY else v)"

definition ich_stored :: "u32 \<Rightarrow> u64 \<Rightarrow> u64" where
  "ich_stored enc v = (if ich_word enc = None then v OR OHV_ICH_LR_DIRTY else v)"

lemma ich_keeps_stored: "ich_keeps enc (ich_stored enc v) = ich_keeps enc v"
  by (rule bit_word_eqI) (auto simp: ich_keeps_def ich_stored_def OHV_ICH_LR_DIRTY_def bit_simps)

lemma ich_get_held:
  assumes "ich_held enc = Some off" "unat (slot_id s) < kModelledCpus"
  shows "ich_get enc s m = (HV_SUCCESS, Some (ich_keeps enc (ctx_rd s off)))"
proof -
  note k = ich_held_known [OF assms(1)]
  then obtain j where j: "sparse_slot enc kIchEncodings = Some j"
    by (cases "sparse_slot enc kIchEncodings") (auto simp: sparse_slot_None)
  show ?thesis
    using assms(1)
  proof (cases rule: ich_held_cases)
    case word
    with k j assms(2) show ?thesis by (simp add: ich_get_def ich_keeps_def)
  next
    case (lr i)
    have "unat (enc - ICH_LR0) = i" using lr by (simp add: unat_of_nat)
    moreover have "ICH_LR0 \<le> enc" using lr by (simp add: word_le_nat_alt unat_word_ariths ICH_LR0_def unat_of_nat)
    ultimately show ?thesis using k j lr assms(2) by (simp add: ich_get_def ich_keeps_def ICH_LRS_def)
  qed
qed

lemma ich_set_held:
  assumes "ich_held enc = Some off" "unat (slot_id s) < kModelledCpus"
  shows "\<exists>m'. ich_set enc v s m = (HV_SUCCESS, m',
      ctx_dirty (OHV_STATE_GIC OR OHV_STATE_CONTROLS) (ctx_wr off (ich_stored enc v) s))"
proof -
  note k = ich_held_known [OF assms(1)]
  then obtain j where j: "sparse_slot enc kIchEncodings = Some j"
    by (cases "sparse_slot enc kIchEncodings") (auto simp: sparse_slot_None)
  show ?thesis
    using assms(1)
  proof (cases rule: ich_held_cases)
    case word
    with k j assms(2) show ?thesis by (simp add: ich_set_def ich_stored_def Let_def)
  next
    case (lr i)
    have "unat (enc - ICH_LR0) = i" using lr by (simp add: unat_of_nat)
    moreover have "\<not> enc < ICH_LR0"
      using lr by (simp add: word_less_nat_alt unat_word_ariths ICH_LR0_def unat_of_nat)
    ultimately show ?thesis using k j lr assms(2) by (simp add: ich_set_def ich_stored_def ICH_LRS_def Let_def)
  qed
qed


lemma ich_set_not_held:
  assumes "ich_held enc = None" "unat (slot_id s) < kModelledCpus"
  shows "\<exists>m'. ich_set enc v s m =
      (if enc \<in> {ICH_VTR, ICH_MISR, ICH_EISR, ICH_ELRSR} then HV_SUCCESS else HV_BAD_ARGUMENT, m', s)"
proof -
  have w: "ich_word enc = None" and l: "enc < ICH_LR0 \<or> ICH_LRS \<le> unat (enc - ICH_LR0)"
    using assms(1) by (auto simp: ich_held_def split: option.splits if_splits)
  have k: "sparse_slot enc kIchEncodings \<noteq> None" if "enc \<in> {ICH_VTR, ICH_MISR, ICH_EISR, ICH_ELRSR}"
    using that by (auto simp: sparse_slot_None ich_encodings)
  show ?thesis
  proof (cases "sparse_slot enc kIchEncodings")
    case None
    with k assms(2) show ?thesis by (auto simp: ich_set_def)
  next
    case (Some j)
    with w l assms(2) show ?thesis by (simp add: ich_set_def Let_def)
  qed
qed

lemma ich_get_lr_beyond:
  assumes "ich_held enc = None" "enc \<notin> {ICH_VTR, ICH_MISR, ICH_EISR, ICH_ELRSR}" "unat (slot_id s) < kModelledCpus"
  shows "ich_get enc s m = (HV_BAD_ARGUMENT, None)"
proof (cases "sparse_slot enc kIchEncodings")
  case None
  with assms(3) show ?thesis by (simp add: ich_get_def)
next
  case (Some j)
  then have e: "enc \<in> set kIchEncodings" using sparse_slot_None [of enc kIchEncodings] by auto
  have w: "ich_word enc = None" using assms(1) by (auto simp: ich_held_def split: option.splits if_splits)
  have "enc \<noteq> ICH_AP0R0" "enc \<noteq> ICH_AP1R0" "enc \<noteq> ICH_HCR" "enc \<noteq> ICH_VMCR"
    using w by (auto simp: ich_word_def split: if_splits)
  with e assms(2) obtain k where k: "k < 16" "enc = ICH_LR0 + of_nat k" unfolding ich_encodings by blast
  have "ICH_LR0 \<le> enc" using k by (simp add: word_le_nat_alt unat_word_ariths ICH_LR0_def unat_of_nat)
  moreover from this have "ICH_LRS \<le> unat (enc - ICH_LR0)" using assms(1) w by (simp add: ich_held_def split: if_splits)
  ultimately show ?thesis using Some w assms(2,3) by (simp add: ich_get_def)
qed

text \<open>The same on a slot: what a write does to the register itself, and to the others.\<close>

lemma ich_set_frame:
  assumes "ich_set enc v s m = (e, m', s')" "unat (slot_id s) < kModelledCpus"
  shows "used s' = used s \<and> slot_id s' = slot_id s"
proof (cases "ich_held enc")
  case None
  with ich_set_not_held [OF None assms(2), of v m] assms(1) show ?thesis by auto
next
  case (Some off)
  with ich_set_held [OF Some assms(2), of v m] assms(1) show ?thesis by auto
qed

lemma ich_set_self:
  assumes "ich_set enc v s m = (e, m', s')" "unat (slot_id s) < kModelledCpus"
  shows "case ich_held enc of
      Some off \<Rightarrow> e = HV_SUCCESS \<and> ich_get enc s' m' = (HV_SUCCESS, Some (ich_keeps enc v))
        \<and> ctx_rd s' off = ich_stored enc v
    | None \<Rightarrow> s' = s
        \<and> (if enc \<in> {ICH_VTR, ICH_MISR, ICH_EISR, ICH_ELRSR} then e = HV_SUCCESS
           else e = HV_BAD_ARGUMENT \<and> ich_get enc s' m' = (HV_BAD_ARGUMENT, None))"
proof (cases "ich_held enc")
  case None
  from ich_set_not_held [OF None assms(2), of v m] assms(1)
  have "s' = s" "e = (if enc \<in> {ICH_VTR, ICH_MISR, ICH_EISR, ICH_ELRSR} then HV_SUCCESS else HV_BAD_ARGUMENT)"
    by auto
  with None ich_get_lr_beyond [OF None _ assms(2), of m'] show ?thesis by simp
next
  case (Some off)
  have b: "unat (slot_id s') < kModelledCpus" using ich_set_frame [OF assms] assms(2) by simp
  from ich_set_held [OF Some assms(2), of v m] assms(1)
  have "e = HV_SUCCESS" "s' = ctx_dirty (OHV_STATE_GIC OR OHV_STATE_CONTROLS) (ctx_wr off (ich_stored enc v) s)"
    by auto
  moreover from this ich_held_bound [OF Some] have "ctx_rd s' off = ich_stored enc v" by simp
  ultimately show ?thesis using Some ich_get_held [OF Some b, of m'] by (simp add: ich_keeps_stored)
qed

lemma ich_set_other:
  assumes "ich_set enc v s m = (e, m', s')" "unat (slot_id s) < kModelledCpus" "ich_held q = Some a" "q \<noteq> enc"
  shows "ich_get q s' m' = ich_get q s m"
proof -
  have b: "unat (slot_id s') < kModelledCpus" using ich_set_frame [OF assms(1,2)] assms(2) by simp
  have "ctx_rd s' a = ctx_rd s a"
  proof (cases "ich_held enc")
    case None
    with ich_set_not_held [OF None assms(2), of v m] assms(1) show ?thesis by auto
  next
    case (Some off)
    from ich_set_held [OF Some assms(2), of v m] assms(1)
    have "s' = ctx_dirty (OHV_STATE_GIC OR OHV_STATE_CONTROLS) (ctx_wr off (ich_stored enc v) s)" by auto
    with ich_held_bound [OF assms(3)] ich_held_apart [OF assms(3) Some assms(4)] show ?thesis by auto
  qed
  then show ?thesis by (simp add: ich_get_held [OF assms(3) b] ich_get_held [OF assms(3,2)])
qed



section \<open>Shared interrupts reach the list registers\<close>

abbreviation lr_at :: "VcpuSlot \<Rightarrow> nat \<Rightarrow> u64" where "lr_at s i \<equiv> ctx_rd s (lr_off i)"

lemma lr_at_put:
  assumes "i < 8" "j < 8"
  shows "lr_at (lr_put i v s) j = (if i = j then v else lr_at s j)"
proof (cases "i = j")
  case False
  then have a: "lr_off i + 8 \<le> lr_off j \<or> lr_off j + 8 \<le> lr_off i" by (auto simp: lr_off_def)
  have d: "lr_off j + 8 \<le> OHV_RW_STATE_DIRTY" using assms by (simp add: lr_off_def layout)
  from False show ?thesis unfolding lr_put_def using ctx_rd_wr_other [OF a] d by simp
next
  case True
  have d: "lr_off j + 8 \<le> OHV_RW_STATE_DIRTY" using assms by (simp add: lr_off_def layout)
  with True show ?thesis by (simp add: lr_put_def)
qed

lemma bit_state_mask: "bit LR_STATE_MASK n \<longleftrightarrow> n = 62 \<or> n = 63"
proof -
  have m: "LR_STATE_MASK = bit_mask 62 OR bit_mask 63" by (simp add: LR_STATE_MASK_def)
  show ?thesis unfolding m bit_or_iff bit_push_bit_iff bit_1_iff by auto
qed

lemma lr_live_bits: "lr_live lr \<longleftrightarrow> bit lr 62 \<or> bit lr 63"
proof -
  have "lr AND LR_STATE_MASK = 0 \<longleftrightarrow> (\<forall>n. \<not> bit (lr AND LR_STATE_MASK) n)"
    by (metis bit_eqI bit_0_eq bot_apply bot_bool_def)
  then show ?thesis unfolding lr_live_def bit_and_iff bit_state_mask by auto
qed

lemma vintid_mask: "LR_VINTID_MASK = mask 32"
  by (simp add: LR_VINTID_MASK_def mask_eq_exp_minus_1)

lemma lr_of_unique: "lr_of i lr \<Longrightarrow> lr_of j lr \<Longrightarrow> i = j"
proof -
  assume "lr_of i lr" "lr_of j lr"
  then have "(ucast i :: u64) = ucast j" by (simp add: lr_of_def)
  then have e: "bit (ucast i :: u64) n = bit (ucast j :: u64) n" for n by simp
  have b: "n < 64 \<Longrightarrow> bit i n = bit j n" for n using e [of n] by (simp add: bit_unsigned_iff)
  show "i = j" by (rule bit_word_eqI) (rule b, simp)
qed

lemma entry_bits:
  "bit (lr_entry p i) n \<longleftrightarrow> n = 62 \<or> n = 60 \<or> n = 32 \<or> (48 \<le> n \<and> bit p (n - 48)) \<or> bit i n"
proof -
  have i: "bit i n \<Longrightarrow> n < 32" and p: "bit p (n - 48) \<Longrightarrow> n - 48 < 8"
    using bit_imp_le_length [of i n] bit_imp_le_length [of p "n - 48"] by simp_all
  show ?thesis
    unfolding lr_entry_def LR_STATE_PENDING_def LR_GROUP1_def OHV_ICH_LR_DIRTY_def bit_or_iff
      bit_push_bit_iff bit_1_iff bit_unsigned_iff
    using i p by auto
qed

lemma entry_live: "lr_live (lr_entry p i)"
  by (simp add: lr_live_bits entry_bits)

lemma entry_of: "lr_of i (lr_entry p i)"
  unfolding lr_of_def vintid_mask
  by (rule bit_word_eqI) (auto simp: bit_and_iff bit_mask_iff entry_bits bit_unsigned_iff dest: bit_imp_le_length)

text \<open>At most one live list register per interrupt.\<close>

definition lr_unique :: "VcpuSlot \<Rightarrow> bool" where
  "lr_unique s \<longleftrightarrow> (\<forall>i<8. \<forall>j<8. \<forall>d. i \<noteq> j \<longrightarrow> lr_live (lr_at s i) \<longrightarrow> lr_live (lr_at s j)
     \<longrightarrow> \<not> (lr_of d (lr_at s i) \<and> lr_of d (lr_at s j)))"

lemma lr_uniqueD:
  "lr_unique s \<Longrightarrow> i < 8 \<Longrightarrow> j < 8 \<Longrightarrow> i \<noteq> j \<Longrightarrow> lr_live (lr_at s i) \<Longrightarrow> lr_live (lr_at s j)
     \<Longrightarrow> lr_of d (lr_at s i) \<Longrightarrow> lr_of d (lr_at s j) \<Longrightarrow> False"
  unfolding lr_unique_def by blast

lemma lr_unique_put_live:
  assumes "lr_unique s" "i < 8" "lr_of d v" "\<forall>j<8. \<not> (lr_live (lr_at s j) \<and> lr_of d (lr_at s j))"
  shows "lr_unique (lr_put i v s)"
  unfolding lr_unique_def
proof (intro allI impI notI)
  fix a b c assume ab: "a < 8" "b < 8" "a \<noteq> b" and l: "lr_live (lr_at (lr_put i v s) a)"
    "lr_live (lr_at (lr_put i v s) b)" and c: "lr_of c (lr_at (lr_put i v s) a) \<and> lr_of c (lr_at (lr_put i v s) b)"
  note p = lr_at_put [OF assms(2)]
  consider "a = i" | "b = i" | "a \<noteq> i" "b \<noteq> i" by blast
  then show False
  proof cases
    case 1
    with ab c l have "lr_of c v" "lr_live (lr_at s b)" "lr_of c (lr_at s b)" by (simp_all add: p)
    with lr_of_unique [OF assms(3), of c] assms(4) ab show False by blast
  next
    case 2
    with ab c l have "lr_of c v" "lr_live (lr_at s a)" "lr_of c (lr_at s a)" by (simp_all add: p)
    with lr_of_unique [OF assms(3), of c] assms(4) ab show False by blast
  next
    case 3
    with ab c l have "lr_live (lr_at s a)" "lr_live (lr_at s b)" "lr_of c (lr_at s a)" "lr_of c (lr_at s b)"
      by (simp_all add: p)
    with lr_uniqueD [OF assms(1) ab] show False by blast
  qed
qed

lemma dirty_dead: "\<not> lr_live OHV_ICH_LR_DIRTY"
  unfolding lr_live_bits OHV_ICH_LR_DIRTY_def bit_push_bit_iff bit_1_iff by simp


text \<open>What queueing and dropping do to the eight registers.\<close>

lemma queue_spi_cases:
  assumes "lr_unique s"
  shows "lr_unique (queue_spi d p s)"
    and "(\<exists>i<8. lr_live (lr_at (queue_spi d p s) i) \<and> lr_of d (lr_at (queue_spi d p s) i))
      \<or> (\<forall>i<8. lr_live (lr_at s i)) \<and> queue_spi d p s = s"
    and "\<And>i. i < 8 \<Longrightarrow> lr_live (lr_at s i) \<Longrightarrow> lr_at (queue_spi d p s) i = lr_at s i"
proof -
  let ?q = "queue_spi d p s"
  have u: "queue_spi d p s = (if (\<exists>i<8. lr_live (lr_at s i) \<and> lr_of d (lr_at s i)) then s
      else case find (\<lambda>i. \<not> lr_live (lr_at s i)) [0..<8] of Some i \<Rightarrow> lr_put i (lr_entry p d) s | None \<Rightarrow> s)"
    unfolding queue_spi_def Let_def ICH_LRS_def by (simp add: list_ex_iff del: upt_Suc) (auto simp: Bex_def)
  show "lr_unique ?q"
    "(\<exists>i<8. lr_live (lr_at ?q i) \<and> lr_of d (lr_at ?q i)) \<or> (\<forall>i<8. lr_live (lr_at s i)) \<and> ?q = s"
    "\<And>i. i < 8 \<Longrightarrow> lr_live (lr_at s i) \<Longrightarrow> lr_at ?q i = lr_at s i"
  proof (atomize (full), cases "\<exists>i<8. lr_live (lr_at s i) \<and> lr_of d (lr_at s i)")
    case True
    then have "?q = s" using u by simp
    with True assms show "lr_unique ?q \<and> ((\<exists>i<8. lr_live (lr_at ?q i) \<and> lr_of d (lr_at ?q i)) \<or> (\<forall>i<8. lr_live (lr_at s i)) \<and> ?q = s)
       \<and> (\<forall>i. i < 8 \<longrightarrow> lr_live (lr_at s i) \<longrightarrow> lr_at ?q i = lr_at s i)" by simp
  next
    case none: False
    show "lr_unique ?q \<and> ((\<exists>i<8. lr_live (lr_at ?q i) \<and> lr_of d (lr_at ?q i)) \<or> (\<forall>i<8. lr_live (lr_at s i)) \<and> ?q = s)
       \<and> (\<forall>i. i < 8 \<longrightarrow> lr_live (lr_at s i) \<longrightarrow> lr_at ?q i = lr_at s i)"
    proof (cases "find (\<lambda>i. \<not> lr_live (lr_at s i)) [0..<8]")
      case None
      then have "\<forall>i<8. lr_live (lr_at s i)" by (simp add: find_None_iff del: upt_Suc)
      moreover have "?q = s" using u none None by (simp del: upt_Suc)
      ultimately show ?thesis using assms by simp
    next
      case (Some i)
      then have i: "i < 8" "\<not> lr_live (lr_at s i)" by (auto simp: find_Some_iff simp del: upt_Suc)
      have q: "?q = lr_put i (lr_entry p d) s" using u none Some by (simp del: upt_Suc)
      have "lr_unique ?q" unfolding q by (rule lr_unique_put_live [OF assms i(1) entry_of]) (use none in blast)
      moreover have "lr_live (lr_at ?q i) \<and> lr_of d (lr_at ?q i)"
        unfolding q using lr_at_put [OF i(1) i(1)] by (simp add: entry_live entry_of)
      moreover have "lr_at ?q j = lr_at s j" if "j < 8" "lr_live (lr_at s j)" for j
        unfolding q using lr_at_put [OF i(1) that(1)] i(2) that(2) by auto
      ultimately show ?thesis using i(1) by blast
    qed
  qed
qed

definition lr_pending :: "u32 \<Rightarrow> u64 \<Rightarrow> bool" where
  "lr_pending d lr \<longleftrightarrow> lr AND LR_STATE_MASK = LR_STATE_PENDING \<and> lr_of d lr"

lemma drop_lr_at:
  "i < 8 \<Longrightarrow> j < 8 \<Longrightarrow> lr_at (drop_lr d i s) j = (if i = j \<and> lr_pending d (lr_at s j) then OHV_ICH_LR_DIRTY else lr_at s j)"
  by (auto simp: drop_lr_def Let_def lr_pending_def lr_at_put)

lemma drop_fold_at:
  "set is \<subseteq> {..<8} \<Longrightarrow> distinct is \<Longrightarrow> j < 8 \<Longrightarrow> lr_at (fold (drop_lr d) is s) j =
     (if j \<in> set is \<and> lr_pending d (lr_at s j) then OHV_ICH_LR_DIRTY else lr_at s j)"
  by (induction "is" arbitrary: s) (auto simp: drop_lr_at)

lemma drop_spi_at:
  "j < 8 \<Longrightarrow> lr_at (drop_spi d s) j = (if lr_pending d (lr_at s j) then OHV_ICH_LR_DIRTY else lr_at s j)"
  unfolding drop_spi_def ICH_LRS_def by (subst drop_fold_at) auto

lemma drop_spi_unique:
  assumes "lr_unique s"
  shows "lr_unique (drop_spi d s)"
  unfolding lr_unique_def
proof (intro allI impI notI)
  fix a b c assume ab: "a < 8" "b < 8" "a \<noteq> b" and l: "lr_live (lr_at (drop_spi d s) a)"
    "lr_live (lr_at (drop_spi d s) b)" and c: "lr_of c (lr_at (drop_spi d s) a) \<and> lr_of c (lr_at (drop_spi d s) b)"
  from l ab dirty_dead have "lr_at (drop_spi d s) a = lr_at s a" "lr_at (drop_spi d s) b = lr_at s b"
    by (auto simp: drop_spi_at split: if_splits)
  with lr_uniqueD [OF assms ab] l c show False by metis
qed


text \<open>The distributor's bits of a shared interrupt.\<close>

definition spi_bit :: "(nat \<Rightarrow> gicd_reg) \<Rightarrow> GicModel \<Rightarrow> u32 \<Rightarrow> bool" where
  "spi_bit reg m d = bit (dist m (gicd_offset (reg 0) div 4 + unat d div 32)) (unat d mod 32)"

lemma set_spi_unfold:
  fixes level :: bool
  assumes "g_gic g = Some m" "32 \<le> d" "d < 1020"
  defines "m' \<equiv> m\<lparr>dist := (dist m)(gicd_offset (GICD_ISPENDR 0) div 4 + unat d div 32 :=
      if level then dist m (gicd_offset (GICD_ISPENDR 0) div 4 + unat d div 32) OR bit_mask (unat d mod 32)
      else dist m (gicd_offset (GICD_ISPENDR 0) div 4 + unat d div 32) AND NOT (bit_mask (unat d mod 32)))\<rparr>"
  assumes "spi_target g = Some n" "slot_id (g_vcpus g n) < 16"
  shows "hv_gic_set_spi d level g = (HV_SUCCESS,
     (if level then if spi_bit GICD_ISENABLER m d then upd_slot n (queue_spi d (spi_priority m' d)) (g\<lparr>g_gic := Some m'\<rparr>)
                    else g\<lparr>g_gic := Some m'\<rparr>
      else upd_slot n (drop_spi d) (g\<lparr>g_gic := Some m'\<rparr>)))"
    and "spi_bit GICD_ISPENDR m' d = level"
proof -
  define pend where "pend = gicd_offset (GICD_ISPENDR 0) div 4 + unat d div 32"
  define en where "en = gicd_offset (GICD_ISENABLER 0) div 4 + unat d div 32"
  have d: "unat d < 1020" using assms(3) by (simp add: word_less_nat_alt)
  then have pe: "en \<noteq> pend" "\<not> kDistSlots \<le> pend" by (simp_all add: pend_def en_def gic_sizes)
  have m': "m' = m\<lparr>dist := (dist m)(pend := if level then dist m pend OR bit_mask (unat d mod 32)
      else dist m pend AND NOT (bit_mask (unat d mod 32)))\<rparr>"
    by (simp only: m'_def pend_def)
  have r: "\<not> (d < kSpiBase \<or> kSpiBase + kSpiCount \<le> d)"
    using assms(2,3) by (simp add: kSpiBase_def kSpiCount_def not_less not_le)
  have t: "spi_target (g\<lparr>g_gic := Some m'\<rparr>) = Some n" using assms(5) by (simp add: spi_target_def)
  have c: "\<not> of_nat kModelledCpus \<le> slot_id (g_vcpus (g\<lparr>g_gic := Some m'\<rparr>) n)"
    using assms(6) by (simp add: kModelledCpus_def not_le)
  have e: "dist m' en AND bit_mask (unat d mod 32) = 0 \<longleftrightarrow> \<not> spi_bit GICD_ISENABLER m d"
    unfolding and_bit_mask_eq_0 using pe(1) by (simp add: m' spi_bit_def en_def)
  show "hv_gic_set_spi d level g = (HV_SUCCESS,
     (if level then if spi_bit GICD_ISENABLER m d then upd_slot n (queue_spi d (spi_priority m' d)) (g\<lparr>g_gic := Some m'\<rparr>)
                    else g\<lparr>g_gic := Some m'\<rparr>
      else upd_slot n (drop_spi d) (g\<lparr>g_gic := Some m'\<rparr>)))"
    unfolding hv_gic_set_spi_def assms(1) option.case Let_def pend_def [symmetric] en_def [symmetric] m' [symmetric]
      t e if_not_P [OF r] if_not_P [OF pe(2)] if_not_P [OF c]
    by simp
  show "spi_bit GICD_ISPENDR m' d = level"
  proof -
    have w: "unat d mod 32 < 64" by (rule less_le_trans [OF mod_less_divisor]) simp_all
    have "dist m' pend = (if level then dist m pend OR bit_mask (unat d mod 32)
        else dist m pend AND NOT (bit_mask (unat d mod 32)))" unfolding m' by simp
    then have "bit (dist m' pend) (unat d mod 32) = level"
      using bit_or_mask [of "dist m pend" "unat d mod 32" "unat d mod 32"]
        bit_andnot_mask [of "dist m pend" "unat d mod 32" "unat d mod 32"] w by (cases level) simp_all
    then show ?thesis by (simp only: spi_bit_def pend_def)
  qed
qed



definition spi_vm :: ohv_vm_state where
  "spi_vm = gic_vm\<lparr>g_gic := Some ((zero_gic zero_gic_config)\<lparr>dist := (\<lambda>_. 0)(gicd_offset (GICD_ISENABLER 0) div 4 + 1 := 0x100)\<rparr>)\<rparr>"


section \<open>Saved state\<close>

text \<open>A state handle is created empty and nothing of the controller is ever copied into it, so what
  is saved does not depend on the controller, and restoring it -- which is accepted -- leaves a
  controller whose every register reads zero, the self-description in GICD_TYPER and the
  configured bases included.\<close>

theorem saved_state_is_empty:
  assumes "g_gic g = Some m" "hv_gic_state_create True = Some h"
    and "hv_gic_state_get_size (Some h) True = (HV_SUCCESS, Some len)"
    and "hv_gic_state_get_data (Some h) True = (HV_SUCCESS, Some d)"
    and "hv_gic_set_state (Some d) len g = (e, g')"
  shows "e = HV_SUCCESS \<and> hv_gic_get_distributor_reg (of_nat (gicd_offset GICD_TYPER)) True g' = (HV_SUCCESS, Some 0)
      \<and> g_gic g' = Some (zero_gic zero_gic_config)"
proof -
  have d: "d = zero_gic zero_gic_config" "len = GicModel_size"
    using assms(2-4) by (auto simp: hv_gic_state_create_def hv_gic_state_get_data_def
        hv_gic_state_get_size_def out_value_def)
  have g': "e = HV_SUCCESS" "g_gic g' = Some (zero_gic zero_gic_config)"
    using assms(1,5) by (auto simp: hv_gic_set_state_def d for_vcpus_def)
  have "frame_slot (of_nat (gicd_offset GICD_TYPER)) kDistSlots = Some 1"
    using frame_slot_aligned [of 4 kDistSlots] by (simp add: gic_sizes)
  then show ?thesis using g'
    by (simp add: hv_gic_get_distributor_reg_def gic_read_def dist_get_def zero_gic_def)
qed

theorem saved_state_is_empty_witness:
  "hv_gic_get_distributor_reg 4 True (snd (hv_gic_set_state (hv_gic_state_create True) GicModel_size gic_vm)) = (HV_SUCCESS, Some 0)"
proof -
  have h: "hv_gic_state_create True = Some (zero_gic zero_gic_config)" by (simp add: hv_gic_state_create_def)
  obtain e g' where x: "hv_gic_set_state (Some (zero_gic zero_gic_config)) GicModel_size gic_vm = (e, g')" by force
  have m: "g_gic gic_vm = Some (describe (zero_gic (zero_gic_config\<lparr>redistributor_base := 0x10000000\<rparr>)))"
    by (simp add: gic_vm_def)
  from saved_state_is_empty [OF m h _ _ x] show ?thesis
    by (simp add: h x hv_gic_state_get_size_def hv_gic_state_get_data_def out_value_def)
qed

end
