(* ===== verification/Ohv_Misc.thy ===== *)
theory Ohv_Misc
  imports Ohv_Vcpu
begin

text \<open>
  The rest of \<open>src/ohv_misc.cpp\<close>: the private vCPU configuration object, the SME and AMX register
  files, address spaces, the capability query and the data-abort monitor.

  The SME and AMX register files are buffers in this process the kernel names by a pointer in the
  read-only page; \<open>host\<close> is the process's memory as bytes at 64-bit addresses, an access of \<open>n\<close>
  bytes takes the next \<open>n\<close> addresses (modulo the address space), and a null pointer is 0.
\<close>

section \<open>vCPU configuration\<close>

record hv_vcpu_config_s =
  feature_overrides :: "u64 \<times> u64"
  misc :: u16
  fgt_enabled :: bool
  tlbi_workaround :: bool
  vmkey :: u64

definition hv_vcpu_config_create :: "bool \<Rightarrow> hv_vcpu_config_s option" where
  "hv_vcpu_config_create allocated =
     (if allocated then Some \<lparr>feature_overrides = (0, 0), misc = 0, fgt_enabled = False,
                              tlbi_workaround = False, vmkey = 0\<rparr> else None)"

definition config_get :: "'c option \<Rightarrow> bool \<Rightarrow> ('c \<Rightarrow> 'a) \<Rightarrow> hv_return \<times> 'a option" where
  "config_get c p f =
     (case c of None \<Rightarrow> (HV_BAD_ARGUMENT, None)
      | Some x \<Rightarrow> if \<not> p then (HV_BAD_ARGUMENT, None) else (HV_SUCCESS, Some (f x)))"

definition config_set :: "'c option \<Rightarrow> ('c \<Rightarrow> 'c) \<Rightarrow> hv_return \<times> 'c option" where
  "config_set c f = (case c of None \<Rightarrow> (HV_BAD_ARGUMENT, None) | Some x \<Rightarrow> (HV_SUCCESS, Some (f x)))"

definition hv_vcpu_config_get_vmkey :: "hv_vcpu_config_s option \<Rightarrow> bool \<Rightarrow> hv_return \<times> u64 option" where
  "hv_vcpu_config_get_vmkey c p = config_get c p vmkey"
definition hv_vcpu_config_set_vmkey :: "hv_vcpu_config_s option \<Rightarrow> u64 \<Rightarrow> hv_return \<times> hv_vcpu_config_s option" where
  "hv_vcpu_config_set_vmkey c k = config_set c (\<lambda>x. x\<lparr>vmkey := k\<rparr>)"
definition hv_vcpu_config_get_fgt_enabled :: "hv_vcpu_config_s option \<Rightarrow> bool \<Rightarrow> hv_return \<times> bool option" where
  "hv_vcpu_config_get_fgt_enabled c p = config_get c p fgt_enabled"
definition hv_vcpu_config_set_fgt_enabled :: "hv_vcpu_config_s option \<Rightarrow> bool \<Rightarrow> hv_return \<times> hv_vcpu_config_s option" where
  "hv_vcpu_config_set_fgt_enabled c v = config_set c (\<lambda>x. x\<lparr>fgt_enabled := v\<rparr>)"
definition hv_vcpu_config_get_tlbi_workaround_enabled :: "hv_vcpu_config_s option \<Rightarrow> bool \<Rightarrow> hv_return \<times> bool option" where
  "hv_vcpu_config_get_tlbi_workaround_enabled c p = config_get c p tlbi_workaround"
definition hv_vcpu_config_set_tlbi_workaround_enabled :: "hv_vcpu_config_s option \<Rightarrow> bool \<Rightarrow> hv_return \<times> hv_vcpu_config_s option" where
  "hv_vcpu_config_set_tlbi_workaround_enabled c v = config_set c (\<lambda>x. x\<lparr>tlbi_workaround := v\<rparr>)"

section \<open>Process memory\<close>

type_synonym host = "u64 \<Rightarrow> u8"

definition host_rd :: "host \<Rightarrow> u64 \<Rightarrow> nat \<Rightarrow> u8 list" where
  "host_rd h a n = map (\<lambda>i. h (a + of_nat i)) [0..<n]"

definition host_wr :: "host \<Rightarrow> u64 \<Rightarrow> u8 list \<Rightarrow> host" where
  "host_wr h a bs = (\<lambda>x. if unat (x - a) < length bs then bs ! unat (x - a) else h x)"

section \<open>SME\<close>

definition svl_b :: "VcpuSlot \<Rightarrow> nat" where "svl_b s = unat (rd16 (ctx s) ro_struct_svl_b)"
definition sme_ptr :: "VcpuSlot \<Rightarrow> u64" where "sme_ptr s = ctx_rd s ro_struct_sme"

definition hv_sme_config_get_max_svl_bytes :: "nat \<Rightarrow> ohv_vm_state \<Rightarrow> bool \<Rightarrow> hv_return \<times> nat option" where
  "hv_sme_config_get_max_svl_bytes me g p =
     (if \<not> p then (HV_BAD_ARGUMENT, None)
      else case tl_current_vcpu g me of
        None \<Rightarrow> (HV_NO_DEVICE, Some 0)
      | Some n \<Rightarrow> (HV_SUCCESS, Some (svl_b (g_vcpus g n))))"

record hv_vcpu_sme_state =
  streaming_sve_mode_enabled :: bool
  za_storage_enabled :: bool

definition hv_vcpu_get_sme_state ::
  "nat \<Rightarrow> ohv_vm_state \<Rightarrow> u64 \<Rightarrow> bool \<Rightarrow> hv_return \<times> hv_vcpu_sme_state option" where
  "hv_vcpu_get_sme_state me g i p =
     slot_get me g i p (\<lambda>s. let svcr = ctx_rd s OHV_RO_SVCR in
       (HV_SUCCESS, Some \<lparr>streaming_sve_mode_enabled = (svcr AND 1 \<noteq> 0), za_storage_enabled = (svcr AND 2 \<noteq> 0)\<rparr>))"

definition hv_vcpu_set_sme_state ::
  "'k kernel \<Rightarrow> nat \<Rightarrow> ohv_vm_state \<Rightarrow> u64 \<Rightarrow> hv_vcpu_sme_state option \<Rightarrow> 'k \<Rightarrow> hv_return \<times> 'k" where
  "hv_vcpu_set_sme_state K me g i st k =
     (case (owned_vcpu me g i, st) of
        (Some _, Some x) \<Rightarrow>
          k_set_svcr K k ((if streaming_sve_mode_enabled x then 1 else 0) OR (if za_storage_enabled x then 2 else 0))
      | _ \<Rightarrow> (HV_BAD_ARGUMENT, k))"

text \<open>Where each register file starts in the buffer, and how long an access is, given what the caller
  asks for; \<open>None\<close> is the refusal the code makes with HV_BAD_ARGUMENT.\<close>

definition z_span :: "u32 \<Rightarrow> nat \<Rightarrow> nat \<Rightarrow> (nat \<times> nat) option" where
  "z_span r len svl = (if len < svl \<or> 31 < r then None else Some (unat r * svl, svl))"
definition za_span :: "nat \<Rightarrow> nat \<Rightarrow> (nat \<times> nat) option" where
  "za_span len svl = (if len < svl * svl then None else Some (32 * svl, svl * svl))"
definition zt0_span :: "nat \<Rightarrow> (nat \<times> nat) option" where
  "zt0_span svl = Some (0, 64)"

definition sme_get ::
  "nat \<Rightarrow> ohv_vm_state \<Rightarrow> u64 \<Rightarrow> bool \<Rightarrow> (nat \<Rightarrow> (nat \<times> nat) option) \<Rightarrow> host \<Rightarrow> hv_return \<times> u8 list option" where
  "sme_get me g i p span h =
     slot_get me g i p (\<lambda>s.
       if sme_ptr s = 0 then (HV_ILLEGAL_GUEST_STATE, None)
       else case span (svl_b s) of
         None \<Rightarrow> (HV_BAD_ARGUMENT, None)
       | Some (off, n) \<Rightarrow> (HV_SUCCESS, Some (host_rd h (sme_ptr s + of_nat off) n)))"

text \<open>A write takes the bytes the span asks for from the caller's buffer \<open>bs\<close>.\<close>

definition sme_set ::
  "nat \<Rightarrow> u64 \<Rightarrow> u8 list option \<Rightarrow> (nat \<Rightarrow> (nat \<times> nat) option) \<Rightarrow> host \<Rightarrow> ohv_vm_state
     \<Rightarrow> hv_return \<times> host \<times> ohv_vm_state" where
  "sme_set me i buf span h g =
     (case (owned_vcpu me g i, buf) of
        (Some c, Some bs) \<Rightarrow>
          let s = g_vcpus g c in
          if sme_ptr s = 0 then (HV_ILLEGAL_GUEST_STATE, h, g)
          else (case span (svl_b s) of
            None \<Rightarrow> (HV_BAD_ARGUMENT, h, g)
          | Some (off, n) \<Rightarrow>
              (HV_SUCCESS, host_wr h (sme_ptr s + of_nat off) (take n bs), upd_slot c (ctx_dirty OHV_STATE_SME_CONTEXT) g))
      | _ \<Rightarrow> (HV_BAD_ARGUMENT, h, g))"

definition hv_vcpu_get_sme_z_reg ::
  "nat \<Rightarrow> ohv_vm_state \<Rightarrow> u64 \<Rightarrow> u32 \<Rightarrow> bool \<Rightarrow> nat \<Rightarrow> host \<Rightarrow> hv_return \<times> u8 list option" where
  "hv_vcpu_get_sme_z_reg me g i r p len h = sme_get me g i p (z_span r len) h"
definition hv_vcpu_set_sme_z_reg ::
  "nat \<Rightarrow> u64 \<Rightarrow> u32 \<Rightarrow> u8 list option \<Rightarrow> nat \<Rightarrow> host \<Rightarrow> ohv_vm_state \<Rightarrow> hv_return \<times> host \<times> ohv_vm_state" where
  "hv_vcpu_set_sme_z_reg me i r buf len h g = sme_set me i buf (z_span r len) h g"
definition hv_vcpu_get_sme_p_reg :: "hv_return" where "hv_vcpu_get_sme_p_reg = HV_UNSUPPORTED"
definition hv_vcpu_set_sme_p_reg :: "hv_return" where "hv_vcpu_set_sme_p_reg = HV_UNSUPPORTED"
definition hv_vcpu_get_sme_za_reg ::
  "nat \<Rightarrow> ohv_vm_state \<Rightarrow> u64 \<Rightarrow> bool \<Rightarrow> nat \<Rightarrow> host \<Rightarrow> hv_return \<times> u8 list option" where
  "hv_vcpu_get_sme_za_reg me g i p len h = sme_get me g i p (za_span len) h"
definition hv_vcpu_set_sme_za_reg ::
  "nat \<Rightarrow> u64 \<Rightarrow> u8 list option \<Rightarrow> nat \<Rightarrow> host \<Rightarrow> ohv_vm_state \<Rightarrow> hv_return \<times> host \<times> ohv_vm_state" where
  "hv_vcpu_set_sme_za_reg me i buf len h g = sme_set me i buf (za_span len) h g"
definition hv_vcpu_get_sme_zt0_reg ::
  "nat \<Rightarrow> ohv_vm_state \<Rightarrow> u64 \<Rightarrow> bool \<Rightarrow> host \<Rightarrow> hv_return \<times> u8 list option" where
  "hv_vcpu_get_sme_zt0_reg me g i p h = sme_get me g i p zt0_span h"
definition hv_vcpu_set_sme_zt0_reg ::
  "nat \<Rightarrow> u64 \<Rightarrow> u8 list option \<Rightarrow> host \<Rightarrow> ohv_vm_state \<Rightarrow> hv_return \<times> host \<times> ohv_vm_state" where
  "hv_vcpu_set_sme_zt0_reg me i buf h g = sme_set me i buf zt0_span h g"

section \<open>AMX\<close>

text \<open>The layout of \<open>arm_guest_amx_context\<close>: X, Y, Z and the state word.\<close>

definition amx_context_fields :: "c_field list" where
  "amx_context_fields = [(''x'', 8 * 64, 1), (''y'', 8 * 64, 1), (''z'', 64 * 64, 1), (''amx_state_t_el1'', 8, 8)]"

definition amx_off :: "string \<Rightarrow> nat" where
  "amx_off f = (case c_offsetof amx_context_fields f of Some n \<Rightarrow> n | None \<Rightarrow> 0)"

definition hv_vcpu_amx_prepare :: "'k kernel \<Rightarrow> nat \<Rightarrow> ohv_vm_state \<Rightarrow> u64 \<Rightarrow> 'k \<Rightarrow> hv_return \<times> 'k" where
  "hv_vcpu_amx_prepare K me g i k =
     (case owned_vcpu me g i of None \<Rightarrow> (HV_BAD_ARGUMENT, k) | Some _ \<Rightarrow> k_amx_prepare K k)"

definition hv_vcpu_amx_query_active_context ::
  "nat \<Rightarrow> ohv_vm_state \<Rightarrow> u64 \<Rightarrow> bool \<Rightarrow> hv_return \<times> bool option" where
  "hv_vcpu_amx_query_active_context me g i p =
     slot_get me g i p (\<lambda>s. (HV_SUCCESS, Some (ctx_rd s ro_struct_amx \<noteq> 0)))"

definition amx_of :: "nat \<Rightarrow> ohv_vm_state \<Rightarrow> u64 \<Rightarrow> u64" where
  "amx_of me g i = (case owned_vcpu me g i of None \<Rightarrow> 0 | Some n \<Rightarrow> ctx_rd (g_vcpus g n) ro_struct_amx)"

definition amx_get :: "string \<Rightarrow> nat \<Rightarrow> nat \<Rightarrow> ohv_vm_state \<Rightarrow> u64 \<Rightarrow> host \<Rightarrow> hv_return \<times> u8 list option" where
  "amx_get f n me g i h =
     (if amx_of me g i = 0 then (HV_ILLEGAL_GUEST_STATE, None)
      else (HV_SUCCESS, Some (host_rd h (amx_of me g i + of_nat (amx_off f)) n)))"

definition amx_set :: "string \<Rightarrow> nat \<Rightarrow> nat \<Rightarrow> ohv_vm_state \<Rightarrow> u64 \<Rightarrow> u8 list \<Rightarrow> host \<Rightarrow> hv_return \<times> host" where
  "amx_set f n me g i bs h =
     (if amx_of me g i = 0 then (HV_ILLEGAL_GUEST_STATE, h)
      else (HV_SUCCESS, host_wr h (amx_of me g i + of_nat (amx_off f)) (take n bs)))"

definition hv_vcpu_get_amx_x_space :: "nat \<Rightarrow> ohv_vm_state \<Rightarrow> u64 \<Rightarrow> host \<Rightarrow> hv_return \<times> u8 list option" where
  "hv_vcpu_get_amx_x_space = amx_get ''x'' 512"
definition hv_vcpu_set_amx_x_space :: "nat \<Rightarrow> ohv_vm_state \<Rightarrow> u64 \<Rightarrow> u8 list \<Rightarrow> host \<Rightarrow> hv_return \<times> host" where
  "hv_vcpu_set_amx_x_space = amx_set ''x'' 512"
definition hv_vcpu_get_amx_y_space :: "nat \<Rightarrow> ohv_vm_state \<Rightarrow> u64 \<Rightarrow> host \<Rightarrow> hv_return \<times> u8 list option" where
  "hv_vcpu_get_amx_y_space = amx_get ''y'' 512"
definition hv_vcpu_set_amx_y_space :: "nat \<Rightarrow> ohv_vm_state \<Rightarrow> u64 \<Rightarrow> u8 list \<Rightarrow> host \<Rightarrow> hv_return \<times> host" where
  "hv_vcpu_set_amx_y_space = amx_set ''y'' 512"
definition hv_vcpu_get_amx_z_space :: "nat \<Rightarrow> ohv_vm_state \<Rightarrow> u64 \<Rightarrow> host \<Rightarrow> hv_return \<times> u8 list option" where
  "hv_vcpu_get_amx_z_space = amx_get ''z'' 4096"
definition hv_vcpu_set_amx_z_space :: "nat \<Rightarrow> ohv_vm_state \<Rightarrow> u64 \<Rightarrow> u8 list \<Rightarrow> host \<Rightarrow> hv_return \<times> host" where
  "hv_vcpu_set_amx_z_space = amx_set ''z'' 4096"

definition hv_vcpu_get_amx_state_t_el1 ::
  "nat \<Rightarrow> ohv_vm_state \<Rightarrow> u64 \<Rightarrow> bool \<Rightarrow> host \<Rightarrow> hv_return \<times> u64 option" where
  "hv_vcpu_get_amx_state_t_el1 me g i p h =
     (if amx_of me g i = 0 \<or> \<not> p then (HV_ILLEGAL_GUEST_STATE, None)
      else (HV_SUCCESS, Some (le64 (\<lambda>j. h (amx_of me g i + of_nat (amx_off ''amx_state_t_el1'') + of_nat j)))))"
definition hv_vcpu_set_amx_state_t_el1 ::
  "nat \<Rightarrow> ohv_vm_state \<Rightarrow> u64 \<Rightarrow> u64 \<Rightarrow> host \<Rightarrow> hv_return \<times> host" where
  "hv_vcpu_set_amx_state_t_el1 me g i v h =
     amx_set ''amx_state_t_el1'' 8 me g i (map (byte_of v) [0..<8]) h"

section \<open>Address spaces\<close>

record hv_vm_space_config_s =
  ipa_base :: u64
  ipa_size :: u64
  ipa_granule :: u64

definition hv_vm_space_config_create :: "hv_vm_space_config_s option" where
  "hv_vm_space_config_create = Some \<lparr>ipa_base = 0, ipa_size = 0, ipa_granule = 0\<rparr>"
definition hv_vm_space_config_set_ipa_base :: "hv_vm_space_config_s option \<Rightarrow> u64 \<Rightarrow> hv_return \<times> hv_vm_space_config_s option" where
  "hv_vm_space_config_set_ipa_base c v = config_set c (\<lambda>x. x\<lparr>ipa_base := v\<rparr>)"
definition hv_vm_space_config_get_ipa_base :: "hv_vm_space_config_s option \<Rightarrow> bool \<Rightarrow> hv_return \<times> u64 option" where
  "hv_vm_space_config_get_ipa_base c p = config_get c p ipa_base"
definition hv_vm_space_config_set_ipa_size :: "hv_vm_space_config_s option \<Rightarrow> u64 \<Rightarrow> hv_return \<times> hv_vm_space_config_s option" where
  "hv_vm_space_config_set_ipa_size c v = config_set c (\<lambda>x. x\<lparr>ipa_size := v\<rparr>)"
definition hv_vm_space_config_get_ipa_size :: "hv_vm_space_config_s option \<Rightarrow> bool \<Rightarrow> hv_return \<times> u64 option" where
  "hv_vm_space_config_get_ipa_size c p = config_get c p ipa_size"
definition hv_vm_space_config_set_ipa_granule :: "hv_vm_space_config_s option \<Rightarrow> u64 \<Rightarrow> hv_return \<times> hv_vm_space_config_s option" where
  "hv_vm_space_config_set_ipa_granule c v = config_set c (\<lambda>x. x\<lparr>ipa_granule := v\<rparr>)"
definition hv_vm_space_config_get_ipa_granule :: "hv_vm_space_config_s option \<Rightarrow> bool \<Rightarrow> hv_return \<times> u64 option" where
  "hv_vm_space_config_get_ipa_granule c p = config_get c p ipa_granule"

definition hv_vm_space_create ::
  "'k kernel \<Rightarrow> hv_vm_space_config_s option \<Rightarrow> bool \<Rightarrow> ohv_vm_state \<Rightarrow> 'k \<Rightarrow> hv_return \<times> u64 option \<times> 'k" where
  "hv_vm_space_create K c out g k =
     (case c of None \<Rightarrow> (HV_BAD_ARGUMENT, None, k)
      | Some x \<Rightarrow>
          if \<not> out then (HV_BAD_ARGUMENT, None, k)
          else if require_vm g \<noteq> HV_SUCCESS then (require_vm g, None, k)
          else (case k_addrspace_create K k \<lparr>as_min_ipa = ipa_base x, as_ipa_size = ipa_size x,
                      as_granule = ucast (ipa_granule x), as_flags = 0\<rparr> of
                  (r, a, k') \<Rightarrow> (r, if r = HV_SUCCESS then Some a else None, k')))"

definition hv_vm_space_destroy :: "u64 \<Rightarrow> hv_return" where "hv_vm_space_destroy space = HV_SUCCESS"

definition space_trap ::
  "'k kernel \<Rightarrow> map_trap \<Rightarrow> ohv_vm_map_item_t \<Rightarrow> ohv_vm_state \<Rightarrow> 'k \<Rightarrow> hv_return \<times> 'k" where
  "space_trap K t item g k = (if require_vm g \<noteq> HV_SUCCESS then (require_vm g, k) else k_map K k t item)"

definition hv_vm_map_space ::
  "'k kernel \<Rightarrow> u64 \<Rightarrow> u64 \<Rightarrow> u64 \<Rightarrow> u64 \<Rightarrow> u64 \<Rightarrow> ohv_vm_state \<Rightarrow> 'k \<Rightarrow> hv_return \<times> 'k" where
  "hv_vm_map_space K space addr ipa sz flags =
     space_trap K TRAP_VM_MAP \<lparr>mi_uva = addr, mi_ipa = ipa, mi_size = sz, mi_flags = flags, mi_asid = space\<rparr>"
definition hv_vm_unmap_space ::
  "'k kernel \<Rightarrow> u64 \<Rightarrow> u64 \<Rightarrow> u64 \<Rightarrow> ohv_vm_state \<Rightarrow> 'k \<Rightarrow> hv_return \<times> 'k" where
  "hv_vm_unmap_space K space ipa sz =
     space_trap K TRAP_VM_UNMAP \<lparr>mi_uva = 0, mi_ipa = ipa, mi_size = sz, mi_flags = 0, mi_asid = space\<rparr>"
definition hv_vm_protect_space ::
  "'k kernel \<Rightarrow> u64 \<Rightarrow> u64 \<Rightarrow> u64 \<Rightarrow> u64 \<Rightarrow> ohv_vm_state \<Rightarrow> 'k \<Rightarrow> hv_return \<times> 'k" where
  "hv_vm_protect_space K space ipa sz flags =
     space_trap K TRAP_VM_PROTECT \<lparr>mi_uva = 0, mi_ipa = ipa, mi_size = sz, mi_flags = flags, mi_asid = space\<rparr>"
definition hv_vm_stage1_tlb_op :: "'k kernel \<Rightarrow> u64 \<Rightarrow> u64 \<Rightarrow> u64 \<Rightarrow> 'k \<Rightarrow> hv_return \<times> 'k" where
  "hv_vm_stage1_tlb_op K space op param k =
     k_stage1_tlb_op K k \<lparr>tlb_asid = space, tlb_op = op, tlb_param = param\<rparr>"

section \<open>Capabilities and the data-abort monitor\<close>

definition HV_CAP_VCPUMAX :: u32 where [masks]: "HV_CAP_VCPUMAX = 0"
definition HV_CAP_ADDRSPACEMAX :: u32 where [masks]: "HV_CAP_ADDRSPACEMAX = 1"

definition hv_capability :: "'k kernel \<Rightarrow> u32 \<Rightarrow> bool \<Rightarrow> 'k \<Rightarrow> hv_return \<times> u64 option \<times> 'k" where
  "hv_capability K cap p k =
     (if \<not> p then (HV_BAD_ARGUMENT, None, k)
      else case k_capabilities K k of
        (r, caps, k') \<Rightarrow>
          if r \<noteq> HV_SUCCESS then (r, None, k')
          else if cap = HV_CAP_VCPUMAX then (HV_SUCCESS, Some 64, k')
          else if cap = HV_CAP_ADDRSPACEMAX
          then (HV_SUCCESS, Some (if ipa_bits_4k caps \<noteq> 0 then ipa_bits_4k caps else 40), k')
          else (HV_BAD_ARGUMENT, None, k'))"

definition HV_MEMORY_WRITE :: u64 where [masks]: "HV_MEMORY_WRITE = bit_mask 1"

definition ohv_monitor_data_abort ::
  "'k kernel \<Rightarrow> bool \<Rightarrow> u64 \<Rightarrow> u64 \<Rightarrow> u64 \<Rightarrow> u64 \<Rightarrow> u32 \<Rightarrow> ohv_vm_state \<Rightarrow> 'k \<Rightarrow> hv_return \<times> 'k" where
  "ohv_monitor_data_abort K add asid c base sz port g k =
     (if require_vm g \<noteq> HV_SUCCESS then (require_vm g, k)
      else k_monitor_data_abort K k \<lparr>mda_cmd = (if add then 0 else 1), mda_asid = asid, mda_context = c,
             mda_base_ipa = base, mda_size = sz, mda_access_type = HV_MEMORY_WRITE, mda_port_name = port\<rparr>)"

section \<open>The register files of a buffer\<close>

lemma host_rd_wr_same:
  assumes "length bs < 2 ^ 64"
  shows "host_rd (host_wr h a bs) a (length bs) = bs"
proof (rule nth_equalityI)
  fix i assume "i < length (host_rd (host_wr h a bs) a (length bs))"
  then have i: "i < length bs" by (simp add: host_rd_def)
  then have "unat (of_nat i :: u64) = i" using assms by (simp add: unat_of_nat)
  with i show "host_rd (host_wr h a bs) a (length bs) ! i = bs ! i" by (simp add: host_rd_def host_wr_def)
qed (simp add: host_rd_def)

lemma host_rd_wr_apart:
  assumes "x + length bs \<le> y \<or> y + n \<le> x" "x + length bs < 2 ^ 64" "y + n < 2 ^ 64"
  shows "host_rd (host_wr h (p + of_nat x) bs) (p + of_nat y) n = host_rd h (p + of_nat y) n"
proof -
  have "host_wr h (p + of_nat x) bs (p + of_nat y + of_nat i) = h (p + of_nat y + of_nat i)" if i: "i < n" for i
  proof -
    define j where "j = unat (p + of_nat y + of_nat i - (p + of_nat x))"
    have "\<not> j < length bs"
    proof
      assume j: "j < length bs"
      have "p + of_nat y + of_nat i - (p + of_nat x) = of_nat j" by (simp add: j_def)
      then have "(of_nat (y + i) :: u64) = of_nat (x + j)" by (simp add: algebra_simps)
      then have "unat (of_nat (y + i) :: u64) = unat (of_nat (x + j) :: u64)" by simp
      then have "y + i = x + j" using assms(2,3) i j by (simp add: unat_of_nat del: of_nat_add)
      with assms(1) i j show False by linarith
    qed
    then show ?thesis by (simp add: host_wr_def j_def)
  qed
  then show ?thesis by (simp add: host_rd_def)
qed

text \<open>A span of the buffer, and reading one after a write to another.\<close>

lemma sme_set_get:
  assumes o: "owned_vcpu me g i = Some n" and nz: "sme_ptr (g_vcpus g n) \<noteq> 0"
    and w: "wspan (svl_b (g_vcpus g n)) = Some (x, l)" and l: "length bs = l"
    and set: "sme_set me i (Some bs) wspan h g = (e, h', g')" and rd: "rspan (svl_b (g_vcpus g n)) = Some (y, m)"
  shows "e = HV_SUCCESS \<and> sme_get me g' i True rspan h' =
      (HV_SUCCESS, Some (host_rd (host_wr h (sme_ptr (g_vcpus g n) + of_nat x) bs) (sme_ptr (g_vcpus g n) + of_nat y) m))
     \<and> sme_get me g i True rspan h = (HV_SUCCESS, Some (host_rd h (sme_ptr (g_vcpus g n) + of_nat y) m))"
proof -
  have s: "e = HV_SUCCESS" "h' = host_wr h (sme_ptr (g_vcpus g n) + of_nat x) bs"
    "g' = upd_slot n (ctx_dirty OHV_STATE_SME_CONTEXT) g"
    using set o nz w l by (auto simp: sme_set_def Let_def)
  have o': "owned_vcpu me g' i = Some n"
    using o by (auto simp: s(3) owned_vcpu_def find_vcpu_def split: option.splits if_splits)
  have p: "sme_ptr (g_vcpus g' n) = sme_ptr (g_vcpus g n)" by (simp add: s(3) sme_ptr_def layout)
  have v: "svl_b (g_vcpus g' n) = svl_b (g_vcpus g n)"
    by (simp add: s(3) svl_b_def ctx_dirty_def mark_dirty_def rd16_def wr64_def layout)
  show ?thesis
    using nz rd by (simp add: sme_get_def slot_get_owned [OF o] slot_get_owned [OF o'] p v s(1,2))
qed


text \<open>The places of the Z registers and of ZA, for a vector of \<open>L\<close> bytes.\<close>

lemma z_before_za:
  fixes x :: u32 and L :: nat
  assumes "unat x \<le> 31"
  shows "unat x * L + L \<le> 32 * L"
  using assms mult_le_mono1 [of "unat x + 1" 32 L] by simp

lemma za_below: "L \<le> (256 :: nat) \<Longrightarrow> L * L \<le> 65536 \<and> 32 * L + L * L < 2 ^ 64"
  using mult_le_mono [of L 256 L 256] by simp

lemma z_write_keeps_z:
  fixes r q :: u32
  assumes "L \<le> 256" "length bs = L" "unat r \<le> 31" "unat q \<le> 31" "q \<noteq> r"
  shows "host_rd (host_wr h (p + of_nat (unat r * L)) bs) (p + of_nat (unat q * L)) L = host_rd h (p + of_nat (unat q * L)) L"
proof -
  have ne: "unat q \<noteq> unat r" using assms(5) by (simp add: word_unat_eq_iff)
  have "unat r * L + L \<le> unat q * L \<or> unat q * L + L \<le> unat r * L"
    using ne mult_le_mono1 [of "unat r + 1" "unat q" L] mult_le_mono1 [of "unat q + 1" "unat r" L]
    by (cases "unat q < unat r") simp_all
  moreover have "unat x * L + L < 2 ^ 64" if "unat x \<le> 31" for x :: u32
  proof -
    have "unat x * L + L \<le> 32 * L" using that by (rule z_before_za)
    also have "\<dots> < 2 ^ 64" using assms(1) by simp
    finally show ?thesis .
  qed
  ultimately show ?thesis
    using host_rd_wr_apart [of "unat r * L" bs "unat q * L" L h p] assms(2-4) by blast
qed

lemma z_write_keeps_za:
  fixes r :: u32
  assumes "L \<le> 256" "length bs = L" "unat r \<le> 31"
  shows "host_rd (host_wr h (p + of_nat (unat r * L)) bs) (p + of_nat (32 * L)) (L * L) = host_rd h (p + of_nat (32 * L)) (L * L)"
  using host_rd_wr_apart [of "unat r * L" bs "32 * L" "L * L" h p] assms(2) z_before_za [OF assms(3), of L]
    za_below [OF assms(1)] by simp


definition sme_vm :: ohv_vm_state where
  "sme_vm = one_vcpu (new_VcpuSlot\<lparr>ctx := wr64 (wr64 zero_mem ro_struct_svl_b 64) ro_struct_sme 0x9000\<rparr>)"


end
