(* ===== verification/Ohv_Api.thy ===== *)
theory Ohv_Api
  imports Ohv_Run Ohv_Gic Ohv_Misc
begin

text \<open>
  The C++ layer of \<open>include/openhyp/openhyp.hpp\<close> with \<open>src/ohv_extras.cpp\<close> -- register batches,
  snapshot and restore, the callback run loop, the error strings --, and the library as a whole:
  a step relation whose steps are the entry points that change the process's state, and what
  holds of every state they can reach.

  An exception is the return code it carries: \<open>Inl\<close> of a result, or a code other than
  HV_SUCCESS with the state the calls before the throw have left.
\<close>

section \<open>Error strings\<close>

definition ohv_error_string :: "hv_return \<Rightarrow> string" where
  "ohv_error_string r =
     (if r = HV_SUCCESS then ''success'' else if r = HV_ERROR then ''error''
      else if r = HV_BUSY then ''busy'' else if r = HV_BAD_ARGUMENT then ''bad argument''
      else if r = HV_ILLEGAL_GUEST_STATE then ''illegal guest state''
      else if r = HV_NO_RESOURCES then ''no resources''
      else if r = HV_NO_DEVICE then ''no device (create a VM first)''
      else if r = HV_DENIED then ''denied by kernel policy'' else if r = HV_FAULT then ''fault''
      else if r = HV_UNSUPPORTED then ''unsupported'' else ''unknown error'')"

definition ohv_api_version :: u32 where "ohv_api_version = 1"

section \<open>Batches\<close>

definition set_regs ::
  "nat \<Rightarrow> u64 \<Rightarrow> (u32 \<times> u64) list \<Rightarrow> ohv_vm_state \<Rightarrow> hv_return \<times> ohv_vm_state" where
  "set_regs me i b g = batch_set (\<lambda>r v h. hv_vcpu_set_reg me h i r v) b g"

definition get_regs :: "nat \<Rightarrow> u64 \<Rightarrow> u32 list \<Rightarrow> ohv_vm_state \<Rightarrow> hv_return + u64 list" where
  "get_regs me i rs g = batch_get (\<lambda>r h. hv_vcpu_get_reg me h i r True) rs g"

text \<open>The system registers change the caches on the way, reads included.\<close>

definition set_sys_regs ::
  "world \<Rightarrow> nat \<Rightarrow> u64 \<Rightarrow> (u16 \<times> u64) list \<Rightarrow> ohv_statics \<times> ohv_vm_state \<Rightarrow> hv_return \<times> ohv_statics \<times> ohv_vm_state" where
  "set_sys_regs w me i b sg = batch_set (\<lambda>r v (st, g). hv_vcpu_set_sys_reg w me i r v st g) b sg"

fun read_sys_regs ::
  "world \<Rightarrow> nat \<Rightarrow> u64 \<Rightarrow> u16 list \<Rightarrow> ohv_statics \<Rightarrow> ohv_vm_state
     \<Rightarrow> (hv_return + (u16 \<times> u64) list) \<times> ohv_statics \<times> ohv_vm_state" where
  "read_sys_regs w me i [] st g = (Inr [], st, g)"
| "read_sys_regs w me i (r # rs) st g =
     (case hv_vcpu_get_sys_reg w me i r True st g of
        (e, v, st1, g1) \<Rightarrow>
          if e \<noteq> HV_SUCCESS then (Inl e, st1, g1)
          else (case read_sys_regs w me i rs st1 g1 of
                  (Inl e', st2, g2) \<Rightarrow> (Inl e', st2, g2)
                | (Inr vs, st2, g2) \<Rightarrow> (Inr ((r, case v of Some x \<Rightarrow> x | None \<Rightarrow> 0) # vs), st2, g2)))"

section \<open>Snapshot and restore\<close>

record Snapshot =
  snap_gpr :: "u64 list"
  snap_sysregs :: "(u16 \<times> u64) list"
  snap_cpsr :: u64
  snap_fpcr :: u64
  snap_fpsr :: u64

definition gprs :: "u32 list" where "gprs = map of_nat [0..<32]"

definition snapshot ::
  "world \<Rightarrow> nat \<Rightarrow> u64 \<Rightarrow> u16 list \<Rightarrow> ohv_statics \<Rightarrow> ohv_vm_state
     \<Rightarrow> (hv_return + Snapshot) \<times> ohv_statics \<times> ohv_vm_state" where
  "snapshot w me i interesting st g =
     (case get_regs me i (gprs @ [HV_REG_CPSR, HV_REG_FPCR, HV_REG_FPSR]) g of
        Inl e \<Rightarrow> (Inl e, st, g)
      | Inr vs \<Rightarrow>
          (case read_sys_regs w me i interesting st g of
             (Inl e, st', g') \<Rightarrow> (Inl e, st', g')
           | (Inr ss, st', g') \<Rightarrow>
               (Inr \<lparr>snap_gpr = take 32 vs, snap_sysregs = ss, snap_cpsr = vs ! 32, snap_fpcr = vs ! 33,
                     snap_fpsr = vs ! 34\<rparr>, st', g')))"

definition restore ::
  "world \<Rightarrow> nat \<Rightarrow> u64 \<Rightarrow> Snapshot \<Rightarrow> ohv_statics \<Rightarrow> ohv_vm_state \<Rightarrow> hv_return \<times> ohv_statics \<times> ohv_vm_state" where
  "restore w me i s st g =
     (case set_regs me i (zip gprs (snap_gpr s)
             @ [(HV_REG_CPSR, snap_cpsr s), (HV_REG_FPCR, snap_fpcr s), (HV_REG_FPSR, snap_fpsr s)]) g of
        (e, g') \<Rightarrow> if e \<noteq> HV_SUCCESS then (e, st, g') else set_sys_regs w me i (snap_sysregs s) (st, g'))"

section \<open>The callback run loop\<close>

text \<open>\<open>run\<close> is one run of the vCPU, \<open>handler\<close> the caller's with its own state; the fourth argument
  is how many iterations \<open>max_iters\<close> still leaves.  The counter is a 64-bit word and is
  incremented by the test that ends the loop too.\<close>

fun run_loop ::
  "('s \<Rightarrow> hv_return \<times> hv_vcpu_exit \<times> 's) \<Rightarrow> (hv_vcpu_exit \<Rightarrow> 'h \<Rightarrow> bool \<times> 'h) \<Rightarrow> u64 \<Rightarrow> nat \<Rightarrow> 's \<Rightarrow> 'h
     \<Rightarrow> (hv_return + u64) \<times> 's \<times> 'h" where
  "run_loop run handler n 0 s h = (Inr (n + 1), s, h)"
| "run_loop run handler n (Suc k) s h =
     (case run s of
        (r, e, s') \<Rightarrow>
          if r \<noteq> HV_SUCCESS then (Inl r, s', h)
          else (case handler e h of
                  (stop, h') \<Rightarrow> if stop then (Inr (n + 1), s', h') else run_loop run handler (n + 1) k s' h'))"

definition Vcpu_run_loop ::
  "('s \<Rightarrow> hv_return \<times> hv_vcpu_exit \<times> 's) \<Rightarrow> (hv_vcpu_exit \<Rightarrow> 'h \<Rightarrow> bool \<times> 'h) \<Rightarrow> u64 \<Rightarrow> 's \<Rightarrow> 'h
     \<Rightarrow> (hv_return + u64) \<times> 's \<times> 'h" where
  "Vcpu_run_loop run handler max_iters s h = run_loop run handler 0 (unat max_iters) s h"

section \<open>A batch through the API is a batch on the slot\<close>

lemma owned_upd:
  assumes "used t = used (g_vcpus g n)"
  shows "owned_vcpu me (upd_slot n (\<lambda>_. t) g) i = owned_vcpu me g i"
proof -
  have "used (g_vcpus (upd_slot n (\<lambda>_. t) g) m) = used (g_vcpus g m)" for m using assms by simp
  then have "find_vcpu (upd_slot n (\<lambda>_. t) g) i = find_vcpu g i" unfolding find_vcpu_def by presburger
  then show ?thesis by (simp add: owned_vcpu_def split: option.split)
qed

lemma set_regs_slot:
  assumes "owned_vcpu me g i = Some n"
  shows "set_regs me i b g =
     (case batch_set (reg_set (g_vm_el2 g)) b (g_vcpus g n) of (e, t) \<Rightarrow> (e, upd_slot n (\<lambda>_. t) g))"
  using assms
proof (induction b arbitrary: g)
  case Nil
  then show ?case by (simp add: set_regs_def upd_slot_def)
next
  case (Cons p b)
  obtain r v where p: "p = (r, v)" by force
  obtain e t where t: "reg_set (g_vm_el2 g) r v (g_vcpus g n) = (e, t)" by force
  let ?g = "upd_slot n (\<lambda>_. t) g"
  have s: "hv_vcpu_set_reg me g i r v = (e, ?g)"
    using Cons.prems t by (simp add: hv_vcpu_set_reg_def slot_set_def)
  have o: "owned_vcpu me ?g i = Some n" using Cons.prems owned_upd [OF reg_set_used [OF t]] by simp
  have u: "upd_slot n f (upd_slot n (\<lambda>_. t) g) = upd_slot n (\<lambda>_. f t) g" for f by (simp add: upd_slot_def)
  show ?case
    using Cons.IH [OF o] s t by (simp add: set_regs_def p u split: prod.split)
qed

lemma get_regs_slot:
  "owned_vcpu me g i = Some n \<Longrightarrow> get_regs me i rs g = batch_get reg_get rs (g_vcpus g n)"
  unfolding get_regs_def by (induction rs) (simp_all add: hv_vcpu_get_reg_def slot_get_owned split: prod.split option.split)

lemma api_get_reg: "owned_vcpu me g i = Some n \<Longrightarrow> hv_vcpu_get_reg me g i r True = reg_get r (g_vcpus g n)"
  by (simp add: hv_vcpu_get_reg_def slot_get_owned)

lemma snapshot_regs:
  "distinct (gprs @ [HV_REG_CPSR, HV_REG_FPCR, HV_REG_FPSR])"
  "set (gprs @ [HV_REG_CPSR, HV_REG_FPCR, HV_REG_FPSR]) = {r. r \<le> HV_REG_CPSR}"
  "length gprs = 32"
proof -
  have u: "unat (of_nat j :: u32) = j" if "j < 32" for j using that by (simp add: unat_of_nat)
  have ne: "(of_nat j :: u32) \<noteq> x" if "j < 32" "32 \<le> unat x" for j x using u [OF that(1)] that by auto
  have "inj_on (of_nat :: nat \<Rightarrow> u32) {0..<32}" by (rule inj_onI) (metis atLeastLessThan_iff u)
  then have "distinct gprs" by (simp add: gprs_def distinct_map)
  moreover have "HV_REG_CPSR \<notin> set gprs" "HV_REG_FPCR \<notin> set gprs" "HV_REG_FPSR \<notin> set gprs"
    using ne by (fastforce simp: gprs_def HV_REG_CPSR_def HV_REG_FPCR_def HV_REG_FPSR_def)+
  ultimately show "distinct (gprs @ [HV_REG_CPSR, HV_REG_FPCR, HV_REG_FPSR])"
    by (simp add: HV_REG_CPSR_def HV_REG_FPCR_def HV_REG_FPSR_def)
  have "r \<in> set (gprs @ [HV_REG_CPSR, HV_REG_FPCR, HV_REG_FPSR]) \<longleftrightarrow> r \<le> HV_REG_CPSR" for r
  proof -
    have "r \<in> set gprs \<longleftrightarrow> unat r < 32"
    proof
      assume "unat r < 32"
      then have "r = of_nat (unat r)" "unat r \<in> set [0..<32]" by simp_all
      then show "r \<in> set gprs" unfolding gprs_def set_map by (rule image_eqI)
    qed (auto simp: gprs_def u)
    moreover have "r \<le> HV_REG_CPSR \<longleftrightarrow> unat r < 32 \<or> unat r = 32 \<or> unat r = 33 \<or> unat r = 34"
      by (auto simp: HV_REG_CPSR_def word_le_nat_alt)
    ultimately show ?thesis
      by (simp add: HV_REG_CPSR_def HV_REG_FPCR_def HV_REG_FPSR_def word_unat_eq_iff disj_ac)
  qed
  then show "set (gprs @ [HV_REG_CPSR, HV_REG_FPCR, HV_REG_FPSR]) = {r. r \<le> HV_REG_CPSR}" by blast
qed (simp add: gprs_def)

section \<open>Restoring a snapshot\<close>

lemma ucast_down_up: "ucast (ucast (v :: u32) :: u64) = v"
  by (rule bit_word_eqI) (simp add: bit_unsigned_iff)

lemma reg_keeps_read:
  assumes "reg_get r s = (HV_SUCCESS, Some v)"
    and "el2 \<longrightarrow> slot_cpsr s AND 0xf \<noteq> 8 \<and> slot_cpsr s AND 0xf \<noteq> 9"
  shows "reg_keeps el2 r v = v"
  using assms by (auto simp: reg_get_def reg_keeps_def pstate_of_def ucast_down_up split: if_splits)

lemma reg_set_vectors:
  assumes "reg_set el2 r v s = (e, t)" "q \<le> 31"
  shows "rd_bytes (ctx t) (off_q q) 16 = rd_bytes (ctx s) (off_q q) 16"
proof -
  have q: "0x140 \<le> off_q q" "off_q q + 16 \<le> 0x340"
    using assms(2) by (simp_all add: off_q_def layout word_le_nat_alt)
  have k: "rd_bytes (wr32 m a u) (off_q q) 16 = rd_bytes m (off_q q) 16" if "a + 4 \<le> 0x140 \<or> 0x340 \<le> a" for m a u
    using that q by (auto simp: rd_bytes_def wr32_def)
  have l: "rd_bytes (wr64 m a u) (off_q q) 16 = rd_bytes m (off_q q) 16" if "a + 8 \<le> 0x110" for m a u
    using that q by (auto simp: rd_bytes_def wr64_def)
  have w: "reg_word (unat r) = Some a \<Longrightarrow> a + 8 \<le> 0x110" for a using reg_word_bound by blast
  show ?thesis
    using assms(1) by (auto simp: reg_set_def set_slot_cpsr_def ctx_wr_def k l layout dest!: w
        split: if_splits option.splits)
qed

lemma batch_set_vectors:
  "batch_set (reg_set el2) b s = (e, t) \<Longrightarrow> q \<le> 31
     \<Longrightarrow> rd_bytes (ctx t) (off_q q) 16 = rd_bytes (ctx s) (off_q q) 16"
proof (induction b arbitrary: s)
  case (Cons p b)
  obtain r v where p: "p = (r, v)" by force
  obtain f s1 where s1: "reg_set el2 r v s = (f, s1)" by force
  show ?case
    using Cons.prems Cons.IH [of s1] reg_set_vectors [OF s1 Cons.prems(2)]
    by (cases "f = HV_SUCCESS") (simp_all add: p s1)
qed simp

lemma batch_set_used: "batch_set (reg_set el2) b s = (e, t) \<Longrightarrow> used t = used s"
proof (induction b arbitrary: s)
  case (Cons p b)
  obtain r v where p: "p = (r, v)" by force
  obtain f s1 where s1: "reg_set el2 r v s = (f, s1)" by force
  show ?case
    using Cons.prems Cons.IH [of s1] reg_set_used [OF s1] by (cases "f = HV_SUCCESS") (simp_all add: p s1)
qed simp

lemma snapshot_values:
  assumes "length vs = 35"
  shows "zip gprs (take 32 vs) @ [(HV_REG_CPSR, vs ! 32), (HV_REG_FPCR, vs ! 33), (HV_REG_FPSR, vs ! 34)]
    = zip (gprs @ [HV_REG_CPSR, HV_REG_FPCR, HV_REG_FPSR]) vs"
proof -
  have "drop 32 vs = [vs ! 32, vs ! 33, vs ! 34]"
    using assms by (auto simp: list_eq_iff_nth_eq nth_Cons split: nat.splits)
  then have "vs = take 32 vs @ [vs ! 32, vs ! 33, vs ! 34]" by (metis append_take_drop_id)
  moreover have "length (take 32 vs) = length gprs" using assms snapshot_regs(3) by simp
  ultimately show ?thesis by (metis zip_append zip_Cons_Cons zip_Nil)
qed


definition snap_vm :: ohv_vm_state where
  "snap_vm = one_vcpu (ctx_wr OHV_RW_PC 0x4000 (set_slot_cpsr 0x3c5 new_VcpuSlot))"


section \<open>The run loop counts one too many\<close>

text \<open>Counting how often the handler is called.\<close>

definition counted :: "('e \<Rightarrow> 'h \<Rightarrow> bool \<times> 'h) \<Rightarrow> 'e \<Rightarrow> 'h \<times> nat \<Rightarrow> bool \<times> 'h \<times> nat" where
  "counted f e hc = (case f e (fst hc) of (stop, h) \<Rightarrow> (stop, h, snd hc + 1))"

lemma run_loop_calls:
  "run_loop run (counted f) n k s (h, c) = (Inr m, s', h', c') \<Longrightarrow> c \<le> c' \<and> c' \<le> c + k
     \<and> (m = n + of_nat (c' - c) \<or> (c' = c + k \<and> m = n + of_nat k + 1))"
proof (induction k arbitrary: n s h c)
  case (Suc k)
  obtain r e s1 where r: "run s = (r, e, s1)" by (rule prod_cases3)
  obtain stop h1 where f: "f e h = (stop, h1)" by force
  show ?case
  proof (cases "r = HV_SUCCESS \<and> \<not> stop")
    case True
    moreover have "counted f e (h, c) = (stop, h1, Suc c)" by (simp add: counted_def f)
    ultimately have "run_loop run (counted f) (n + 1) k s1 (h1, Suc c) = (Inr m, s', h', c')"
      using Suc.prems r by simp
    from Suc.IH [OF this] show ?thesis by (auto simp: Suc_diff_le algebra_simps of_nat_diff)
  next
    case False
    moreover have "counted f e (h, c) = (stop, h1, Suc c)" by (simp add: counted_def f)
    ultimately show ?thesis using Suc.prems r by (auto split: if_splits)
  qed
qed simp

text \<open>C33: \<open>run_loop\<close> calls the handler at most \<open>max_iters\<close> times, and returns how often it called it when
  the handler ends the loop; when the bound ends it, the answer is one more than the exits it
  processed.\<close>

theorem run_loop_count:
  assumes "Vcpu_run_loop run (counted f) max_iters s (h, 0) = (Inr m, s', h', c)"
  shows "c \<le> unat max_iters \<and> (m = of_nat c \<or> (c = unat max_iters \<and> m = max_iters + 1))
      \<and> ((\<forall>e h. \<not> fst (f e h)) \<longrightarrow> c = unat max_iters \<and> m = max_iters + 1)"
proof (intro conjI impI)
  show "c \<le> unat max_iters" "m = of_nat c \<or> (c = unat max_iters \<and> m = max_iters + 1)"
    using run_loop_calls [OF assms [unfolded Vcpu_run_loop_def]] by auto
next
  assume g: "\<forall>e h. \<not> fst (f e h)"
  have "run_loop run (counted f) n k s (h, c0) = (Inr m, s', h', c) \<Longrightarrow> c = c0 + k \<and> m = n + of_nat k + 1" for n k s h c0
  proof (induction k arbitrary: n s h c0)
    case (Suc k)
    obtain r e s1 where r: "run s = (r, e, s1)" by (rule prod_cases3)
    obtain h1 where f: "f e h = (False, h1)" using g [THEN spec, THEN spec, of e h] by (cases "f e h") auto
    then have "counted f e (h, c0) = (False, h1, Suc c0)" by (simp add: counted_def)
    with Suc.prems r have "run_loop run (counted f) (n + 1) k s1 (h1, Suc c0) = (Inr m, s', h', c)"
      by (simp split: if_split_asm)
    from Suc.IH [OF this] show ?case by (simp add: algebra_simps)
  qed simp
  from this [OF assms [unfolded Vcpu_run_loop_def]] show "c = unat max_iters" "m = max_iters + 1" by simp_all
qed

theorem run_loop_count_witness:
  "fst (Vcpu_run_loop (\<lambda>s. (HV_SUCCESS, zero_exit, Suc s)) (counted (\<lambda>_ h. (False, h))) 3 (0 :: nat) ((), 0)) = Inr 4"
proof -
  have x: "Vcpu_run_loop (\<lambda>s. (HV_SUCCESS, zero_exit, Suc s)) (counted (\<lambda>_ h. (False, h))) 3 (0 :: nat) ((), 0) = (Inr 4, 3, (), 3)"
  proof -
    have u: "unat (3 :: u64) = Suc (Suc (Suc 0))" by simp
    have c: "counted (\<lambda>_ h. (False, h)) e ((), n) = (False, (), Suc n)" for e :: hv_vcpu_exit and n
      by (simp add: counted_def)
    show ?thesis unfolding Vcpu_run_loop_def u by (simp add: c)
  qed
  from run_loop_count [OF x] x show ?thesis by simp
qed

section \<open>The library as a step relation\<close>

text \<open>A process: the library's state with the file-local statics and the settings, and the kernel
  behind the traps.\<close>

record 'k process =
  p_vm :: ohv_vm_state
  p_statics :: ohv_statics
  p_cfg :: cfg_state
  p_kernel :: 'k

definition process_start :: "environment \<Rightarrow> 'k \<Rightarrow> 'k process" where
  "process_start getenv k = \<lparr>p_vm = initial_state, p_statics = initial_statics,
     p_cfg = ohv_cfg_init getenv, p_kernel = k\<rparr>"

text \<open>The steps: any entry point that changes the state, called by any thread with any arguments,
  whatever it answers.  A run is one step, over any turns at the end of which it has returned; what
  other threads do to the vCPU meanwhile is in the turns.\<close>

inductive api_step :: "'k kernel \<Rightarrow> environment \<Rightarrow> 'k process \<Rightarrow> 'k process \<Rightarrow> bool"
  for K :: "'k kernel" and getenv :: environment where
  Vm_create: "hv_vm_create K config (p_vm p) (p_kernel p) = (r, g, k)
    \<Longrightarrow> api_step K getenv p (p\<lparr>p_vm := g, p_kernel := k\<rparr>)"
| Vm_destroy: "hv_vm_destroy K (p_vm p) (p_kernel p) = (r, g, k)
    \<Longrightarrow> api_step K getenv p (p\<lparr>p_vm := g, p_kernel := k\<rparr>)"
| Vm_map: "hv_vm_map K addr ipa sz flags (p_vm p) (p_kernel p) = (r, g, k)
    \<Longrightarrow> api_step K getenv p (p\<lparr>p_vm := g, p_kernel := k\<rparr>)"
| Vm_unmap: "hv_vm_unmap K ipa sz (p_vm p) (p_kernel p) = (r, g, k)
    \<Longrightarrow> api_step K getenv p (p\<lparr>p_vm := g, p_kernel := k\<rparr>)"
| Vcpu_create: "hv_vcpu_create K (g_ohv_cfg (p_cfg p)) me vo eo (p_vm p) (p_kernel p) = (r, out, g, k)
    \<Longrightarrow> api_step K getenv p (p\<lparr>p_vm := g, p_kernel := k\<rparr>)"
| Vcpu_destroy: "hv_vcpu_destroy K me i (p_vm p) (p_kernel p) = (r, g, k)
    \<Longrightarrow> api_step K getenv p (p\<lparr>p_vm := g, p_kernel := k\<rparr>)"
| Vcpu_run: "hv_vcpu_run me getenv ts i (p_cfg p) (p_statics p) (p_vm p) = (Some r, cs, st, g)
    \<Longrightarrow> \<forall>t \<in> set ts. turn_ok t
    \<Longrightarrow> api_step K getenv p (p\<lparr>p_vm := g, p_statics := st, p_cfg := cs, p_kernel := k\<rparr>)"
| Vcpus_exit: "hv_vcpus_exit K ids n (p_vm p) (p_kernel p) = (r, g, k)
    \<Longrightarrow> api_step K getenv p (p\<lparr>p_vm := g, p_kernel := k\<rparr>)"
| Set_reg: "hv_vcpu_set_reg me (p_vm p) i reg v = (r, g) \<Longrightarrow> api_step K getenv p (p\<lparr>p_vm := g\<rparr>)"
| Set_simd: "hv_vcpu_set_simd_fp_reg me (p_vm p) i reg bs = (r, g) \<Longrightarrow> api_step K getenv p (p\<lparr>p_vm := g\<rparr>)"
| Get_sys_reg: "hv_vcpu_get_sys_reg w me i enc o' (p_statics p) (p_vm p) = (r, out, st, g)
    \<Longrightarrow> api_step K getenv p (p\<lparr>p_vm := g, p_statics := st\<rparr>)"
| Set_sys_reg: "hv_vcpu_set_sys_reg w me i enc v (p_statics p) (p_vm p) = (r, st, g)
    \<Longrightarrow> api_step K getenv p (p\<lparr>p_vm := g, p_statics := st\<rparr>)"
| Set_debug_exceptions: "hv_vcpu_set_trap_debug_exceptions me (p_vm p) i b = (r, g)
    \<Longrightarrow> api_step K getenv p (p\<lparr>p_vm := g\<rparr>)"
| Set_debug_accesses: "hv_vcpu_set_trap_debug_reg_accesses me (p_vm p) i b = (r, g)
    \<Longrightarrow> api_step K getenv p (p\<lparr>p_vm := g\<rparr>)"
| Set_vtimer_mask: "hv_vcpu_set_vtimer_mask me (p_vm p) i b = (r, g) \<Longrightarrow> api_step K getenv p (p\<lparr>p_vm := g\<rparr>)"
| Set_vtimer_offset: "hv_vcpu_set_vtimer_offset me (p_vm p) i v = (r, g) \<Longrightarrow> api_step K getenv p (p\<lparr>p_vm := g\<rparr>)"
| Set_field: "hv_vcpu_set_control_field (g_ohv_cfg (p_cfg p)) me (p_vm p) i fld v = (r, g)
    \<Longrightarrow> api_step K getenv p (p\<lparr>p_vm := g\<rparr>)"
| Set_pending: "hv_vcpu_set_pending_interrupt (g_ohv_cfg (p_cfg p)) me (p_vm p) i ty b = (r, g)
    \<Longrightarrow> api_step K getenv p (p\<lparr>p_vm := g\<rparr>)"
| Set_parked: "api_step K getenv p (p\<lparr>p_vm := ohv_vcpu_set_parked (g_ohv_cfg (p_cfg p)) me i b (p_vm p)\<rparr>)"
| Set_sme_z: "hv_vcpu_set_sme_z_reg me i reg buf len h (p_vm p) = (r, h', g) \<Longrightarrow> api_step K getenv p (p\<lparr>p_vm := g\<rparr>)"
| Set_sme_za: "hv_vcpu_set_sme_za_reg me i buf len h (p_vm p) = (r, h', g) \<Longrightarrow> api_step K getenv p (p\<lparr>p_vm := g\<rparr>)"
| Set_sme_zt0: "hv_vcpu_set_sme_zt0_reg me i buf h (p_vm p) = (r, h', g) \<Longrightarrow> api_step K getenv p (p\<lparr>p_vm := g\<rparr>)"
| Capabilities: "ohv_caps_cached K (p_vm p) (p_kernel p) = (c, g, k)
    \<Longrightarrow> api_step K getenv p (p\<lparr>p_vm := g, p_kernel := k\<rparr>)"
| Gic_create: "hv_gic_create gc (p_vm p) = (r, g) \<Longrightarrow> api_step K getenv p (p\<lparr>p_vm := g\<rparr>)"
| Gic_set_dist: "hv_gic_set_distributor_reg off v (p_vm p) = (r, g) \<Longrightarrow> api_step K getenv p (p\<lparr>p_vm := g\<rparr>)"
| Gic_set_redist: "hv_gic_set_redistributor_reg i off v (p_vm p) = (r, g) \<Longrightarrow> api_step K getenv p (p\<lparr>p_vm := g\<rparr>)"
| Gic_set_icc: "hv_gic_set_icc_reg i enc' v (p_vm p) = (r, g) \<Longrightarrow> api_step K getenv p (p\<lparr>p_vm := g\<rparr>)"
| Gic_set_icv: "hv_gic_set_icv_reg i enc' v (p_vm p) = (r, g) \<Longrightarrow> api_step K getenv p (p\<lparr>p_vm := g\<rparr>)"
| Gic_set_ich: "hv_gic_set_ich_reg i enc' v (p_vm p) = (r, g) \<Longrightarrow> api_step K getenv p (p\<lparr>p_vm := g\<rparr>)"
| Gic_set_msi: "hv_gic_set_msi_reg off v (p_vm p) = (r, g) \<Longrightarrow> api_step K getenv p (p\<lparr>p_vm := g\<rparr>)"
| Gic_set_spi: "hv_gic_set_spi intid level (p_vm p) = (r, g) \<Longrightarrow> api_step K getenv p (p\<lparr>p_vm := g\<rparr>)"
| Gic_reset: "hv_gic_reset (p_vm p) = (r, g) \<Longrightarrow> api_step K getenv p (p\<lparr>p_vm := g\<rparr>)"
| Gic_set_state: "hv_gic_set_state dat len (p_vm p) = (r, g) \<Longrightarrow> api_step K getenv p (p\<lparr>p_vm := g\<rparr>)"

inductive api_reach :: "'k kernel \<Rightarrow> environment \<Rightarrow> 'k \<Rightarrow> 'k process \<Rightarrow> bool"
  for K :: "'k kernel" and getenv :: environment and k0 :: 'k where
  start: "api_reach K getenv k0 (process_start getenv k0)"
| step: "api_reach K getenv k0 p \<Longrightarrow> api_step K getenv p q \<Longrightarrow> api_reach K getenv k0 q"

inductive_cases api_step_elim: "api_step K getenv p q"

section \<open>What always holds\<close>

definition idle :: "VcpuSlot \<Rightarrow> bool" where
  "idle s \<longleftrightarrow> s\<lparr>exit_requested := False\<rparr> = new_VcpuSlot"

definition slot_ok :: "ohv_vm_state \<Rightarrow> nat \<Rightarrow> bool" where
  "slot_ok g n \<longleftrightarrow> (if used (g_vcpus g n)
      then g_vm_alive g \<and> slot_id (g_vcpus g n) = of_nat n \<and> slot_wf (g_vcpus g n)
        \<and> tl_current_vcpu g (owner (g_vcpus g n)) = Some n
      else idle (g_vcpus g n))"

definition vm_ok :: "ohv_vm_state \<Rightarrow> bool" where
  "vm_ok g \<longleftrightarrow> (\<forall>n<64. slot_ok g n) \<and> (g_gic g \<noteq> None \<longrightarrow> g_vm_alive g) \<and> maps_wf (g_maps g)
     \<and> length (g_nested_asid g) \<le> kNestedSpaces \<and> (\<forall>me c. tl_current_vcpu g me = Some c \<longrightarrow> c < 64)"

lemma idle_new [simp]: "idle new_VcpuSlot"
  by (simp add: idle_def new_VcpuSlot_def)

lemma vm_ok_start: "vm_ok initial_state"
  by (simp add: vm_ok_def slot_ok_def initial_state_def maps_wf_def) (simp add: new_VcpuSlot_def)

text \<open>An update of a used vCPU that keeps it used, numbered and within bounds.\<close>

definition slot_kept :: "VcpuSlot \<Rightarrow> VcpuSlot \<Rightarrow> bool" where
  "slot_kept s t \<longleftrightarrow> used t = used s \<and> slot_id t = slot_id s \<and> owner t = owner s \<and> (slot_wf s \<longrightarrow> slot_wf t)"

lemma slot_kept_refl [simp]: "slot_kept s s" by (simp add: slot_kept_def)

lemma slot_kept_trans: "slot_kept s t \<Longrightarrow> slot_kept t u \<Longrightarrow> slot_kept s u" by (simp add: slot_kept_def)

lemma owner_moves:
  "owner (ctx_wr off v s) = owner s" "owner (ctx_dirty b s) = owner s" "owner (set_slot_cpsr c s) = owner s"
  "owner (ctx_upd off f s) = owner s"
  by (simp_all add: ctx_wr_def ctx_dirty_def set_slot_cpsr_def ctx_upd_def)

lemma slot_kept_moves [simp]:
  "slot_kept s (ctx_wr off v t) = slot_kept s t" "slot_kept s (ctx_dirty b t) = slot_kept s t"
  "slot_kept s (set_slot_cpsr c t) = slot_kept s t" "slot_kept s (t\<lparr>ctx := m\<rparr>) = slot_kept s t"
  "slot_kept s (ctx_upd off f t) = slot_kept s t"
  by (simp_all add: slot_kept_def owner_moves)

lemma vm_ok_kept:
  assumes "vm_ok g" "used (g_vcpus g n)" "slot_kept (g_vcpus g n) t"
  shows "vm_ok (upd_slot n (\<lambda>_. t) g)"
proof -
  have "slot_ok (upd_slot n (\<lambda>_. t) g) m" if "m < 64" for m
  proof -
    have "slot_ok g m" using assms(1) that by (simp add: vm_ok_def)
    with assms(2,3) show ?thesis by (cases "m = n") (auto simp: slot_ok_def slot_kept_def)
  qed
  moreover have "g_maps (upd_slot n (\<lambda>_. t) g) = g_maps g" "g_nested_asid (upd_slot n (\<lambda>_. t) g) = g_nested_asid g"
    by (simp_all add: upd_slot_def)
  ultimately show ?thesis using assms(1) by (simp add: vm_ok_def)
qed

lemma vm_ok_same_slots:
  assumes "vm_ok g" "g_vcpus h = g_vcpus g" "g_vm_alive h = g_vm_alive g" "tl_current_vcpu h = tl_current_vcpu g"
    and "g_gic h \<noteq> None \<longrightarrow> g_vm_alive g" "maps_wf (g_maps h)" "length (g_nested_asid h) \<le> kNestedSpaces"
  shows "vm_ok h"
  using assms by (simp add: vm_ok_def slot_ok_def)

lemma vm_ok_for_vcpus:
  assumes "vm_ok g" "\<And>s. slot_kept s (f s)"
  shows "vm_ok (for_vcpus f g)"
proof -
  have "slot_ok (for_vcpus f g) m" if "m < 64" for m
  proof -
    have "slot_ok g m" using assms(1) that by (simp add: vm_ok_def)
    with assms(2) [of "g_vcpus g m"] show ?thesis by (auto simp: slot_ok_def slot_kept_def for_vcpus_def)
  qed
  with assms(1) show ?thesis by (simp add: vm_ok_def for_vcpus_def)
qed


subsection \<open>Each entry point keeps it\<close>

lemma vm_ok_vm_create:
  assumes "hv_vm_create K config g k = (r, g', k')" "vm_ok g"
  shows "vm_ok g'"
proof (rule hv_vm_create_cases [OF assms(1)])
  assume "g' = g" then show ?thesis using assms(2) by simp
next
  fix i assume "g' = g\<lparr>g_machine_ipa := i\<rparr>"
  then show ?thesis using assms(2) by (simp add: vm_ok_def slot_ok_def)
next
  fix i lvl h k2
  assume d: "\<not> g_vm_alive g" and h: "h = g\<lparr>g_machine_ipa := i, g_vm_alive := True, g_vm_isa := lvl,
      g_vm_el2 := config_el2 config, g_vm_vhe := config_vhe config\<rparr>"
    and n: "(g', k') = (if config_el2 config then nested_spaces_create K kNestedSpaces h k2 else (h, k2))"
  have ok: "vm_ok h"
  proof -
    have "slot_ok h m" if "m < 64" for m
    proof -
      have "slot_ok g m" using assms(2) that by (simp add: vm_ok_def)
      with d show ?thesis by (auto simp: slot_ok_def h split: if_splits)
    qed
    then show ?thesis using assms(2) by (simp add: vm_ok_def h)
  qed
  show ?thesis
  proof (cases "config_el2 config")
    case True
    with n have c: "nested_spaces_create K kNestedSpaces h k2 = (g', k')" by simp
    note f = nested_spaces_create_frame [OF c]
    have l: "length (g_nested_asid g') \<le> kNestedSpaces"
      using nested_spaces_create_grows [OF c] ok by (simp add: vm_ok_def)
    show ?thesis using ok f l by (intro vm_ok_same_slots [OF ok]) (simp_all add: vm_ok_def)
  qed (use n ok in simp)
qed

lemma vm_ok_vm_destroy:
  assumes "hv_vm_destroy K g k = (r, g', k')" "vm_ok g"
  shows "vm_ok g'"
proof (cases "g' = g")
  case False
  then have "g' = g\<lparr>g_vm_alive := False, g_gic := None,
      g_vcpus := (\<lambda>i. if i < kMaxVcpuIds then new_VcpuSlot else g_vcpus g i)\<rparr>"
    using assms(1) by (simp add: hv_vm_destroy_def split: if_splits prod.splits)
  moreover have "\<not> used new_VcpuSlot" by (simp add: new_VcpuSlot_def)
  ultimately show ?thesis using assms(2) by (simp add: vm_ok_def slot_ok_def kMaxVcpuIds_def)
qed (use assms in simp)

lemma vm_ok_map:
  assumes "hv_vm_map K addr ipa sz flags g k = (r, g', k')" "vm_ok g"
  shows "vm_ok g'"
proof -
  have "\<exists>ms. g' = g\<lparr>g_maps := ms\<rparr> \<and> maps_wf ms"
  proof -
    have "maps_wf (g_maps g)" using assms(2) by (simp add: vm_ok_def)
    moreover have "g = g\<lparr>g_maps := g_maps g\<rparr>" by simp
    ultimately show ?thesis using assms(1) maps_wf_remember [of "g_maps g"]
      by (auto simp: hv_vm_map_def split: if_splits prod.splits intro: exI [of _ "g_maps g"])
  qed
  then show ?thesis using assms(2) by (auto simp: vm_ok_def slot_ok_def)
qed

lemma vm_ok_unmap:
  assumes "hv_vm_unmap K ipa sz g k = (r, g', k')" "vm_ok g"
  shows "vm_ok g'"
proof -
  have "g' = g\<lparr>g_maps := map_forget ipa (g_maps g)\<rparr>"
    using assms(1) by (auto simp: hv_vm_unmap_def Let_def split: prod.splits)
  moreover have "maps_wf (map_forget ipa (g_maps g))"
    using assms(2) by (intro map_forget_set(2)) (simp add: vm_ok_def)
  ultimately show ?thesis using assms(2) by (auto simp: vm_ok_def slot_ok_def)
qed

lemma vm_ok_vcpu_create:
  assumes "hv_vcpu_create K cfg me vo eo g k = (r, out, g', k')" "vm_ok g"
  shows "vm_ok g'"
proof (cases "r = HV_SUCCESS")
  case False
  then have "g' = g"
    using assms(1) by (auto simp: hv_vcpu_create_def Let_def split: if_splits option.splits prod.splits)
  with assms(2) show ?thesis by simp
next
  case True
  obtain n where n: "free_slot g = Some n"
    using assms(1) True by (cases "free_slot g") (simp_all add: hv_vcpu_create_def split: if_splits)
  from create_success [OF assms(1) [unfolded True] n] obtain m mapped where
    g': "g' = (upd_slot n (vcpu_init cfg g me n m mapped) g)
      \<lparr>tl_current_vcpu := (tl_current_vcpu g)(me := Some n)\<rparr>" and al: "g_vm_alive g" by blast
  from free_slot_Some [OF n] have f: "n < 64" "\<not> used (g_vcpus g n)" by simp_all
  have free: "tl_current_vcpu g me = None"
    using assms(1) True by (auto simp: hv_vcpu_create_def hv_codes split: if_splits)
  have "slot_ok g n" using assms(2) f by (simp add: vm_ok_def)
  with f(2) have "idle (g_vcpus g n)" by (simp add: slot_ok_def)
  have wf: "slot_wf (g_vcpus g n)"
  proof -
    have "slot_wf ((g_vcpus g n)\<lparr>exit_requested := False\<rparr>)"
      using \<open>idle (g_vcpus g n)\<close> unfolding idle_def by (simp only: slot_wf_new)
    then show ?thesis by (simp add: slot_wf_def)
  qed
  have "slot_ok g' j" if "j < 64" for j
  proof -
    have "slot_ok g j" using assms(2) that by (simp add: vm_ok_def)
    then show ?thesis using al wf free
      by (cases "j = n") (auto simp: g' slot_ok_def vcpu_init_keeps_request)
  qed
  moreover have "g_maps g' = g_maps g" "g_nested_asid g' = g_nested_asid g" "g_vm_alive g'"
    using al by (simp_all add: g' upd_slot_def)
  moreover have "tl_current_vcpu g' a = Some c \<Longrightarrow> c < 64" for a c
    using assms(2) f(1) by (auto simp: g' vm_ok_def split: if_splits)
  ultimately show ?thesis using assms(2) by (simp add: vm_ok_def)
qed

lemma vm_ok_vcpu_destroy:
  assumes "hv_vcpu_destroy K me i g k = (r, g', k')" "vm_ok g"
  shows "vm_ok g'"
proof (cases "find_vcpu g i")
  case None
  with assms show ?thesis by (simp add: hv_vcpu_destroy_def)
next
  case (Some n)
  define tl' where "tl' = (if tl_current_vcpu g me = Some n then (tl_current_vcpu g)(me := None) else tl_current_vcpu g)"
  have g': "g' = upd_slot n (\<lambda>_. new_VcpuSlot) (g\<lparr>tl_current_vcpu := tl'\<rparr>)"
    using assms(1) Some by (auto simp: hv_vcpu_destroy_def tl'_def Let_def split: prod.splits if_splits)
  have nu: "\<not> used new_VcpuSlot" by (simp add: new_VcpuSlot_def)
  have "slot_ok g' j" if "j < 64" for j
  proof -
    have "slot_ok g j" using assms(2) that by (simp add: vm_ok_def)
    then show ?thesis using nu by (cases "j = n") (auto simp: g' slot_ok_def tl'_def)
  qed
  moreover have "g_maps g' = g_maps g" "g_nested_asid g' = g_nested_asid g" "g_vm_alive g' = g_vm_alive g" "g_gic g' = g_gic g"
    by (simp_all add: g' upd_slot_def)
  moreover have "tl_current_vcpu g' a = Some c \<Longrightarrow> c < 64" for a c
    using assms(2) by (auto simp: g' tl'_def vm_ok_def split: if_splits)
  ultimately show ?thesis using assms(2) by (simp add: vm_ok_def)
qed

lemma vm_ok_run:
  assumes "hv_vcpu_run me getenv ts i cs st g = (r, cs', st', g')" "\<forall>t \<in> set ts. turn_ok t" "vm_ok g"
  shows "vm_ok g'"
proof (cases "owned_vcpu me g i")
  case None
  with assms show ?thesis by (simp add: hv_vcpu_run_def)
next
  case (Some n)
  define c where "c = g_ohv_cfg (ohv_cfg_settle getenv cs)"
  obtain r1 st1 s1 where v: "vcpu_run (map (with_cfg c) ts) st (g_vcpus g n) = (r1, st1, s1)" by (rule prod_cases3)
  have "\<forall>t \<in> set (map (with_cfg c) ts). turn_ok t" using assms(2) by (auto simp: turn_ok_def with_cfg_def)
  note f = vcpu_run_frame [OF v this]
  have "g' = upd_slot n (\<lambda>_. s1) g" using assms(1) Some v by (simp add: hv_vcpu_run_def Let_def c_def)
  moreover have "used (g_vcpus g n)" using owned_vcpu_Some [OF Some] by blast
  ultimately show ?thesis using vm_ok_kept [OF assms(3)] f by (simp add: slot_kept_def)
qed

lemma idle_asked: "idle (s\<lparr>exit_requested := b\<rparr>) = idle s"
  by (simp add: idle_def)

lemma vm_ok_ask:
  assumes "vm_ok g" shows "vm_ok (upd_slot n (\<lambda>s. s\<lparr>exit_requested := True\<rparr>) g)"
proof -
  have w: "slot_wf (s\<lparr>exit_requested := b\<rparr>) = slot_wf s" for s b by (simp add: slot_wf_def)
  have "slot_ok (upd_slot n (\<lambda>s. s\<lparr>exit_requested := True\<rparr>) g) m" if "m < 64" for m
  proof -
    have "slot_ok g m" using assms that by (simp add: vm_ok_def)
    then show ?thesis by (cases "m = n") (auto simp: slot_ok_def idle_asked w)
  qed
  moreover have "g_maps (upd_slot n f g) = g_maps g" "g_nested_asid (upd_slot n f g) = g_nested_asid g" for f
    by (simp_all add: upd_slot_def)
  ultimately show ?thesis using assms by (simp add: vm_ok_def)
qed

lemma vm_ok_exit:
  assumes "hv_vcpus_exit K ids n g k = (r, g', k')" "vm_ok g"
  shows "vm_ok g'"
proof -
  have f: "vm_ok (foldl (\<lambda>h i. upd_slot (unat i) (\<lambda>s. s\<lparr>exit_requested := True\<rparr>) h) h is)" if "vm_ok h" for h "is"
    using that by (induction "is" arbitrary: h) (simp_all add: vm_ok_ask)
  show ?thesis
  proof (cases ids)
    case None
    with assms show ?thesis by (auto simp: hv_vcpus_exit_def split: if_splits prod.splits)
  next
    case (Some a)
    with assms f [OF assms(2)] show ?thesis
      by (auto simp: hv_vcpus_exit_def Let_def split: if_splits prod.splits)
  qed
qed


lemma vm_ok_slot_set:
  assumes "slot_set me g i f = (r, g')" "\<And>s. slot_kept s (snd (f s))" "vm_ok g"
  shows "vm_ok g'"
proof (cases "owned_vcpu me g i")
  case None
  with assms show ?thesis by (simp add: slot_set_def)
next
  case (Some n)
  then have "g' = upd_slot n (\<lambda>_. snd (f (g_vcpus g n))) g"
    using assms(1) by (auto simp: slot_set_def split: prod.splits)
  moreover have "used (g_vcpus g n)" using owned_vcpu_Some [OF Some] by blast
  ultimately show ?thesis using vm_ok_kept [OF assms(3)] assms(2) by simp
qed

lemma slot_kept_levels [simp]:
  "slot_kept s (ohv_set_irq_level c t) = slot_kept s t" "slot_kept s (ohv_set_fiq_level c t) = slot_kept s t"
  "slot_kept s (t\<lparr>vmm_fiq := b\<rparr>) = slot_kept s t" "slot_kept s (t\<lparr>vmm_irq := b\<rparr>) = slot_kept s t"
  "slot_kept s (t\<lparr>in_wfx := b\<rparr>) = slot_kept s t"
proof -
  have p: "slot_kept s (put_level n b t) = slot_kept s t" for n b t by (simp add: put_level_def Let_def)
  have f: "slot_kept s (t\<lparr>timer_fiq := b\<rparr>) = slot_kept s t" for t b by (simp add: slot_kept_def slot_wf_def)
  show "slot_kept s (ohv_set_irq_level c t) = slot_kept s t" "slot_kept s (ohv_set_fiq_level c t) = slot_kept s t"
    by (simp_all add: ohv_set_irq_level_def ohv_set_fiq_level_def Let_def p f)
qed (simp_all add: slot_kept_def slot_wf_def)

lemma slot_kept_setters [simp]:
  "slot_kept s (snd (reg_set e r v s))" "slot_kept s (ctl_bits off m b s)" "slot_kept s (snd (field_set c f v s))"
  "slot_kept s (set_pending c t b s)"
  by (auto simp: reg_set_def ctl_bits_def field_set_def set_pending_def split: option.split)

lemma vm_ok_setters:
  assumes "vm_ok g"
  shows "hv_vcpu_set_reg me g i reg v = (r, g') \<Longrightarrow> vm_ok g'"
    and "hv_vcpu_set_simd_fp_reg me g i reg bs = (r, g') \<Longrightarrow> vm_ok g'"
    and "hv_vcpu_set_trap_debug_exceptions me g i b = (r, g') \<Longrightarrow> vm_ok g'"
    and "hv_vcpu_set_trap_debug_reg_accesses me g i b = (r, g') \<Longrightarrow> vm_ok g'"
    and "hv_vcpu_set_vtimer_mask me g i b = (r, g') \<Longrightarrow> vm_ok g'"
    and "hv_vcpu_set_vtimer_offset me g i v = (r, g') \<Longrightarrow> vm_ok g'"
    and "hv_vcpu_set_control_field c me g i fld v = (r, g') \<Longrightarrow> vm_ok g'"
    and "hv_vcpu_set_pending_interrupt c me g i ty b = (r, g') \<Longrightarrow> vm_ok g'"
  unfolding hv_vcpu_set_reg_def hv_vcpu_set_simd_fp_reg_def hv_vcpu_set_trap_debug_exceptions_def
    hv_vcpu_set_trap_debug_reg_accesses_def hv_vcpu_set_vtimer_mask_def hv_vcpu_set_vtimer_offset_def
    hv_vcpu_set_control_field_def hv_vcpu_set_pending_interrupt_def
  by (erule vm_ok_slot_set [OF _ _ assms], simp)+

lemma slot_kept_sync: "sync_ctx w s = (r, t) \<Longrightarrow> slot_kept s t"
  using slot_meta_sync_eq [of w s r t] sync_ctx_frame [of w s r t] by (auto simp: slot_kept_def slot_meta_def)

lemma slot_kept_write_word: "slot_kept s (write_word c d off enc v s)"
  by (auto simp: write_word_def vmkey_mirror_def slot_kept_def owner_moves Let_def)

lemma slot_kept_sysreg:
  assumes "sysreg_access w enc wv st s = (r, v, st', t)"
  shows "slot_kept s t"
proof -
  have id: "slot_kept s u" if "sysreg_id w enc wv st s = (r, v, st', u)" for u
    using that by (auto simp: sysreg_id_def load_id_regs_def slot_kept_def slot_wf_def Let_def
        split: option.splits if_splits)
  have sh: "slot_kept s u" if "sysreg_shadow d wv s = (r, v, u)" for d u
    using that by (auto simp: sysreg_shadow_def slot_kept_def slot_wf_def split: option.splits if_splits)
  have wd: "slot_kept s u" if "sysreg_word w d off enc wv s = (r, v, u)" for d off u
  proof -
    obtain e s1 where y: "(if sync_wanted d s then sync_ctx w s else (HV_SUCCESS, s)) = (e, s1)" by force
    then have "slot_kept s s1" using slot_kept_sync by (auto split: if_splits)
    then show ?thesis using that y slot_kept_trans [OF _ slot_kept_write_word]
      by (auto simp: sysreg_word_def split: if_splits option.splits)
  qed
  show ?thesis using assms id sh wd
    by (auto simp: sysreg_access_def split: option.splits if_splits prod.splits)
qed

lemma vm_ok_sysreg:
  assumes "vm_ok g"
  shows "hv_vcpu_get_sys_reg w me i enc o' st g = (r, out, st', g') \<Longrightarrow> vm_ok g'"
    and "hv_vcpu_set_sys_reg w me i enc v st g = (r', st', g') \<Longrightarrow> vm_ok g'"
proof -
  have k: "vm_ok (upd_slot n (\<lambda>_. t) g)"
    if "owned_vcpu me g i = Some n" "sysreg_access w enc wv st (g_vcpus g n) = (e, x, u, t)" for n wv e x u t
    using vm_ok_kept [OF assms _ slot_kept_sysreg [OF that(2)]] owned_vcpu_Some [OF that(1)] by blast
  show "hv_vcpu_get_sys_reg w me i enc o' st g = (r, out, st', g') \<Longrightarrow> vm_ok g'"
    using k assms by (auto simp: hv_vcpu_get_sys_reg_def split: option.splits if_splits prod.splits)
  show "hv_vcpu_set_sys_reg w me i enc v st g = (r', st', g') \<Longrightarrow> vm_ok g'"
    using k assms by (auto simp: hv_vcpu_set_sys_reg_def split: option.splits if_splits prod.splits)
qed


lemma vm_ok_sme:
  assumes "vm_ok g"
  shows "hv_vcpu_set_sme_z_reg me i reg buf len h g = (r, h', g') \<Longrightarrow> vm_ok g'"
    and "hv_vcpu_set_sme_za_reg me i buf len h g = (r, h', g') \<Longrightarrow> vm_ok g'"
    and "hv_vcpu_set_sme_zt0_reg me i buf h g = (r, h', g') \<Longrightarrow> vm_ok g'"
proof -
  have "vm_ok g'" if "sme_set me i buf span h g = (r, h', g')" for span
  proof (cases "owned_vcpu me g i")
    case None
    with that assms show ?thesis by (simp add: sme_set_def)
  next
    case (Some n)
    then have "used (g_vcpus g n)" using owned_vcpu_Some by blast
    then have "vm_ok (upd_slot n (\<lambda>_. ctx_dirty b (g_vcpus g n)) g)" for b
      using vm_ok_kept [OF assms] by simp
    then have d: "vm_ok (upd_slot n (ctx_dirty b) g)" for b by (simp add: upd_slot_def)
    show ?thesis using that Some assms d
      by (auto simp: sme_set_def Let_def split: option.splits if_splits)
  qed
  note this [unfolded]
  then show "hv_vcpu_set_sme_z_reg me i reg buf len h g = (r, h', g') \<Longrightarrow> vm_ok g'"
    and "hv_vcpu_set_sme_za_reg me i buf len h g = (r, h', g') \<Longrightarrow> vm_ok g'"
    and "hv_vcpu_set_sme_zt0_reg me i buf h g = (r, h', g') \<Longrightarrow> vm_ok g'"
    by (simp_all add: hv_vcpu_set_sme_z_reg_def hv_vcpu_set_sme_za_reg_def hv_vcpu_set_sme_zt0_reg_def)
qed

lemma vm_ok_capabilities: "ohv_caps_cached K g k = (c, g', k') \<Longrightarrow> vm_ok g \<Longrightarrow> vm_ok g'"
  by (cases "g_caps g") (auto simp: ohv_caps_cached_def vm_ok_def slot_ok_def split: if_splits prod.splits)

lemma vm_ok_upd:
  assumes "vm_ok g" "used (g_vcpus g n)" "slot_kept (g_vcpus g n) (f (g_vcpus g n))"
  shows "vm_ok (upd_slot n f g)"
proof -
  have "upd_slot n f g = upd_slot n (\<lambda>_. f (g_vcpus g n)) g" by (simp add: upd_slot_def)
  then show ?thesis using vm_ok_kept [OF assms(1,2)] assms(3) by simp
qed

lemma vm_ok_gic: "vm_ok g \<Longrightarrow> g_vm_alive g \<Longrightarrow> vm_ok (g\<lparr>g_gic := m\<rparr>)"
  by (simp add: vm_ok_def slot_ok_def)

lemma vm_ok_gic_create:
  assumes "hv_gic_create gc g = (r, g')" "vm_ok g"
  shows "vm_ok g'"
proof (cases "g' = g")
  case False
  then obtain c where "g_vm_alive g" "g' = for_vcpus enable_vgic (g\<lparr>g_gic := Some (describe (zero_gic c))\<rparr>)"
    using assms(1) by (auto simp: hv_gic_create_def require_vm_def split: option.splits if_splits)
  then show ?thesis using vm_ok_for_vcpus [OF vm_ok_gic [OF assms(2)]] by (simp add: enable_vgic_def)
qed (use assms in simp)

lemma alive_of_gic: "vm_ok g \<Longrightarrow> g_gic g = Some m \<Longrightarrow> g_vm_alive g"
  by (simp add: vm_ok_def)

lemma vm_ok_gic_write: "gic_write g f = (r, g') \<Longrightarrow> vm_ok g \<Longrightarrow> vm_ok g'"
  by (auto simp: gic_write_def vm_ok_gic alive_of_gic split: option.splits prod.splits)

lemma vm_ok_gic_write_of:
  assumes "gic_write_of g i f = (r, g')" "vm_ok g"
  shows "vm_ok g'"
proof (cases "find_vcpu g i")
  case None
  with assms show ?thesis by (simp add: gic_write_of_def)
next
  case (Some n)
  obtain e h where w: "gic_write g (f (unat (slot_id (g_vcpus g n)))) = (e, h)" by force
  have ok: "vm_ok h" using vm_ok_gic_write [OF w assms(2)] .
  have "g_vcpus h = g_vcpus g" using w by (auto simp: gic_write_def split: option.splits prod.splits)
  moreover have "used (g_vcpus g n)" using find_vcpu_Some [OF Some] by blast
  ultimately have "vm_ok (upd_slot n (ctx_dirty b) h)" for b
    by (intro vm_ok_upd [OF ok]) simp_all
  with ok Some w assms(1) show ?thesis by (auto simp: gic_write_of_def split: if_splits)
qed

lemma vm_ok_gic_regs:
  assumes "vm_ok g"
  shows "hv_gic_set_distributor_reg off v g = (r, g') \<Longrightarrow> vm_ok g'"
    and "hv_gic_set_redistributor_reg i off v g = (r, g') \<Longrightarrow> vm_ok g'"
    and "hv_gic_set_icc_reg i enc v g = (r, g') \<Longrightarrow> vm_ok g'"
    and "hv_gic_set_icv_reg i enc v g = (r, g') \<Longrightarrow> vm_ok g'"
    and "hv_gic_set_msi_reg off v g = (r, g') \<Longrightarrow> vm_ok g'"
  unfolding hv_gic_set_distributor_reg_def hv_gic_set_redistributor_reg_def hv_gic_set_icc_reg_def
    hv_gic_set_icv_reg_def hv_gic_set_msi_reg_def
  by ((erule vm_ok_gic_write [OF _ assms] vm_ok_gic_write_of [OF _ assms])+)

lemma vm_ok_set_ich:
  assumes "hv_gic_set_ich_reg i enc v g = (r, g')" "vm_ok g"
  shows "vm_ok g'"
proof (cases "g' = g")
  case False
  then obtain m n where mn: "g_gic g = Some m" "find_vcpu g i = Some n"
    using assms(1) by (auto simp: hv_gic_set_ich_reg_def split: option.splits)
  obtain e m' t where s: "ich_set enc v (g_vcpus g n) m = (e, m', t)" by (rule prod_cases3)
  have "slot_kept (g_vcpus g n) t"
    using s by (auto simp: ich_set_def Let_def split: if_splits option.splits)
  moreover have "used (g_vcpus g n)" using find_vcpu_Some [OF mn(2)] by blast
  moreover have "g' = upd_slot n (\<lambda>_. t) (g\<lparr>g_gic := Some m'\<rparr>)" using assms(1) mn s by (simp add: hv_gic_set_ich_reg_def)
  ultimately show ?thesis using vm_ok_gic [OF assms(2) alive_of_gic [OF assms(2) mn(1)], of "Some m'"]
    by (auto intro: vm_ok_kept)
qed (use assms in simp)

lemma slot_kept_spi [simp]: "slot_kept s (queue_spi i p s)" "slot_kept s (drop_spi i s)"
proof -
  show "slot_kept s (queue_spi i p s)" by (simp add: queue_spi_def lr_put_def Let_def split: option.split)
  have "slot_kept s t \<Longrightarrow> slot_kept s (fold (drop_lr i) is t)" for "is" t
    by (induction "is" arbitrary: t) (simp_all add: drop_lr_def lr_put_def Let_def)
  then show "slot_kept s (drop_spi i s)" by (simp add: drop_spi_def)
qed

lemma vm_ok_set_spi:
  assumes "hv_gic_set_spi intid level g = (r, g')" "vm_ok g"
  shows "vm_ok g'"
proof (cases "g_gic g")
  case None
  with assms show ?thesis by (simp add: hv_gic_set_spi_def)
next
  case (Some m)
  have ok: "vm_ok (g\<lparr>g_gic := Some x\<rparr>)" for x
    using vm_ok_gic [OF assms(2) alive_of_gic [OF assms(2) Some]] .
  have up: "vm_ok (upd_slot n f (g\<lparr>g_gic := Some x\<rparr>))"
    if "spi_target (g\<lparr>g_gic := Some x\<rparr>) = Some n" "\<And>s. slot_kept s (f s)" for n f x
    using that by (intro vm_ok_upd [OF ok]) (auto simp: spi_target_def find_Some_iff)
  show ?thesis using assms Some ok up
    by (auto simp: hv_gic_set_spi_def Let_def split: if_splits option.splits)
qed

lemma vm_ok_gic_reset: "hv_gic_reset g = (r, g') \<Longrightarrow> vm_ok g \<Longrightarrow> vm_ok g'"
  by (auto simp: hv_gic_reset_def vm_ok_gic alive_of_gic intro!: vm_ok_for_vcpus split: option.splits)

lemma vm_ok_set_state: "hv_gic_set_state dat len g = (r, g') \<Longrightarrow> vm_ok g \<Longrightarrow> vm_ok g'"
  by (auto simp: hv_gic_set_state_def vm_ok_gic alive_of_gic intro!: vm_ok_for_vcpus split: option.splits if_splits)


lemma vm_ok_parked: "vm_ok g \<Longrightarrow> vm_ok (ohv_vcpu_set_parked c me i b g)"
  using owned_vcpu_Some [of me g i]
  by (auto simp: ohv_vcpu_set_parked_def set_parked_def intro!: vm_ok_upd split: option.split)

lemma vm_ok_step:
  assumes "api_step K getenv p q" "vm_ok (p_vm p)"
  shows "vm_ok (p_vm q)"
  using assms(1)
  by cases (auto intro: assms(2) vm_ok_vm_create [OF _ assms(2)] vm_ok_vm_destroy [OF _ assms(2)]
      vm_ok_map [OF _ assms(2)] vm_ok_unmap [OF _ assms(2)] vm_ok_vcpu_create [OF _ assms(2)]
      vm_ok_vcpu_destroy [OF _ assms(2)] vm_ok_run [OF _ _ assms(2)] vm_ok_exit [OF _ assms(2)]
      vm_ok_setters [OF assms(2)] vm_ok_sysreg [OF assms(2)] vm_ok_parked [OF assms(2)] vm_ok_sme [OF assms(2)]
      vm_ok_capabilities [OF _ assms(2)] vm_ok_gic_create [OF _ assms(2)] vm_ok_gic_regs [OF assms(2)]
      vm_ok_set_ich [OF _ assms(2)] vm_ok_set_spi [OF _ assms(2)] vm_ok_gic_reset [OF _ assms(2)]
      vm_ok_set_state [OF _ assms(2)])

lemma vm_ok_reach: "api_reach K getenv k0 p \<Longrightarrow> vm_ok (p_vm p)"
  by (induction rule: api_reach.induct) (auto simp: process_start_def vm_ok_start vm_ok_step)

text \<open>C2: Whatever entry points any threads call, in any order, with any arguments and over any
  kernel: a vCPU in use carries the number of its slot, has its tables within bounds, belongs to a VM
  that is alive and to a thread that is bound to it, so no thread owns two; a slot not in use is
  the empty slot, but for a request to leave that may wait there; a controller exists only in a VM that
  is alive; no two recorded mappings start at one address and there are at most 64 of them; and there are
  at most eight nested spaces.\<close>

theorem api_invariant:
  assumes "api_reach K getenv k0 p" and "g = p_vm p"
  shows "(\<forall>n<64. used (g_vcpus g n) \<longrightarrow> slot_id (g_vcpus g n) = of_nat n \<and> slot_wf (g_vcpus g n)
            \<and> g_vm_alive g \<and> tl_current_vcpu g (owner (g_vcpus g n)) = Some n)
      \<and> (\<forall>n<64. \<not> used (g_vcpus g n) \<longrightarrow> (g_vcpus g n)\<lparr>exit_requested := False\<rparr> = new_VcpuSlot)
      \<and> (\<forall>m<64. \<forall>n<64. used (g_vcpus g m) \<and> used (g_vcpus g n)
            \<and> owner (g_vcpus g m) = owner (g_vcpus g n) \<longrightarrow> m = n)
      \<and> (g_gic g \<noteq> None \<longrightarrow> g_vm_alive g)
      \<and> distinct (map mr_ipa (g_maps g)) \<and> length (g_maps g) \<le> 64 \<and> length (g_nested_asid g) \<le> 8"
proof -
  have ok: "vm_ok g" using vm_ok_reach [OF assms(1)] assms(2) by simp
  then have s: "slot_ok g n" if "n < 64" for n using that by (simp add: vm_ok_def)
  have u: "\<forall>n<64. used (g_vcpus g n) \<longrightarrow> slot_id (g_vcpus g n) = of_nat n \<and> slot_wf (g_vcpus g n)
      \<and> g_vm_alive g \<and> tl_current_vcpu g (owner (g_vcpus g n)) = Some n"
    using s by (auto simp: slot_ok_def)
  then have o: "\<forall>m<64. \<forall>n<64. used (g_vcpus g m) \<and> used (g_vcpus g n)
      \<and> owner (g_vcpus g m) = owner (g_vcpus g n) \<longrightarrow> m = n"
    by (metis option.inject)
  have "\<forall>n<64. \<not> used (g_vcpus g n) \<longrightarrow> (g_vcpus g n)\<lparr>exit_requested := False\<rparr> = new_VcpuSlot"
    using s by (metis slot_ok_def idle_def)
  moreover have "(g_gic g \<noteq> None \<longrightarrow> g_vm_alive g)
      \<and> distinct (map mr_ipa (g_maps g)) \<and> length (g_maps g) \<le> 64 \<and> length (g_nested_asid g) \<le> 8"
    using ok by (simp add: vm_ok_def maps_wf_def kNestedSpaces_def)
  ultimately show ?thesis using u o by blast
qed

lemma granting_creates:
  assumes "g_vm_alive g" "tl_current_vcpu g me = None" "free_slot g = Some n"
    and "hv_vcpu_create granting_kernel cfg me True True g k = (r, out, g', k')"
  shows "r = HV_SUCCESS"
proof -
  have "k_vcpu_create granting_kernel k v = (HV_SUCCESS, True, wr64 zero_mem 0x4000 0x2068797000000000, k)" for v
    by (simp add: granting_kernel_def)
  moreover have "drop_bit 32 (rd64 (wr64 zero_mem 0x4000 0x2068797000000000) OHV_RO_VER) = OHV_STATE_VER_MAGIC"
    by (simp add: layout masks)
  ultimately show ?thesis using assms by (simp add: hv_vcpu_create_def Let_def)
qed

text \<open>The witness: thread 5 creates a VM for a guest hypervisor and a vCPU in it.\<close>

theorem api_invariant_witness:
  "\<exists>p. api_reach granting_kernel (\<lambda>_. None) 1 p \<and> used (g_vcpus (p_vm p) 0)
     \<and> owner (g_vcpus (p_vm p) 0) = 5 \<and> tl_current_vcpu (p_vm p) 5 = Some 0"
proof -
  define p0 where "p0 = process_start (\<lambda>_. None) (1 :: nat)"
  define g1 where "g1 = fst (snd (hv_vm_create granting_kernel (Some el2_config) initial_state 1))"
  define p1 where "p1 = p0\<lparr>p_vm := g1, p_kernel := 9\<rparr>"
  have p0: "api_reach granting_kernel (\<lambda>_. None) 1 p0" by (simp add: p0_def api_reach.start)
  have "hv_vm_create granting_kernel (Some el2_config) (p_vm p0) (p_kernel p0) = (HV_SUCCESS, g1, 9)"
    by (simp only: p0_def process_start_def process.simps g1_def first_el2_vm fst_conv snd_conv)
  from api_step.Vm_create [OF this] have "api_step granting_kernel (\<lambda>_. None) p0 p1"
    unfolding p1_def .
  with p0 have r1: "api_reach granting_kernel (\<lambda>_. None) 1 p1" by (rule api_reach.step)
  have v: "g_vcpus g1 = g_vcpus el2_vm" "g_vm_alive g1" "tl_current_vcpu g1 5 = None"
    unfolding g1_def first_el2_vm by (simp_all add: initial_state_def el2_vm_def)
  then have g1: "g_vm_alive g1" "tl_current_vcpu g1 5 = None" "free_slot g1 = Some 0"
    using initial_free by (simp_all add: free_slot_def)
  obtain r out g2 k where c:
    "hv_vcpu_create granting_kernel (g_ohv_cfg (p_cfg p1)) 5 True True g1 (9 :: nat) = (r, out, g2, k)" by (rule prod_cases4)
  have "r = HV_SUCCESS" using granting_creates [OF g1 c] .
  then obtain m mapped where g2: "g2 = (upd_slot 0 (vcpu_init (g_ohv_cfg (p_cfg p1)) g1 5 0 m mapped) g1)
      \<lparr>tl_current_vcpu := (tl_current_vcpu g1)(5 := Some 0)\<rparr>"
    using create_success [OF c [unfolded \<open>r = HV_SUCCESS\<close>] g1(3)] by blast
  define p2 where "p2 = p1\<lparr>p_vm := g2, p_kernel := k\<rparr>"
  have "hv_vcpu_create granting_kernel (g_ohv_cfg (p_cfg p1)) 5 True True (p_vm p1) (p_kernel p1) = (r, out, g2, k)"
    using c by (simp add: p1_def)
  from api_step.Vcpu_create [OF this] have "api_step granting_kernel (\<lambda>_. None) p1 p2"
    unfolding p2_def .
  with r1 have r2: "api_reach granting_kernel (\<lambda>_. None) 1 p2" by (rule api_reach.step)
  have u: "used (g_vcpus (p_vm p2) 0)" "owner (g_vcpus (p_vm p2) 0) = 5"
    by (simp_all add: p2_def g2 vcpu_init_keeps_request)
  with api_invariant [OF r2 refl, THEN conjunct1, rule_format, of 0] have "tl_current_vcpu (p_vm p2) 5 = Some 0" by simp
  with r2 u show ?thesis by blast
qed

end
