(* ===== verification/Ohv_Enums.thy ===== *)
theory Ohv_Enums
  imports Ohv_Api
begin

text \<open>
  The register names \<open>include/openhyp/hv_compat_enums.h\<close> publishes -- general, vector, system and
  feature registers, each with the number the enumeration gives it -- against the code that serves them.

  The lemmas show that every published register is one the library serves: a general register
  has a word or a status of its own, a vector register keeps its sixteen bytes, a system register reads back what was written to it, and a
  feature register is the identification register of its own name, numbered alike by the
  configuration and by the table the guest's reads go through.
\<close>

section \<open>The enumerations\<close>

definition hv_reg_t :: "(string \<times> u32) list" where
  "hv_reg_t =
    [(''HV_REG_X0'', 0), (''HV_REG_X1'', 1), (''HV_REG_X2'', 2), (''HV_REG_X3'', 3),
     (''HV_REG_X4'', 4), (''HV_REG_X5'', 5), (''HV_REG_X6'', 6), (''HV_REG_X7'', 7),
     (''HV_REG_X8'', 8), (''HV_REG_X9'', 9), (''HV_REG_X10'', 10), (''HV_REG_X11'', 11),
     (''HV_REG_X12'', 12), (''HV_REG_X13'', 13), (''HV_REG_X14'', 14), (''HV_REG_X15'', 15),
     (''HV_REG_X16'', 16), (''HV_REG_X17'', 17), (''HV_REG_X18'', 18), (''HV_REG_X19'', 19),
     (''HV_REG_X20'', 20), (''HV_REG_X21'', 21), (''HV_REG_X22'', 22), (''HV_REG_X23'', 23),
     (''HV_REG_X24'', 24), (''HV_REG_X25'', 25), (''HV_REG_X26'', 26), (''HV_REG_X27'', 27),
     (''HV_REG_X28'', 28), (''HV_REG_X29'', 29), (''HV_REG_FP'', 29), (''HV_REG_X30'', 30),
     (''HV_REG_LR'', 30), (''HV_REG_PC'', 31), (''HV_REG_FPCR'', 32), (''HV_REG_FPSR'', 33),
     (''HV_REG_CPSR'', 34)]"

definition hv_sys_reg_t :: "(string \<times> u16) list" where
  "hv_sys_reg_t =
    [(''HV_SYS_REG_DBGBVR0_EL1'', 0x8004), (''HV_SYS_REG_DBGBCR0_EL1'', 0x8005),
     (''HV_SYS_REG_DBGWVR0_EL1'', 0x8006), (''HV_SYS_REG_DBGWCR0_EL1'', 0x8007),
     (''HV_SYS_REG_DBGBVR1_EL1'', 0x800c), (''HV_SYS_REG_DBGBCR1_EL1'', 0x800d),
     (''HV_SYS_REG_DBGWVR1_EL1'', 0x800e), (''HV_SYS_REG_DBGWCR1_EL1'', 0x800f),
     (''HV_SYS_REG_MDCCINT_EL1'', 0x8010), (''HV_SYS_REG_MDSCR_EL1'', 0x8012),
     (''HV_SYS_REG_DBGBVR2_EL1'', 0x8014), (''HV_SYS_REG_DBGBCR2_EL1'', 0x8015),
     (''HV_SYS_REG_DBGWVR2_EL1'', 0x8016), (''HV_SYS_REG_DBGWCR2_EL1'', 0x8017),
     (''HV_SYS_REG_DBGBVR3_EL1'', 0x801c), (''HV_SYS_REG_DBGBCR3_EL1'', 0x801d),
     (''HV_SYS_REG_DBGWVR3_EL1'', 0x801e), (''HV_SYS_REG_DBGWCR3_EL1'', 0x801f),
     (''HV_SYS_REG_DBGBVR4_EL1'', 0x8024), (''HV_SYS_REG_DBGBCR4_EL1'', 0x8025),
     (''HV_SYS_REG_DBGWVR4_EL1'', 0x8026), (''HV_SYS_REG_DBGWCR4_EL1'', 0x8027),
     (''HV_SYS_REG_DBGBVR5_EL1'', 0x802c), (''HV_SYS_REG_DBGBCR5_EL1'', 0x802d),
     (''HV_SYS_REG_DBGWVR5_EL1'', 0x802e), (''HV_SYS_REG_DBGWCR5_EL1'', 0x802f),
     (''HV_SYS_REG_DBGBVR6_EL1'', 0x8034), (''HV_SYS_REG_DBGBCR6_EL1'', 0x8035),
     (''HV_SYS_REG_DBGWVR6_EL1'', 0x8036), (''HV_SYS_REG_DBGWCR6_EL1'', 0x8037),
     (''HV_SYS_REG_DBGBVR7_EL1'', 0x803c), (''HV_SYS_REG_DBGBCR7_EL1'', 0x803d),
     (''HV_SYS_REG_DBGWVR7_EL1'', 0x803e), (''HV_SYS_REG_DBGWCR7_EL1'', 0x803f),
     (''HV_SYS_REG_DBGBVR8_EL1'', 0x8044), (''HV_SYS_REG_DBGBCR8_EL1'', 0x8045),
     (''HV_SYS_REG_DBGWVR8_EL1'', 0x8046), (''HV_SYS_REG_DBGWCR8_EL1'', 0x8047),
     (''HV_SYS_REG_DBGBVR9_EL1'', 0x804c), (''HV_SYS_REG_DBGBCR9_EL1'', 0x804d),
     (''HV_SYS_REG_DBGWVR9_EL1'', 0x804e), (''HV_SYS_REG_DBGWCR9_EL1'', 0x804f),
     (''HV_SYS_REG_DBGBVR10_EL1'', 0x8054), (''HV_SYS_REG_DBGBCR10_EL1'', 0x8055),
     (''HV_SYS_REG_DBGWVR10_EL1'', 0x8056), (''HV_SYS_REG_DBGWCR10_EL1'', 0x8057),
     (''HV_SYS_REG_DBGBVR11_EL1'', 0x805c), (''HV_SYS_REG_DBGBCR11_EL1'', 0x805d),
     (''HV_SYS_REG_DBGWVR11_EL1'', 0x805e), (''HV_SYS_REG_DBGWCR11_EL1'', 0x805f),
     (''HV_SYS_REG_DBGBVR12_EL1'', 0x8064), (''HV_SYS_REG_DBGBCR12_EL1'', 0x8065),
     (''HV_SYS_REG_DBGWVR12_EL1'', 0x8066), (''HV_SYS_REG_DBGWCR12_EL1'', 0x8067),
     (''HV_SYS_REG_DBGBVR13_EL1'', 0x806c), (''HV_SYS_REG_DBGBCR13_EL1'', 0x806d),
     (''HV_SYS_REG_DBGWVR13_EL1'', 0x806e), (''HV_SYS_REG_DBGWCR13_EL1'', 0x806f),
     (''HV_SYS_REG_DBGBVR14_EL1'', 0x8074), (''HV_SYS_REG_DBGBCR14_EL1'', 0x8075),
     (''HV_SYS_REG_DBGWVR14_EL1'', 0x8076), (''HV_SYS_REG_DBGWCR14_EL1'', 0x8077),
     (''HV_SYS_REG_DBGBVR15_EL1'', 0x807c), (''HV_SYS_REG_DBGBCR15_EL1'', 0x807d),
     (''HV_SYS_REG_DBGWVR15_EL1'', 0x807e), (''HV_SYS_REG_DBGWCR15_EL1'', 0x807f),
     (''HV_SYS_REG_MIDR_EL1'', 0xc000), (''HV_SYS_REG_MPIDR_EL1'', 0xc005),
     (''HV_SYS_REG_ID_AA64PFR0_EL1'', 0xc020), (''HV_SYS_REG_ID_AA64PFR1_EL1'', 0xc021),
     (''HV_SYS_REG_ID_AA64DFR0_EL1'', 0xc028), (''HV_SYS_REG_ID_AA64DFR1_EL1'', 0xc029),
     (''HV_SYS_REG_ID_AA64ISAR0_EL1'', 0xc030), (''HV_SYS_REG_ID_AA64ISAR1_EL1'', 0xc031),
     (''HV_SYS_REG_ID_AA64MMFR0_EL1'', 0xc038), (''HV_SYS_REG_ID_AA64MMFR1_EL1'', 0xc039),
     (''HV_SYS_REG_ID_AA64MMFR2_EL1'', 0xc03a), (''HV_SYS_REG_SCTLR_EL1'', 0xc080),
     (''HV_SYS_REG_CPACR_EL1'', 0xc082), (''HV_SYS_REG_TTBR0_EL1'', 0xc100),
     (''HV_SYS_REG_TTBR1_EL1'', 0xc101), (''HV_SYS_REG_TCR_EL1'', 0xc102),
     (''HV_SYS_REG_APIAKEYLO_EL1'', 0xc108), (''HV_SYS_REG_APIAKEYHI_EL1'', 0xc109),
     (''HV_SYS_REG_APIBKEYLO_EL1'', 0xc10a), (''HV_SYS_REG_APIBKEYHI_EL1'', 0xc10b),
     (''HV_SYS_REG_APDAKEYLO_EL1'', 0xc110), (''HV_SYS_REG_APDAKEYHI_EL1'', 0xc111),
     (''HV_SYS_REG_APDBKEYLO_EL1'', 0xc112), (''HV_SYS_REG_APDBKEYHI_EL1'', 0xc113),
     (''HV_SYS_REG_APGAKEYLO_EL1'', 0xc118), (''HV_SYS_REG_APGAKEYHI_EL1'', 0xc119),
     (''HV_SYS_REG_SPSR_EL1'', 0xc200), (''HV_SYS_REG_ELR_EL1'', 0xc201),
     (''HV_SYS_REG_SP_EL0'', 0xc208), (''HV_SYS_REG_AFSR0_EL1'', 0xc288),
     (''HV_SYS_REG_AFSR1_EL1'', 0xc289), (''HV_SYS_REG_ESR_EL1'', 0xc290),
     (''HV_SYS_REG_FAR_EL1'', 0xc300), (''HV_SYS_REG_PAR_EL1'', 0xc3a0),
     (''HV_SYS_REG_MAIR_EL1'', 0xc510), (''HV_SYS_REG_AMAIR_EL1'', 0xc518),
     (''HV_SYS_REG_VBAR_EL1'', 0xc600), (''HV_SYS_REG_CONTEXTIDR_EL1'', 0xc681),
     (''HV_SYS_REG_TPIDR_EL1'', 0xc684), (''HV_SYS_REG_CNTKCTL_EL1'', 0xc708),
     (''HV_SYS_REG_CSSELR_EL1'', 0xd000), (''HV_SYS_REG_TPIDR_EL0'', 0xde82),
     (''HV_SYS_REG_TPIDRRO_EL0'', 0xde83), (''HV_SYS_REG_CNTP_CTL_EL0'', 0xdf11),
     (''HV_SYS_REG_CNTP_CVAL_EL0'', 0xdf12), (''HV_SYS_REG_CNTV_CTL_EL0'', 0xdf19),
     (''HV_SYS_REG_CNTV_CVAL_EL0'', 0xdf1a), (''HV_SYS_REG_SP_EL1'', 0xe208)]"

definition hv_feature_reg_t :: "(string \<times> u32) list" where
  "hv_feature_reg_t =
    [(''HV_FEATURE_REG_ID_AA64DFR0_EL1'', 0), (''HV_FEATURE_REG_ID_AA64DFR1_EL1'', 1),
     (''HV_FEATURE_REG_ID_AA64ISAR0_EL1'', 2), (''HV_FEATURE_REG_ID_AA64ISAR1_EL1'', 3),
     (''HV_FEATURE_REG_ID_AA64MMFR0_EL1'', 4), (''HV_FEATURE_REG_ID_AA64MMFR1_EL1'', 5),
     (''HV_FEATURE_REG_ID_AA64MMFR2_EL1'', 6), (''HV_FEATURE_REG_ID_AA64PFR0_EL1'', 7),
     (''HV_FEATURE_REG_ID_AA64PFR1_EL1'', 8), (''HV_FEATURE_REG_CTR_EL0'', 9),
     (''HV_FEATURE_REG_CLIDR_EL1'', 10), (''HV_FEATURE_REG_DCZID_EL0'', 11)]"

section \<open>General registers\<close>

text \<open>The numbers the enumeration gives are exactly those the code serves: 0 to 34, with FP and LR
  the names of X29 and X30.\<close>

lemma hv_reg_t_numbers: "set (map snd hv_reg_t) = {r. r \<le> 34}"
proof -
  have "r \<in> set (map snd hv_reg_t)" if "r \<le> 34" for r :: u32
  proof -
    from that have "unat r < 35" by (simp add: word_le_nat_alt)
    moreover have "r = of_nat (unat r)" by simp
    ultimately have "r \<in> of_nat ` {..<35}" by (metis image_eqI lessThan_iff)
    then show ?thesis by (auto simp: hv_reg_t_def lessThan_nat_numeral lessThan_Suc)
  qed
  moreover have "list_all (\<lambda>p. snd p \<le> 34) hv_reg_t" by (simp add: hv_reg_t_def)
  ultimately show ?thesis by (auto simp: list_all_iff)
qed

lemma public_regs: "fst (reg_get r s) = (if r \<in> set (map snd hv_reg_t) then HV_SUCCESS else HV_BAD_ARGUMENT)"
proof -
  have "31 < unat r" if "\<not> r \<le> 34" using that by (simp add: word_le_nat_alt)
  moreover have "unat r \<le> 31" if "r \<le> 34" "r \<noteq> 34" "r \<noteq> 32" "r \<noteq> 33"
    using that by (auto simp: word_le_nat_alt word_unat_eq_iff)
  ultimately show ?thesis unfolding hv_reg_t_numbers
    by (auto simp: reg_get_def reg_word_def masks split: option.splits)
qed

section \<open>Lookup\<close>

text \<open>The breakpoint and watchpoint registers, told by their names and by their encodings.\<close>

definition debug_name :: "string \<Rightarrow> bool" where
  "debug_name nm \<longleftrightarrow> take 3 (drop 11 nm) = ''DBG''"

definition debug_enc :: "u16 \<Rightarrow> bool" where
  "debug_enc e \<longleftrightarrow> e < 0x8080 \<and> e \<noteq> 0x8010 \<and> e \<noteq> 0x8012"

lemma debug_names: "(nm, e) \<in> set hv_sys_reg_t \<Longrightarrow> debug_name nm = debug_enc e"
proof -
  have "list_all (\<lambda>(nm, e). debug_name nm = debug_enc e) hv_sys_reg_t"
    by (simp add: hv_sys_reg_t_def debug_name_def debug_enc_def)
  then show "(nm, e) \<in> set hv_sys_reg_t \<Longrightarrow> debug_name nm = debug_enc e" by (auto simp: list_all_iff)
qed

text \<open>The enumeration and the switch list the same encodings, the two physical timer registers
  later in the switch.\<close>

lemma enum_cases:
  "map snd hv_sys_reg_t = (let k = map fst kTable_cases in take 109 k @ drop 112 k @ take 3 (drop 109 k))"
  by (simp add: hv_sys_reg_t_def kTable_cases_def)

lemma enum_in_cases: "(nm, e) \<in> set hv_sys_reg_t \<Longrightarrow> e \<in> set (map fst kTable_cases)"
proof -
  assume "(nm, e) \<in> set hv_sys_reg_t"
  then have "e \<in> set (map snd hv_sys_reg_t)" by force
  then show ?thesis unfolding enum_cases Let_def set_append
    by (blast dest: in_set_takeD in_set_dropD)
qed

text \<open>The hand-kept tables hold none of them, so the switch decides.\<close>

lemma hand_kept_above: "list_all (\<lambda>d. 0xe000 \<le> encoding d \<and> encoding d \<noteq> 0xe208) (kAppleTable @ kEl2Table)"
  by (simp add: kAppleTable_def kEl2Table_def)

lemma cases_below: "list_all (\<lambda>e. e < 0xe000 \<or> e = 0xe208) (map fst kTable_cases)"
  by (simp add: kTable_cases_def)

lemma not_hand_kept: "e \<in> set (map fst kTable_cases) \<Longrightarrow> sysreg_lookup_apple e = None"
proof -
  assume "e \<in> set (map fst kTable_cases)"
  then have "e < 0xe000 \<or> e = 0xe208" using cases_below unfolding list_all_iff by blast
  moreover have "0xe000 \<le> encoding d \<and> encoding d \<noteq> 0xe208" if "d \<in> set (kAppleTable @ kEl2Table)" for d
    using hand_kept_above that unfolding list_all_iff by blast
  ultimately have "encoding d \<noteq> e" if "d \<in> set (kAppleTable @ kEl2Table)" for d
    using that by (metis leD)
  then show ?thesis
    by (auto simp: sysreg_lookup_apple_def find_desc_def find_None_iff split: option.splits)
qed

lemma switch_knows:
  assumes "e \<in> set (map fst kTable_cases)"
  shows "\<exists>d \<in> set kTable. sysreg_lookup e = Some d \<and> encoding d = e"
proof -
  obtain i where i: "map_of kTable_cases e = Some i"
    using assms by (metis list.set_map map_of_eq_None_iff not_None_eq)
  from kTable_case [OF i] not_hand_kept [OF assms] i show ?thesis
    by (auto simp: sysreg_lookup_def)
qed

lemma debug_without_slot:
  "list_all (\<lambda>d. if kind d = 5 then (ohv_id_slot (encoding d) = None) = debug_enc (encoding d)
     else \<not> debug_enc (encoding d) \<and> encoding d \<noteq> 0xe08a) kTable"
  by (simp add: kTable_def ohv_id_slot_def debug_enc_def kCapsMap_def masks)

lemma hv_sys_reg_t_distinct: "distinct (map fst hv_sys_reg_names)"
  by (simp add: hv_sys_reg_names_def)

lemma enum_names:
  "filter (\<lambda>p. snd p \<noteq> 0xdf11 \<and> snd p \<noteq> 0xdf12) hv_sys_reg_t = map prod.swap hv_sys_reg_names"
  by (simp add: hv_sys_reg_t_def hv_sys_reg_names_def)

lemma sysreg_name_of:
  assumes "(nm, e) \<in> set hv_sys_reg_t"
  shows "sysreg_name e = (if e = 0xdf11 \<or> e = 0xdf12 then ''?'' else nm)"
proof (cases "e = 0xdf11 \<or> e = 0xdf12")
  case True
  have "list_all (\<lambda>p. fst p \<noteq> 0xdf11 \<and> fst p \<noteq> 0xdf12) hv_sys_reg_names"
    by (simp add: hv_sys_reg_names_def)
  then have "map_of hv_sys_reg_names e = None" using True by (auto simp: list_all_iff map_of_eq_None_iff)
  then show ?thesis using True by (simp add: sysreg_name_def)
next
  case False
  then have "(nm, e) \<in> set (filter (\<lambda>p. snd p \<noteq> 0xdf11 \<and> snd p \<noteq> 0xdf12) hv_sys_reg_t)"
    using assms by simp
  then have "(e, nm) \<in> set hv_sys_reg_names" unfolding enum_names by auto
  then have "map_of hv_sys_reg_names e = Some nm" using hv_sys_reg_t_distinct by (rule map_of_is_SomeI [rotated])
  then show ?thesis using False by (simp add: sysreg_name_def)
qed

section \<open>System registers through the entry points\<close>

lemma owned_upd_kept:
  assumes "owned_vcpu me g i = Some n" "slot_kept (g_vcpus g n) t" "g' = upd_slot n (\<lambda>_. t) g"
  shows "owned_vcpu me g' i = Some n"
proof -
  have "used (g_vcpus g' m) = used (g_vcpus g m)" for m
    using assms(2,3) by (simp add: upd_slot_def slot_kept_def)
  then have "owned_vcpu me g' i = owned_vcpu me g i"
    by (simp add: owned_vcpu_def find_vcpu_def assms(3))
  with assms(1) show ?thesis by simp
qed

lemma served_desc:
  assumes "(nm, enc) \<in> set hv_sys_reg_t"
  obtains d where "sysreg_lookup enc = Some d" "written_value enc v = v"
    "if kind d = 5 then (ohv_id_slot enc = None) = debug_name nm else \<not> debug_name nm"
proof -
  obtain d where d: "d \<in> set kTable" "sysreg_lookup enc = Some d" "encoding d = enc"
    using switch_knows [OF enum_in_cases [OF assms]] by blast
  with debug_without_slot have "if kind d = 5 then (ohv_id_slot enc = None) = debug_enc enc
     else \<not> debug_enc enc \<and> enc \<noteq> 0xe08a" unfolding list_all_iff by fastforce
  moreover have "enc \<noteq> 0xe08a" using enum_in_cases [OF assms] cases_below by (auto simp: list_all_iff)
  ultimately show ?thesis using that [OF d(2)] debug_names [OF assms] by (auto simp: written_value_def split: if_splits)
qed

text \<open>What a written register keeps of the value.\<close>

definition kept_value :: "u16 \<Rightarrow> SysRegDesc \<Rightarrow> u64 \<Rightarrow> u64" where
  "kept_value enc d v =
     (if kind d = 5 then (if ohv_id_slot enc = None then 0 else v)
      else if kind d = 7 then v else written_value enc v)"

lemma set_then_get:
  assumes "owned_vcpu me g i = Some n" "\<And>off. sync_keeps w off" "sysreg_lookup enc = Some d"
    and "hv_vcpu_set_sys_reg w me i enc v st g = (r, st1, g1)"
  shows "r = HV_SUCCESS \<and> (\<exists>st2 g2. hv_vcpu_get_sys_reg w me i enc True st1 g1 =
    (HV_SUCCESS, Some (kept_value enc d v), st2, g2))"
proof -
  obtain r0 x st0 s0 where a: "sysreg_access w enc (Some v) st (g_vcpus g n) = (r0, x, st0, s0)"
    by (rule prod_cases4)
  from sysreg_write_read [where enc = enc and w = w and v = v and st = st and s = "g_vcpus g n"]
    assms(2) a assms(3)
  have ok: "r0 = HV_SUCCESS" and rd: "\<exists>st2 s2. sysreg_access w enc None st0 s0 =
     (HV_SUCCESS, Some (kept_value enc d v), st2, s2)" unfolding kept_value_def by auto
  from assms(1,4) a ok have eq: "r = HV_SUCCESS" "st1 = st0" "g1 = upd_slot n (\<lambda>_. s0) g"
    by (auto simp: hv_vcpu_set_sys_reg_def hv_codes)
  have "owned_vcpu me g1 i = Some n" using owned_upd_kept [OF assms(1) slot_kept_sysreg [OF a] eq(3)] .
  moreover have "g_vcpus g1 n = s0" by (simp add: eq upd_slot_def)
  ultimately show ?thesis using rd eq by (auto simp: hv_vcpu_get_sys_reg_def)
qed

text \<open>C20: The system registers through their entry points.  An encoding the table does not
  know is refused with nothing changed (or claimed to be written, when the survey setting asks
  for it).  A known one takes the write and reads back what it keeps of it.  Every register the
  interface publishes is known, and reads back exactly the value written whatever the vCPU's
  state, except for the breakpoint and watchpoint registers, whose writes are accepted and
  dropped and which read as zero; its printed name is its own, except that the two physical
  timer registers print as unknown.\<close>

theorem public_sys_regs:
  assumes "owned_vcpu me g i = Some n" "\<And>off. sync_keeps w off"
    and "hv_vcpu_set_sys_reg w me i enc v st g = (r, st1, g1)"
  shows "(case sysreg_lookup enc of
      None \<Rightarrow> r = (if ohv_env (w_cfg w) cfg_OHV_SURVEY_SYSREG then HV_SUCCESS else HV_UNSUPPORTED)
        \<and> st1 = st \<and> g1 = g
    | Some d \<Rightarrow> r = HV_SUCCESS \<and> (\<exists>st2 g2. hv_vcpu_get_sys_reg w me i enc True st1 g1 =
        (HV_SUCCESS, Some (kept_value enc d v), st2, g2)))
    \<and> (\<forall>nm. (nm, enc) \<in> set hv_sys_reg_t \<longrightarrow>
        r = HV_SUCCESS
        \<and> (\<exists>st2 g2. hv_vcpu_get_sys_reg w me i enc True st1 g1 =
             (HV_SUCCESS, Some (if debug_name nm then 0 else v), st2, g2))
        \<and> sysreg_name enc = (if enc = 0xdf11 \<or> enc = 0xdf12 then ''?'' else nm))"
proof (rule conjI)
  have "r = (if ohv_env (w_cfg w) cfg_OHV_SURVEY_SYSREG then HV_SUCCESS else HV_UNSUPPORTED)
      \<and> st1 = st \<and> g1 = g" if "sysreg_lookup enc = None"
    using assms(1,3) that by (auto simp: hv_vcpu_set_sys_reg_def sysreg_access_def upd_slot_def)
  then show "case sysreg_lookup enc of
      None \<Rightarrow> r = (if ohv_env (w_cfg w) cfg_OHV_SURVEY_SYSREG then HV_SUCCESS else HV_UNSUPPORTED)
        \<and> st1 = st \<and> g1 = g
    | Some d \<Rightarrow> r = HV_SUCCESS \<and> (\<exists>st2 g2. hv_vcpu_get_sys_reg w me i enc True st1 g1 =
        (HV_SUCCESS, Some (kept_value enc d v), st2, g2))"
    using set_then_get [OF assms(1,2) _ assms(3)] by (simp split: option.split)
next
  have "r = HV_SUCCESS
        \<and> (\<exists>st2 g2. hv_vcpu_get_sys_reg w me i enc True st1 g1 =
             (HV_SUCCESS, Some (if debug_name nm then 0 else v), st2, g2))
        \<and> sysreg_name enc = (if enc = 0xdf11 \<or> enc = 0xdf12 then ''?'' else nm)"
    if p: "(nm, enc) \<in> set hv_sys_reg_t" for nm
  proof -
    obtain d where d: "sysreg_lookup enc = Some d" "written_value enc v = v"
      "if kind d = 5 then (ohv_id_slot enc = None) = debug_name nm else \<not> debug_name nm"
      by (rule served_desc [OF p])
    from set_then_get [OF assms(1,2) d(1) assms(3)] d(2,3) sysreg_name_of [OF p]
    show ?thesis by (auto simp: kept_value_def split: if_splits)
  qed
  then show "\<forall>nm. (nm, enc) \<in> set hv_sys_reg_t \<longrightarrow>
        r = HV_SUCCESS
        \<and> (\<exists>st2 g2. hv_vcpu_get_sys_reg w me i enc True st1 g1 =
             (HV_SUCCESS, Some (if debug_name nm then 0 else v), st2, g2))
        \<and> sysreg_name enc = (if enc = 0xdf11 \<or> enc = 0xdf12 then ''?'' else nm)" by blast
qed

text \<open>The witness: the physical timer's compare value.\<close>

theorem public_sys_regs_witness:
  "\<exists>st1 g1 st2 g2. hv_vcpu_set_sys_reg test_world 5 0 0xdf12 77 initial_statics (one_vcpu new_VcpuSlot) = (HV_SUCCESS, st1, g1)
     \<and> hv_vcpu_get_sys_reg test_world 5 0 0xdf12 True st1 g1 = (HV_SUCCESS, Some 77, st2, g2)
     \<and> sysreg_name 0xdf12 = ''?''"
proof -
  have m: "(''HV_SYS_REG_CNTP_CVAL_EL0'', 0xdf12) \<in> set hv_sys_reg_t"
    by (simp add: hv_sys_reg_t_def)
  have y: "sync_keeps test_world off" for off by (simp add: sync_keeps_def test_world_def)
  obtain r st1 g1 where s: "hv_vcpu_set_sys_reg test_world 5 0 0xdf12 77 initial_statics (one_vcpu new_VcpuSlot)
      = (r, st1, g1)" by (rule prod_cases3)
  from public_sys_regs [OF one_vcpu_owned y s, THEN conjunct2, rule_format, OF m] s
  show ?thesis by (auto simp: debug_name_def)
qed

section \<open>Feature registers\<close>

text \<open>The encodings the feature registers' names stand for: those of the system registers of the
  same name, and of the three the system register enumeration leaves out.\<close>

definition feature_encs :: "(string \<times> u16) list" where
  "feature_encs =
    [(''ID_AA64DFR0_EL1'', 0xc028), (''ID_AA64DFR1_EL1'', 0xc029), (''ID_AA64ISAR0_EL1'', 0xc030),
     (''ID_AA64ISAR1_EL1'', 0xc031), (''ID_AA64MMFR0_EL1'', 0xc038), (''ID_AA64MMFR1_EL1'', 0xc039),
     (''ID_AA64MMFR2_EL1'', 0xc03a), (''ID_AA64PFR0_EL1'', 0xc020), (''ID_AA64PFR1_EL1'', 0xc021),
     (''CTR_EL0'', 0xd801), (''CLIDR_EL1'', 0xc801), (''DCZID_EL0'', 0xd807)]"

lemma feature_encs_published:
  "map (\<lambda>(n, e). (''HV_SYS_REG_'' @ n, e)) (take 9 feature_encs) =
    (let ids = filter (\<lambda>p. 0xc020 \<le> snd p \<and> snd p < 0xc080) hv_sys_reg_t in drop 2 ids @ take 2 ids)"
  by (simp add: feature_encs_def hv_sys_reg_t_def)

lemma feature_names: "map (\<lambda>p. drop 15 (fst p)) hv_feature_reg_t = map fst feature_encs"
  by (simp add: hv_feature_reg_t_def feature_encs_def)

lemma feature_numbers: "list_all2 (\<lambda>(nm, k) (_, e). k < 12 \<and> e \<noteq> HV_SYS_REG_MIDR_EL1
     \<and> map_of kCapsMap e = Some (unat k)) hv_feature_reg_t feature_encs"
  by (simp add: hv_feature_reg_t_def feature_encs_def kCapsMap_def masks)

text \<open>A feature register is the identification register of its own name: what a
  VMM reads from the configuration is what the guest reads under that register's encoding, but
  for bits 55 to 52 of ID_AA64ISAR1_EL1, which only the configuration shows.\<close>

theorem feature_regs_agree:
  assumes "j < length feature_encs" "hv_feature_reg_t ! j = (nm, k)" "feature_encs ! j = (nm', e)"
    and "ohv_caps_cached K g s = (caps, g', s')"
  shows "drop 15 nm = nm' \<and> (\<exists>v. hv_vcpu_config_get_feature_reg K True k True ipa g s = (HV_SUCCESS, Some v, g', s')
      \<and> (v XOR ohv_caps_field ipa caps e) AND NOT 0x00F0000000000000 = 0
      \<and> (k = 3 \<or> v = ohv_caps_field ipa caps e))"
proof -
  have l: "j < length hv_feature_reg_t" using assms(1) list_all2_lengthD [OF feature_numbers] by simp
  have n: "drop 15 nm = nm'" using arg_cong [OF feature_names, of "\<lambda>l. l ! j"] l assms(1-3) by simp
  from list_all2_nthD [OF feature_numbers l] assms(2,3)
  have e: "k < 12" "e \<noteq> HV_SYS_REG_MIDR_EL1" "map_of kCapsMap e = Some (unat k)" by auto
  have "\<not> 17 < k" using less_trans [OF _ e(1), of 17] by auto
  then have c: "hv_vcpu_config_get_feature_reg K True k True ipa g s
      = (HV_SUCCESS, Some (ohv_id_reg_for ipa caps (unat k) True), g', s')"
    using assms(4) by (simp add: hv_vcpu_config_get_feature_reg_def)
  have f: "ohv_caps_field ipa caps e = ohv_id_reg_for ipa caps (unat k) False"
    using e(2,3) by (simp add: ohv_caps_field_def)
  have "k = 3" if "unat k = 3" using that word_unat_eq_iff [of k 3] by simp
  then show ?thesis using n c f id_reg_narrowing [of ipa True caps "unat k"] by auto
qed

section \<open>Vector registers\<close>

text \<open>The SIMD registers and the two SME banks the enumerations number.\<close>

definition hv_simd_fp_reg_t :: "(string \<times> u32) list" where
  "hv_simd_fp_reg_t =
    [(''HV_SIMD_FP_REG_Q0'', 0), (''HV_SIMD_FP_REG_Q1'', 1), (''HV_SIMD_FP_REG_Q2'', 2),
     (''HV_SIMD_FP_REG_Q3'', 3), (''HV_SIMD_FP_REG_Q4'', 4), (''HV_SIMD_FP_REG_Q5'', 5),
     (''HV_SIMD_FP_REG_Q6'', 6), (''HV_SIMD_FP_REG_Q7'', 7), (''HV_SIMD_FP_REG_Q8'', 8),
     (''HV_SIMD_FP_REG_Q9'', 9), (''HV_SIMD_FP_REG_Q10'', 10), (''HV_SIMD_FP_REG_Q11'', 11),
     (''HV_SIMD_FP_REG_Q12'', 12), (''HV_SIMD_FP_REG_Q13'', 13), (''HV_SIMD_FP_REG_Q14'', 14),
     (''HV_SIMD_FP_REG_Q15'', 15), (''HV_SIMD_FP_REG_Q16'', 16), (''HV_SIMD_FP_REG_Q17'', 17),
     (''HV_SIMD_FP_REG_Q18'', 18), (''HV_SIMD_FP_REG_Q19'', 19), (''HV_SIMD_FP_REG_Q20'', 20),
     (''HV_SIMD_FP_REG_Q21'', 21), (''HV_SIMD_FP_REG_Q22'', 22), (''HV_SIMD_FP_REG_Q23'', 23),
     (''HV_SIMD_FP_REG_Q24'', 24), (''HV_SIMD_FP_REG_Q25'', 25), (''HV_SIMD_FP_REG_Q26'', 26),
     (''HV_SIMD_FP_REG_Q27'', 27), (''HV_SIMD_FP_REG_Q28'', 28), (''HV_SIMD_FP_REG_Q29'', 29),
     (''HV_SIMD_FP_REG_Q30'', 30), (''HV_SIMD_FP_REG_Q31'', 31)]"

definition hv_sme_z_reg_t :: "(string \<times> u32) list" where
  "hv_sme_z_reg_t =
    [(''HV_SME_Z_REG_0'', 0), (''HV_SME_Z_REG_1'', 1), (''HV_SME_Z_REG_2'', 2),
     (''HV_SME_Z_REG_3'', 3), (''HV_SME_Z_REG_4'', 4), (''HV_SME_Z_REG_5'', 5),
     (''HV_SME_Z_REG_6'', 6), (''HV_SME_Z_REG_7'', 7), (''HV_SME_Z_REG_8'', 8),
     (''HV_SME_Z_REG_9'', 9), (''HV_SME_Z_REG_10'', 10), (''HV_SME_Z_REG_11'', 11),
     (''HV_SME_Z_REG_12'', 12), (''HV_SME_Z_REG_13'', 13), (''HV_SME_Z_REG_14'', 14),
     (''HV_SME_Z_REG_15'', 15), (''HV_SME_Z_REG_16'', 16), (''HV_SME_Z_REG_17'', 17),
     (''HV_SME_Z_REG_18'', 18), (''HV_SME_Z_REG_19'', 19), (''HV_SME_Z_REG_20'', 20),
     (''HV_SME_Z_REG_21'', 21), (''HV_SME_Z_REG_22'', 22), (''HV_SME_Z_REG_23'', 23),
     (''HV_SME_Z_REG_24'', 24), (''HV_SME_Z_REG_25'', 25), (''HV_SME_Z_REG_26'', 26),
     (''HV_SME_Z_REG_27'', 27), (''HV_SME_Z_REG_28'', 28), (''HV_SME_Z_REG_29'', 29),
     (''HV_SME_Z_REG_30'', 30), (''HV_SME_Z_REG_31'', 31)]"

definition hv_sme_p_reg_t :: "(string \<times> u32) list" where
  "hv_sme_p_reg_t =
    [(''HV_SME_P_REG_0'', 0), (''HV_SME_P_REG_1'', 1), (''HV_SME_P_REG_2'', 2),
     (''HV_SME_P_REG_3'', 3), (''HV_SME_P_REG_4'', 4), (''HV_SME_P_REG_5'', 5),
     (''HV_SME_P_REG_6'', 6), (''HV_SME_P_REG_7'', 7), (''HV_SME_P_REG_8'', 8),
     (''HV_SME_P_REG_9'', 9), (''HV_SME_P_REG_10'', 10), (''HV_SME_P_REG_11'', 11),
     (''HV_SME_P_REG_12'', 12), (''HV_SME_P_REG_13'', 13), (''HV_SME_P_REG_14'', 14),
     (''HV_SME_P_REG_15'', 15)]"

lemma upto_31: "{r :: u32. r \<le> 31} = of_nat ` {..<32}"
proof -
  have "r \<in> of_nat ` {..<32}" if "r \<le> 31" for r :: u32
  proof -
    from that have "unat r \<in> {..<32}" by (simp add: word_le_nat_alt)
    then have "of_nat (unat r) \<in> (of_nat ` {..<32} :: u32 set)" by (rule imageI)
    then show ?thesis by simp
  qed
  moreover have "of_nat n \<le> (31 :: u32)" if "n < 32" for n
    using that by (simp add: word_le_nat_alt unat_of_nat take_bit_nat_eq_self)
  ultimately show ?thesis by auto
qed

lemma vector_numbers:
  "set (map snd hv_simd_fp_reg_t) = {r. r \<le> 31}" "set (map snd hv_sme_z_reg_t) = {r. r \<le> 31}"
  unfolding upto_31 by (simp_all add: hv_simd_fp_reg_t_def hv_sme_z_reg_t_def lessThan_nat_numeral lessThan_Suc insert_commute)

lemma off_q_apart: "r \<noteq> q \<Longrightarrow> off_q r + 16 \<le> off_q q \<or> off_q q + 16 \<le> off_q r"
  using word_unat_eq_iff [of r q] by (auto simp: off_q_def)

text \<open>The published SIMD registers are those the library serves: sixteen bytes written to one are
  read back, the others and the general registers read as before, and any other number is refused
  with nothing changed.\<close>

theorem public_simd_regs:
  assumes "hv_vcpu_set_simd_fp_reg me g i r bs = (e, g')" "owned_vcpu me g i = Some n" "length bs = 16"
  shows "if r \<in> set (map snd hv_simd_fp_reg_t)
    then e = HV_SUCCESS \<and> hv_vcpu_get_simd_fp_reg me g' i r True = (HV_SUCCESS, Some bs)
      \<and> (\<forall>q. q \<noteq> r \<longrightarrow> hv_vcpu_get_simd_fp_reg me g' i q True = hv_vcpu_get_simd_fp_reg me g i q True)
      \<and> (\<forall>q. hv_vcpu_get_reg me g' i q True = hv_vcpu_get_reg me g i q True)
    else e = HV_BAD_ARGUMENT \<and> g_vcpus g' = g_vcpus g"
proof (cases "r \<le> 31")
  case True
  define t where "t = (g_vcpus g n)\<lparr>ctx := wr_bytes (ctx (g_vcpus g n)) (off_q r) bs\<rparr>"
  have e: "e = HV_SUCCESS" "g' = upd_slot n (\<lambda>_. t) g"
    using assms(1,2) leD [OF True] by (simp_all add: hv_vcpu_set_simd_fp_reg_def slot_set_def t_def)
  have o: "owned_vcpu me g' i = Some n"
    using assms(2) unfolding e(2) by (subst owned_upd) (simp_all add: t_def)
  have t: "g_vcpus g' n = t" by (simp add: e(2) upd_slot_def)
  have b: "0x140 \<le> off_q r" "off_q r + 16 \<le> 0x340"
    using True by (simp_all add: off_q_def layout word_le_nat_alt)
  have g: "reg_get q t = reg_get q (g_vcpus g n)" for q
  proof -
    have "ctx_rd t a = ctx_rd (g_vcpus g n) a" if "a + 8 \<le> 0x140" for a
      using that b assms(3) by (simp add: t_def ctx_rd_def)
    moreover have "rd32 (ctx t) a = rd32 (ctx (g_vcpus g n)) a" if "a + 4 \<le> 0x140 \<or> 0x340 \<le> a" for a
      using that b assms(3) by (auto simp: t_def)
    ultimately show ?thesis
      by (auto simp: reg_get_def reg_word_def slot_cpsr_def off_x_def layout masks split: option.split)
  qed
  have s: "hv_vcpu_get_simd_fp_reg me g' i q True = hv_vcpu_get_simd_fp_reg me g i q True" if "q \<noteq> r" for q
    using off_q_apart [OF that] assms(3)
    by (auto simp: hv_vcpu_get_simd_fp_reg_def slot_get_owned [OF o] slot_get_owned [OF assms(2)] t) (auto simp: t_def)
  show ?thesis
    using True e(1) s g assms(3) unfolding vector_numbers
    by (simp add: hv_vcpu_get_simd_fp_reg_def hv_vcpu_get_reg_def slot_get_owned [OF o] slot_get_owned [OF assms(2)] t)
       (simp add: t_def)
next
  case False
  then have "31 < r" by simp
  with assms(1,2) have "e = HV_BAD_ARGUMENT" "g_vcpus g' = g_vcpus g"
    by (auto simp: hv_vcpu_set_simd_fp_reg_def slot_set_def upd_slot_def)
  with False show ?thesis unfolding vector_numbers by simp
qed

lemma public_z_regs: "svl \<le> len \<Longrightarrow> z_span r len svl \<noteq> None \<longleftrightarrow> r \<in> set (map snd hv_sme_z_reg_t)"
  unfolding vector_numbers by (auto simp: z_span_def)

end
