(* ===== verification/Ohv_Handles.thy ===== *)
theory Ohv_Handles
  imports Ohv_Api
begin

text \<open>
  The owning handles of \<open>include/openhyp/openhyp.hpp\<close>: the \<open>Vm\<close> and \<open>Vcpu\<close> objects of a C++ program,
  with the constructors, destructors, moves and assignments that say which object destroys what.

  An object is a number; \<open>h_vm\<close> holds the \<open>alive_\<close> flag of each living \<open>Vm\<close>, \<open>h_vcpu\<close> the \<open>id_\<close> of each
  living \<open>Vcpu\<close>.  A constructor that throws leaves no object.  What a destructor is answered is
  dropped, as the code drops it.

  The lemmas show that the objects of a program that destroys its VM last own exactly the vCPUs in
  use, each by one object, and what becomes of a vCPU handle that outlives its VM.
\<close>

section \<open>Objects\<close>

record handles =
  h_vm :: "nat \<rightharpoonup> bool"
  h_vcpu :: "nat \<rightharpoonup> u64"

definition kInvalid :: u64 where "kInvalid = NOT 0"

type_synonym 'k program = "handles \<times> 'k process"

definition Vm_new :: "'k kernel \<Rightarrow> hv_vm_config_s option \<Rightarrow> nat \<Rightarrow> 'k program \<Rightarrow> hv_return \<times> 'k program" where
  "Vm_new K config o' hp =
     (case hv_vm_create K config (p_vm (snd hp)) (p_kernel (snd hp)) of
        (r, g, k) \<Rightarrow>
          (r, (if r = HV_SUCCESS then (fst hp)\<lparr>h_vm := (h_vm (fst hp))(o' \<mapsto> True)\<rparr> else fst hp,
               (snd hp)\<lparr>p_vm := g, p_kernel := k\<rparr>)))"

definition Vm_delete :: "'k kernel \<Rightarrow> nat \<Rightarrow> 'k program \<Rightarrow> 'k program" where
  "Vm_delete K o' hp =
     ((fst hp)\<lparr>h_vm := (h_vm (fst hp))(o' := None)\<rparr>,
      if h_vm (fst hp) o' = Some True
      then (case hv_vm_destroy K (p_vm (snd hp)) (p_kernel (snd hp)) of
              (r, g, k) \<Rightarrow> (snd hp)\<lparr>p_vm := g, p_kernel := k\<rparr>)
      else snd hp)"

text \<open>The new object takes the flag, the old one keeps \<open>false\<close>.\<close>

definition Vm_move :: "nat \<Rightarrow> nat \<Rightarrow> handles \<Rightarrow> handles" where
  "Vm_move from' to' h = h\<lparr>h_vm := (h_vm h)(to' := h_vm h from', from' := Some False)\<rparr>"

definition Vm_assign :: "nat \<Rightarrow> nat \<Rightarrow> handles \<Rightarrow> handles" where
  "Vm_assign o' p' h = h\<lparr>h_vm := (h_vm h)(o' := h_vm h p', p' := h_vm h o')\<rparr>"

definition Vcpu_new :: "'k kernel \<Rightarrow> nat \<Rightarrow> nat \<Rightarrow> 'k program \<Rightarrow> hv_return \<times> 'k program" where
  "Vcpu_new K me o' hp =
     (case hv_vcpu_create K (g_ohv_cfg (p_cfg (snd hp))) me True True (p_vm (snd hp)) (p_kernel (snd hp)) of
        (r, out, g, k) \<Rightarrow>
          (r, (if r = HV_SUCCESS
               then (fst hp)\<lparr>h_vcpu := (h_vcpu (fst hp))(o' \<mapsto> case out of Some n \<Rightarrow> of_nat n | None \<Rightarrow> kInvalid)\<rparr>
               else fst hp,
               (snd hp)\<lparr>p_vm := g, p_kernel := k\<rparr>)))"

definition Vcpu_delete :: "'k kernel \<Rightarrow> nat \<Rightarrow> nat \<Rightarrow> 'k program \<Rightarrow> 'k program" where
  "Vcpu_delete K me o' hp =
     ((fst hp)\<lparr>h_vcpu := (h_vcpu (fst hp))(o' := None)\<rparr>,
      case h_vcpu (fst hp) o' of
        None \<Rightarrow> snd hp
      | Some i \<Rightarrow>
          if i = kInvalid then snd hp
          else (case hv_vcpu_destroy K me i (p_vm (snd hp)) (p_kernel (snd hp)) of
                  (r, g, k) \<Rightarrow> (snd hp)\<lparr>p_vm := g, p_kernel := k\<rparr>))"

definition Vcpu_move :: "nat \<Rightarrow> nat \<Rightarrow> handles \<Rightarrow> handles" where
  "Vcpu_move from' to' h = h\<lparr>h_vcpu := (h_vcpu h)(to' := h_vcpu h from', from' := Some kInvalid)\<rparr>"

definition Vcpu_assign :: "nat \<Rightarrow> nat \<Rightarrow> handles \<Rightarrow> handles" where
  "Vcpu_assign o' p' h = h\<lparr>h_vcpu := (h_vcpu h)(o' := h_vcpu h p', p' := h_vcpu h o')\<rparr>"

section \<open>Programs\<close>

text \<open>The steps of a program, by any thread: objects are constructed where there is none and used
  while they live.  A \<open>Vm\<close> is destroyed when no \<open>Vcpu\<close> still holds an id, which is what the scopes of
  a program that declares its VM first do.  A call of the library that neither creates nor destroys
  is a step too.\<close>

definition lifecycle_kept :: "'k process \<Rightarrow> 'k process \<Rightarrow> bool" where
  "lifecycle_kept p q \<longleftrightarrow> g_vm_alive (p_vm q) = g_vm_alive (p_vm p)
     \<and> (\<forall>n < 64. used (g_vcpus (p_vm q) n) = used (g_vcpus (p_vm p) n))"

inductive raii_step :: "'k kernel \<Rightarrow> environment \<Rightarrow> 'k program \<Rightarrow> 'k program \<Rightarrow> bool"
  for K :: "'k kernel" and getenv :: environment where
  step_Vm_new: "h_vm (fst hp) o' = None \<Longrightarrow> Vm_new K config o' hp = (r, hp') \<Longrightarrow> raii_step K getenv hp hp'"
| step_Vm_delete: "h_vm (fst hp) o' \<noteq> None \<Longrightarrow> \<forall>v i. h_vcpu (fst hp) v = Some i \<longrightarrow> i = kInvalid
    \<Longrightarrow> raii_step K getenv hp (Vm_delete K o' hp)"
| step_Vm_move: "h_vm h o' \<noteq> None \<Longrightarrow> h_vm h p' = None \<Longrightarrow> raii_step K getenv (h, p) (Vm_move o' p' h, p)"
| step_Vm_assign: "h_vm h o' \<noteq> None \<Longrightarrow> h_vm h p' \<noteq> None \<Longrightarrow> raii_step K getenv (h, p) (Vm_assign o' p' h, p)"
| step_Vcpu_new: "h_vcpu (fst hp) o' = None \<Longrightarrow> Vcpu_new K me o' hp = (r, hp') \<Longrightarrow> raii_step K getenv hp hp'"
| step_Vcpu_delete: "h_vcpu (fst hp) o' \<noteq> None \<Longrightarrow> raii_step K getenv hp (Vcpu_delete K me o' hp)"
| step_Vcpu_move: "h_vcpu h o' \<noteq> None \<Longrightarrow> h_vcpu h p' = None \<Longrightarrow> raii_step K getenv (h, p) (Vcpu_move o' p' h, p)"
| step_Vcpu_assign: "h_vcpu h o' \<noteq> None \<Longrightarrow> h_vcpu h p' \<noteq> None \<Longrightarrow> raii_step K getenv (h, p) (Vcpu_assign o' p' h, p)"
| step_call: "api_step K getenv p q \<Longrightarrow> lifecycle_kept p q \<Longrightarrow> raii_step K getenv (h, p) (h, q)"

inductive raii_reach :: "'k kernel \<Rightarrow> environment \<Rightarrow> 'k \<Rightarrow> 'k program \<Rightarrow> bool"
  for K :: "'k kernel" and getenv :: environment and k0 :: 'k where
  raii_start: "raii_reach K getenv k0 (\<lparr>h_vm = Map.empty, h_vcpu = Map.empty\<rparr>, process_start getenv k0)"
| raii_more: "raii_reach K getenv k0 hp \<Longrightarrow> raii_step K getenv hp hp' \<Longrightarrow> raii_reach K getenv k0 hp'"

section \<open>Ownership\<close>

definition holds :: "handles \<Rightarrow> nat \<Rightarrow> u64 \<Rightarrow> bool" where
  "holds h v i \<longleftrightarrow> h_vcpu h v = Some i \<and> i \<noteq> kInvalid"

definition holds_vm :: "handles \<Rightarrow> nat \<Rightarrow> bool" where
  "holds_vm h o' \<longleftrightarrow> h_vm h o' = Some True"

text \<open>Each vCPU in use is held by one object and each id held is that of a vCPU in use; at most one
  object holds the VM, and then there is one.\<close>

definition owns :: "handles \<Rightarrow> ohv_vm_state \<Rightarrow> bool" where
  "owns h g \<longleftrightarrow>
     (\<forall>v i. holds h v i \<longrightarrow> unat i < 64 \<and> used (g_vcpus g (unat i)))
     \<and> (\<forall>n < 64. used (g_vcpus g n) \<longrightarrow> (\<exists>v. holds h v (of_nat n)))
     \<and> (\<forall>v w i. holds h v i \<and> holds h w i \<longrightarrow> v = w)
     \<and> (\<forall>o' p'. holds_vm h o' \<and> holds_vm h p' \<longrightarrow> o' = p')
     \<and> (\<forall>o'. holds_vm h o' \<longrightarrow> g_vm_alive g)"

lemma small_id: "n < 64 \<Longrightarrow> unat (of_nat n :: u64) = n"
  by (simp add: unat_of_nat)

lemma kInvalid_value: "kInvalid = 0xffffffffffffffff"
  by code_simp

lemma valid_id: "n < 64 \<Longrightarrow> (of_nat n :: u64) \<noteq> kInvalid"
proof
  assume n: "n < 64" "(of_nat n :: u64) = kInvalid"
  then have "unat kInvalid = n" using small_id by metis
  with n(1) show False by (simp add: kInvalid_value)
qed

lemma owns_cong:
  assumes "g_vm_alive g' = g_vm_alive g" "\<forall>n < 64. used (g_vcpus g' n) = used (g_vcpus g n)"
  shows "owns h g' = owns h g"
  using assms unfolding owns_def by auto

text \<open>Moving and assigning permute who holds what.\<close>

definition exchange :: "nat \<Rightarrow> nat \<Rightarrow> nat \<Rightarrow> nat" where
  "exchange a b v = (if v = a then b else if v = b then a else v)"

lemma exchange_twice [simp]: "exchange a b (exchange a b v) = v"
  by (simp add: exchange_def)

lemma owns_permuted:
  assumes "owns h g"
    and "\<And>v i. holds h' v i = holds h (f v) i" "\<And>v. f (f v) = v"
    and "\<And>v. holds_vm h' v = holds_vm h (e v)" "\<And>v. e (e v) = v"
  shows "owns h' g"
proof -
  have used: "\<forall>v i. holds h v i \<longrightarrow> unat i < 64 \<and> used (g_vcpus g (unat i))"
    and held: "\<forall>n < 64. used (g_vcpus g n) \<longrightarrow> (\<exists>v. holds h v (of_nat n))"
    and one: "\<forall>v w i. holds h v i \<and> holds h w i \<longrightarrow> v = w"
    and vm: "\<forall>o' p'. holds_vm h o' \<and> holds_vm h p' \<longrightarrow> o' = p'" "\<forall>o'. holds_vm h o' \<longrightarrow> g_vm_alive g"
    using assms(1) unfolding owns_def by simp_all
  have inj: "f v = f w \<Longrightarrow> v = w" "e v = e w \<Longrightarrow> v = w" for v w
    by (metis assms(3), metis assms(5))
  have "\<forall>n < 64. used (g_vcpus g n) \<longrightarrow> (\<exists>v. holds h' v (of_nat n))"
  proof (intro allI impI)
    fix n :: nat assume "n < 64" "used (g_vcpus g n)"
    with held obtain v where "holds h v (of_nat n)" by blast
    then have "holds h' (f v) (of_nat n)" by (simp add: assms(2,3))
    then show "\<exists>v. holds h' v (of_nat n)" ..
  qed
  then show ?thesis using used one vm inj unfolding owns_def assms(2,4) by blast
qed

lemma owns_Vm_move:
  assumes "owns h g" "h_vm h p' = None"
  shows "owns (Vm_move o' p' h) g"
  by (rule owns_permuted [OF assms(1), where f = "\<lambda>v. v" and e = "exchange o' p'"])
     (use assms(2) in \<open>auto simp: holds_def holds_vm_def Vm_move_def exchange_def\<close>)

lemma owns_Vm_assign: "owns h g \<Longrightarrow> owns (Vm_assign o' p' h) g"
  by (erule owns_permuted [where f = "\<lambda>v. v" and e = "exchange o' p'"])
     (auto simp: holds_def holds_vm_def Vm_assign_def exchange_def)

lemma owns_Vcpu_move:
  assumes "owns h g" "h_vcpu h p' = None"
  shows "owns (Vcpu_move o' p' h) g"
  by (rule owns_permuted [OF assms(1), where e = "\<lambda>v. v" and f = "exchange o' p'"])
     (use assms(2) in \<open>auto simp: holds_def holds_vm_def Vcpu_move_def exchange_def\<close>)

lemma owns_Vcpu_assign: "owns h g \<Longrightarrow> owns (Vcpu_assign o' p' h) g"
  by (erule owns_permuted [where e = "\<lambda>v. v" and f = "exchange o' p'"])
     (auto simp: holds_def holds_vm_def Vcpu_assign_def exchange_def)

lemma find_vcpu_held: "unat i < 64 \<Longrightarrow> used (g_vcpus g (unat i)) \<Longrightarrow> find_vcpu g i = Some (unat i)"
  by (simp add: find_vcpu_def kMaxVcpuIds_def word_le_nat_alt)

lemma owns_Vcpu_new:
  assumes "Vcpu_new K me o' (h, p) = (r, h', p')" "owns h (p_vm p)" "h_vcpu h o' = None"
  shows "owns h' (p_vm p')"
proof -
  obtain out g k where c: "hv_vcpu_create K (g_ohv_cfg (p_cfg p)) me True True (p_vm p) (p_kernel p) = (r, out, g, k)"
    using assms(1) by (auto simp: Vcpu_new_def split: prod.splits)
  show ?thesis
  proof (cases "r = HV_SUCCESS")
    case False
    then have "g = p_vm p" using c by (auto simp: hv_vcpu_create_def Let_def split: if_splits option.splits prod.splits)
    with False c assms(1,2) show ?thesis by (auto simp: Vcpu_new_def)
  next
    case True
    obtain n where n: "free_slot (p_vm p) = Some n"
      using c True by (cases "free_slot (p_vm p)") (simp_all add: hv_vcpu_create_def split: if_splits)
    from create_success [OF c [unfolded True] n] obtain m mapped where
      g: "out = Some n" "g = (upd_slot n (vcpu_init (g_ohv_cfg (p_cfg p)) (p_vm p) me n m mapped) (p_vm p))
        \<lparr>tl_current_vcpu := (tl_current_vcpu (p_vm p))(me := Some n)\<rparr>" by blast
    from free_slot_Some [OF n] have f: "n < 64" "\<not> used (g_vcpus (p_vm p) n)" by simp_all
    have u: "used (g_vcpus g j) = (if j = n then True else used (g_vcpus (p_vm p) j))" "g_vm_alive g = g_vm_alive (p_vm p)" for j
      by (simp_all add: g(2) upd_slot_def vcpu_init_keeps_request)
    have h: "h' = h\<lparr>h_vcpu := (h_vcpu h)(o' \<mapsto> of_nat n)\<rparr>" "p_vm p' = g"
      using assms(1) c True g(1) by (auto simp: Vcpu_new_def)
    have w: "holds h' v i = (if v = o' then i = of_nat n else holds h v i)" "holds_vm h' = holds_vm h" for v i
      using valid_id [OF f(1)] by (auto simp: h holds_def holds_vm_def)
    have fresh: "\<not> holds h v (of_nat n)" for v
      using assms(2) f small_id [OF f(1)] unfolding owns_def by metis
    have no: "\<not> holds h o' i" for i using assms(3) by (simp add: holds_def)
    show ?thesis
      unfolding owns_def h(2) u w
      using assms(2) fresh no small_id [OF f(1)] f(1) unfolding owns_def by (auto split: if_splits) metis+
  qed
qed

lemma owns_Vcpu_delete:
  assumes "owns h (p_vm p)" "Vcpu_delete K me o' (h, p) = (h', p')"
  shows "owns h' (p_vm p')"
proof (cases "\<exists>i. holds h o' i")
  case False
  then have s: "holds h' = holds h" "holds_vm h' = holds_vm h" "p' = p"
    using assms(2) by (auto simp: Vcpu_delete_def holds_def holds_vm_def fun_eq_iff split: option.splits if_splits)
  show ?thesis using assms(1) unfolding owns_def s .
next
  case True
  then obtain i where i: "holds h o' i" by blast
  obtain r g k where d: "hv_vcpu_destroy K me i (p_vm p) (p_kernel p) = (r, g, k)" by (rule prod_cases3)
  have n: "unat i < 64" "used (g_vcpus (p_vm p) (unat i))" using assms(1) i unfolding owns_def by blast+
  have h: "h' = h\<lparr>h_vcpu := (h_vcpu h)(o' := None)\<rparr>" "p_vm p' = g"
    using assms(2) i d by (auto simp: Vcpu_delete_def holds_def)
  have w: "holds h' v j = (v \<noteq> o' \<and> holds h v j)" "holds_vm h' = holds_vm h" for v j
    by (auto simp: h holds_def holds_vm_def)
  have u: "used (g_vcpus g m) = (m \<noteq> unat i \<and> used (g_vcpus (p_vm p) m))" "g_vm_alive g = g_vm_alive (p_vm p)" for m
    using d by (auto simp: hv_vcpu_destroy_def find_vcpu_held [OF n] upd_slot_def new_VcpuSlot_def Let_def split: prod.splits if_splits)
  have other: "unat j \<noteq> unat i" if "holds h v j" "v \<noteq> o'" for v j
    using assms(1) i that unfolding owns_def by (metis word_unat_eq_iff)
  have kept: "\<exists>v. v \<noteq> o' \<and> holds h v (of_nat m)" if m: "m < 64" "m \<noteq> unat i" "used (g_vcpus (p_vm p) m)" for m
  proof -
    obtain v where v: "holds h v (of_nat m)" using assms(1) m(1,3) unfolding owns_def by blast
    have "v \<noteq> o'" using v i small_id [OF m(1)] m(2) by (auto simp: holds_def)
    with v show ?thesis by blast
  qed
  show ?thesis
    using assms(1) other kept unfolding owns_def h(2) u w by blast
qed

lemma vm_create_used:
  assumes "hv_vm_create K config g k = (r, g', k')"
  shows "g_vcpus g' = g_vcpus g \<and> g_vm_alive g' = (g_vm_alive g \<or> r = HV_SUCCESS)
    \<and> (r = HV_SUCCESS \<longrightarrow> \<not> g_vm_alive g)"
  using assms
proof (cases rule: hv_vm_create_cases)
  case (created i lvl h k2)
  then show ?thesis
    using nested_spaces_create_frame [of K kNestedSpaces h k2 g' k'] by (auto split: if_splits)
qed simp_all

lemma owns_Vm_new:
  assumes "Vm_new K config o' (h, p) = (r, h', p')" "owns h (p_vm p)"
  shows "owns h' (p_vm p')"
proof -
  obtain g k where c: "hv_vm_create K config (p_vm p) (p_kernel p) = (r, g, k)"
    using assms(1) by (auto simp: Vm_new_def split: prod.splits)
  note f = vm_create_used [OF c]
  have h: "h' = (if r = HV_SUCCESS then h\<lparr>h_vm := (h_vm h)(o' \<mapsto> True)\<rparr> else h)" "p_vm p' = g"
    using assms(1) c by (auto simp: Vm_new_def)
  have w: "holds h' = holds h" "holds_vm h' v = (holds_vm h v \<or> (r = HV_SUCCESS \<and> v = o'))" for v
    by (auto simp: h holds_def holds_vm_def fun_eq_iff)
  have none: "r = HV_SUCCESS \<Longrightarrow> \<not> holds_vm h v" for v
    using assms(2) f unfolding owns_def by blast
  show ?thesis
    using assms(2) f none unfolding owns_def h(2) w by auto
qed

lemma owns_Vm_delete:
  assumes "owns h (p_vm p)" "Vm_delete K o' (h, p) = (h', p')" "\<forall>v i. h_vcpu h v = Some i \<longrightarrow> i = kInvalid"
  shows "owns h' (p_vm p')"
proof -
  have none: "\<not> holds h v i" for v i using assms(3) by (simp add: holds_def)
  then have idle: "\<not> used (g_vcpus (p_vm p) n)" if "n < 64" for n
    using assms(1) that unfolding owns_def by blast
  have w: "holds h' v i = holds h v i" "holds_vm h' v = (v \<noteq> o' \<and> holds_vm h v)" for v i
    using assms(2) by (auto simp: Vm_delete_def holds_def holds_vm_def split: if_splits)
  have u: "\<not> used (g_vcpus (p_vm p') n)" if "n < 64" for n
    using assms(2) idle [OF that]
    by (auto simp: Vm_delete_def hv_vm_destroy_def new_VcpuSlot_def split: if_splits prod.splits)
  have al: "g_vm_alive (p_vm p') = g_vm_alive (p_vm p)" if "\<not> holds_vm h o'"
    using assms(2) that by (auto simp: Vm_delete_def holds_vm_def split: if_splits)
  have one: "\<forall>v w. holds_vm h v \<and> holds_vm h w \<longrightarrow> v = w" "\<forall>v. holds_vm h v \<longrightarrow> g_vm_alive (p_vm p)"
    using assms(1) unfolding owns_def by blast+
  then have "g_vm_alive (p_vm p')" if "holds_vm h v" "v \<noteq> o'" for v using al that by blast
  then show ?thesis
    using none u one unfolding owns_def w by blast
qed

lemma owns_step:
  assumes "raii_step K getenv hp hp'" "owns (fst hp) (p_vm (snd hp))"
  shows "owns (fst hp') (p_vm (snd hp'))"
  using assms
proof (cases rule: raii_step.cases)
  case (step_Vm_new o' config r)
  with assms(2) owns_Vm_new [of K config o' "fst hp" "snd hp" r "fst hp'" "snd hp'"] show ?thesis by simp
next
  case (step_Vm_delete o')
  with assms(2) owns_Vm_delete [of "fst hp" "snd hp" K o' "fst hp'" "snd hp'"] show ?thesis by simp
next
  case (step_Vcpu_new o' me r)
  with assms(2) owns_Vcpu_new [of K me o' "fst hp" "snd hp" r "fst hp'" "snd hp'"] show ?thesis by simp
next
  case (step_Vcpu_delete o' me)
  with assms(2) owns_Vcpu_delete [of "fst hp" "snd hp" K me o' "fst hp'" "snd hp'"] show ?thesis by simp
next
  case (step_call p q h)
  with assms(2) owns_cong [of "p_vm q" "p_vm p" h] show ?thesis by (simp add: lifecycle_kept_def)
qed (auto simp: owns_Vm_move owns_Vm_assign owns_Vcpu_move owns_Vcpu_assign)

lemma owns_reach: "raii_reach K getenv k0 hp \<Longrightarrow> owns (fst hp) (p_vm (snd hp))"
proof (induction rule: raii_reach.induct)
  case raii_start
  then show ?case
    by (simp add: owns_def holds_def holds_vm_def process_start_def initial_state_def new_VcpuSlot_def)
next
  case (raii_more hp hp')
  then show ?case using owns_step by blast
qed


section \<open>Over a kernel that grants everything\<close>

lemma vm_new_granted:
  assumes "\<not> g_vm_alive (p_vm p)"
  shows "\<exists>p'. Vm_new granting_kernel (Some el2_config) o' (h, p)
      = (HV_SUCCESS, h\<lparr>h_vm := (h_vm h)(o' \<mapsto> True)\<rparr>, p') \<and> g_vm_alive (p_vm p')
    \<and> g_vcpus (p_vm p') = g_vcpus (p_vm p) \<and> tl_current_vcpu (p_vm p') = tl_current_vcpu (p_vm p)"
proof -
  let ?h = "(p_vm p)\<lparr>g_vm_alive := True, g_vm_isa := 3, g_vm_el2 := True, g_vm_vhe := True\<rparr>"
  obtain g' k' where n: "nested_spaces_create granting_kernel 8 ?h (p_kernel p) = (g', k')" by force
  have c: "hv_vm_create granting_kernel (Some el2_config) (p_vm p) (p_kernel p) = (HV_SUCCESS, g', k')"
    unfolding granting_create [OF assms] Let_def by (simp add: n)
  show ?thesis using nested_spaces_create_frame [OF n] by (simp add: Vm_new_def c)
qed

lemma vcpu_new_granted:
  assumes "g_vm_alive (p_vm p)" "tl_current_vcpu (p_vm p) me = None" "\<forall>n < 64. \<not> used (g_vcpus (p_vm p) n)"
  shows "\<exists>p'. Vcpu_new granting_kernel me o' (h, p)
      = (HV_SUCCESS, h\<lparr>h_vcpu := (h_vcpu h)(o' \<mapsto> 0)\<rparr>, p') \<and> g_vm_alive (p_vm p') \<and> used (g_vcpus (p_vm p') 0)
    \<and> (\<forall>t. t \<noteq> me \<longrightarrow> tl_current_vcpu (p_vm p') t = tl_current_vcpu (p_vm p) t)"
proof -
  have f: "free_slot (p_vm p) = Some 0"
    using assms(3) by (simp add: free_slot_def kMaxVcpuIds_def upt_rec)
  obtain r out g k where c: "hv_vcpu_create granting_kernel (g_ohv_cfg (p_cfg p)) me True True (p_vm p) (p_kernel p)
      = (r, out, g, k)" by (rule prod_cases4)
  have r: "r = HV_SUCCESS" by (rule granting_creates [OF assms(1,2) f c])
  from create_success [OF c [unfolded r] f] obtain m mapped where g: "out = Some 0"
    "g = (upd_slot 0 (vcpu_init (g_ohv_cfg (p_cfg p)) (p_vm p) me 0 m mapped) (p_vm p))
      \<lparr>tl_current_vcpu := (tl_current_vcpu (p_vm p))(me := Some 0)\<rparr>" by blast
  show ?thesis using assms(1) by (simp add: Vcpu_new_def c r g upd_slot_def vcpu_init_keeps_request)
qed

lemma start_idle: "\<not> g_vm_alive (p_vm (process_start getenv k0))" "\<not> used (g_vcpus (p_vm (process_start getenv k0)) n)"
  "tl_current_vcpu (p_vm (process_start getenv k0)) t = None"
  by (simp_all add: process_start_def initial_state_def new_VcpuSlot_def)

text \<open>A program that makes a VM, object 1, and in it a vCPU of thread 5, object 2.\<close>

lemma vm_and_vcpu:
  "\<exists>h p. raii_reach granting_kernel (\<lambda>_. None) 1 (h, p) \<and> h_vm h = [1 \<mapsto> True] \<and> h_vcpu h = [2 \<mapsto> 0]
     \<and> g_vm_alive (p_vm p) \<and> (\<forall>t. t \<noteq> 5 \<longrightarrow> tl_current_vcpu (p_vm p) t = None)"
proof -
  define h0 where "h0 = \<lparr>h_vm = Map.empty, h_vcpu = Map.empty\<rparr>"
  define p0 where "p0 = process_start (\<lambda>_. None) (1 :: nat)"
  have 0: "raii_reach granting_kernel (\<lambda>_. None) 1 (h0, p0)" unfolding h0_def p0_def by (rule raii_start)
  have p0: "\<not> g_vm_alive (p_vm p0)" "\<not> used (g_vcpus (p_vm p0) n)" "tl_current_vcpu (p_vm p0) t = None" for n t
    by (simp_all add: p0_def start_idle)
  have h0: "h_vm h0 = Map.empty" "h_vcpu h0 = Map.empty" by (simp_all add: h0_def)
  obtain p1 where 1: "Vm_new granting_kernel (Some el2_config) 1 (h0, p0) = (HV_SUCCESS, h0\<lparr>h_vm := [1 \<mapsto> True]\<rparr>, p1)"
    "g_vm_alive (p_vm p1)" "g_vcpus (p_vm p1) = g_vcpus (p_vm p0)" "tl_current_vcpu (p_vm p1) = tl_current_vcpu (p_vm p0)"
    using vm_new_granted [OF p0(1), of 1 h0] unfolding h0 by blast
  have r1: "raii_reach granting_kernel (\<lambda>_. None) 1 (h0\<lparr>h_vm := [1 \<mapsto> True]\<rparr>, p1)"
    by (rule raii_more [OF 0 step_Vm_new [OF _ 1(1)]]) (simp add: h0)
  obtain p2 where 2: "Vcpu_new granting_kernel 5 2 (h0\<lparr>h_vm := [1 \<mapsto> True]\<rparr>, p1)
      = (HV_SUCCESS, h0\<lparr>h_vm := [1 \<mapsto> True], h_vcpu := [2 \<mapsto> 0]\<rparr>, p2)" "g_vm_alive (p_vm p2)"
    "\<forall>t. t \<noteq> 5 \<longrightarrow> tl_current_vcpu (p_vm p2) t = tl_current_vcpu (p_vm p1) t"
    using vcpu_new_granted [OF 1(2), of 5 2 "h0\<lparr>h_vm := [1 \<mapsto> True]\<rparr>"] 1(3,4) p0 by (auto simp: h0)
  have "raii_reach granting_kernel (\<lambda>_. None) 1 (h0\<lparr>h_vm := [1 \<mapsto> True], h_vcpu := [2 \<mapsto> 0]\<rparr>, p2)"
    by (rule raii_more [OF r1 step_Vcpu_new [OF _ 2(1)]]) (simp add: h0)
  with 2(2,3) 1(4) p0(3) show ?thesis by fastforce
qed


section \<open>A handle that outlives its VM\<close>

text \<open>C26: What the order of destruction is needed for.  A \<open>Vcpu\<close> that outlives its \<open>Vm\<close>
  keeps its number; in the next VM the first vCPU gets that number, and when the old object is
  destroyed it is the new vCPU that goes: its object still holds the number, of a vCPU that is no
  longer there, and every call through it is refused.\<close>

theorem handle_outlives_vm:
  assumes "raii_reach K getenv k0 (h, p)" "h_vcpu h a = Some 0" "h_vm h m = Some True"
    and "Vm_delete K m (h, p) = (h1, p1)" "\<not> g_vm_alive (p_vm p1)"
    and "Vm_new K config m' (h1, p1) = (HV_SUCCESS, h2, p2)"
    and "h_vcpu h b = None" "Vcpu_new K me b (h2, p2) = (HV_SUCCESS, h3, p3)"
    and "Vcpu_delete K me' a (h3, p3) = (h4, p4)"
  shows "h_vcpu h3 b = Some 0 \<and> used (g_vcpus (p_vm p3) 0)
    \<and> h_vcpu h4 b = Some 0 \<and> \<not> used (g_vcpus (p_vm p4) 0) \<and> owned_vcpu me (p_vm p4) 0 = None"
proof -
  have "g_vm_alive (p_vm p)"
    using owns_reach [OF assms(1)] assms(3) unfolding owns_def holds_vm_def by (metis fst_conv snd_conv)
  then have d: "n < 64 \<Longrightarrow> \<not> used (g_vcpus (p_vm p1) n)" "h_vcpu h1 = h_vcpu h" for n
    using assms(3-5) by (auto simp: Vm_delete_def hv_vm_destroy_def new_VcpuSlot_def kMaxVcpuIds_def split: if_splits prod.splits)
  obtain g k where c: "hv_vm_create K config (p_vm p1) (p_kernel p1) = (HV_SUCCESS, g, k)" "p_vm p2 = g" "h_vcpu h2 = h_vcpu h"
    using assms(6) d(2) by (auto simp: Vm_new_def split: prod.splits if_splits)
  have u2: "\<not> used (g_vcpus (p_vm p2) n)" if "n < 64" for n
    using vm_create_used [OF c(1)] d(1) [OF that] c(2) by simp
  then have f: "free_slot (p_vm p2) = Some 0" by (simp add: free_slot_def kMaxVcpuIds_def upt_rec)
  obtain out g3 k3 where v: "hv_vcpu_create K (g_ohv_cfg (p_cfg p2)) me True True (p_vm p2) (p_kernel p2)
      = (HV_SUCCESS, out, g3, k3)" "p_vm p3 = g3" and h3: "h_vcpu h3 = (h_vcpu h)(b \<mapsto> case out of Some n \<Rightarrow> of_nat n | None \<Rightarrow> kInvalid)"
    using assms(8) c(3) by (auto simp: Vcpu_new_def split: prod.splits if_splits)
  from create_success [OF v(1) f] have b: "out = Some 0" "used (g_vcpus (p_vm p3) 0)"
    unfolding v(2) by (auto simp: vcpu_init_keeps_request)
  have ab: "a \<noteq> b" using assms(2,7) by auto
  have a: "h_vcpu h3 a = Some 0" "h_vcpu h3 b = Some 0" using h3 assms(2) b(1) ab by auto
  have i: "(0 :: u64) \<noteq> kInvalid" using valid_id [of 0] by simp
  have "find_vcpu (p_vm p3) 0 = Some 0" using find_vcpu_held [of 0 "p_vm p3"] b(2) by simp
  then have "\<not> used (g_vcpus (p_vm p4) 0)" "h_vcpu h4 b = Some 0"
    using assms(9) a i ab
    by (auto simp: Vcpu_delete_def hv_vcpu_destroy_def upd_slot_def new_VcpuSlot_def Let_def split: prod.splits if_splits)
  then show ?thesis using a(2) b(2) by (simp add: owned_vcpu_def find_vcpu_def)
qed

text \<open>The witness: objects 1 and 2 as before; the VM goes, object 3 is the next VM and object 4 its
  vCPU, of thread 6; then object 2 is destroyed.\<close>

theorem handle_outlives_vm_witness:
  "\<exists>h p h4 p4. raii_reach granting_kernel (\<lambda>_. None) 1 (h, p)
     \<and> (\<exists>p3 h3. Vcpu_delete granting_kernel 5 2 (h3, p3) = (h4, p4) \<and> used (g_vcpus (p_vm p3) 0))
     \<and> h_vcpu h4 4 = Some 0 \<and> \<not> used (g_vcpus (p_vm p4) 0)"
proof -
  obtain h p where h: "raii_reach granting_kernel (\<lambda>_. None) 1 (h, p)" "h_vm h = [1 \<mapsto> True]" "h_vcpu h = [2 \<mapsto> 0]"
    "g_vm_alive (p_vm p)" "\<forall>t. t \<noteq> 5 \<longrightarrow> tl_current_vcpu (p_vm p) t = None" using vm_and_vcpu by blast
  obtain h1 p1 where d: "Vm_delete granting_kernel 1 (h, p) = (h1, p1)" by force
  have d': "\<not> g_vm_alive (p_vm p1)" "\<forall>n < 64. \<not> used (g_vcpus (p_vm p1) n)"
    "tl_current_vcpu (p_vm p1) = tl_current_vcpu (p_vm p)"
    using d h(2,4) by (auto simp: Vm_delete_def hv_vm_destroy_def granting_kernel_def new_VcpuSlot_def kMaxVcpuIds_def)
  obtain h2 p2 where n: "Vm_new granting_kernel (Some el2_config) 3 (h1, p1) = (HV_SUCCESS, h2, p2)" "g_vm_alive (p_vm p2)"
    "g_vcpus (p_vm p2) = g_vcpus (p_vm p1)" "tl_current_vcpu (p_vm p2) = tl_current_vcpu (p_vm p1)"
    using vm_new_granted [OF d'(1), of 3 h1] by auto
  obtain h3 p3 where v: "Vcpu_new granting_kernel 6 4 (h2, p2) = (HV_SUCCESS, h3, p3)"
    using vcpu_new_granted [OF n(2), of 6 4 h2] n(3,4) d'(2,3) h(5) by auto
  obtain h4 p4 where x: "Vcpu_delete granting_kernel 5 2 (h3, p3) = (h4, p4)" by force
  from handle_outlives_vm [OF h(1) _ _ d d'(1) n(1) _ v x] h(2,3) have
    "used (g_vcpus (p_vm p3) 0) \<and> h_vcpu h4 4 = Some 0 \<and> \<not> used (g_vcpus (p_vm p4) 0)" by simp
  with h(1) x show ?thesis by blast
qed

end
