(* ===== verification/Ohv_Smoke.thy ===== *)
theory Ohv_Smoke
  imports Ohv_Handles Ohv_Enums
begin

text \<open>
  The remaining methods of the C++ classes of \<open>include/openhyp/openhyp.hpp\<close>, and the bring-up program
  of \<open>tests/smoke.cpp\<close> written with them: it asks for the capabilities, makes a VM, maps and unmaps
  memory, makes a vCPU, writes and reads registers one by one and in a batch, and runs it once.

  A method works on the process and answers a value or the code of the exception it throws.  The
  result of the program is the list of its checks, each with its outcome, and its exit status; no
  result says that the run has not come back.  The bytes of the guest's code play no part.

  The lemmas show which reasons a run can come back with, and that over any kernel that grants what
  it is asked for every check of the program passes and nothing is left behind.
\<close>

section \<open>Methods\<close>

type_synonym ('k, 'a) cxx_method = "'k process \<Rightarrow> (hv_return + 'a) \<times> 'k process"

definition check :: "hv_return \<Rightarrow> 'a \<Rightarrow> hv_return + 'a" where
  "check r v = (if r \<noteq> HV_SUCCESS then Inl r else Inr v)"

text \<open>A variable the library was handed a pointer to; the methods start it at zero.\<close>

definition var_or :: "'a \<Rightarrow> 'a option \<Rightarrow> 'a" where
  "var_or z o' = (case o' of Some v \<Rightarrow> v | None \<Rightarrow> z)"

definition Config_set_ipa_bits :: "u32 \<Rightarrow> hv_vm_config_s option \<Rightarrow> hv_return + hv_vm_config_s option" where
  "Config_set_ipa_bits bits c = (case hv_vm_config_set_ipa_size c bits of (r, c') \<Rightarrow> check r c')"
definition Config_set_el2 :: "bool \<Rightarrow> hv_vm_config_s option \<Rightarrow> hv_return + hv_vm_config_s option" where
  "Config_set_el2 on c = (case hv_vm_config_set_el2_enabled c on of (r, c') \<Rightarrow> check r c')"
definition Config_set_vhe :: "bool \<Rightarrow> hv_vm_config_s option \<Rightarrow> hv_return + hv_vm_config_s option" where
  "Config_set_vhe on c = (case hv_vm_config_set_vhe_enabled c on of (r, c') \<Rightarrow> check r c')"
definition Config_set_isa :: "u32 \<Rightarrow> hv_vm_config_s option \<Rightarrow> hv_return + hv_vm_config_s option" where
  "Config_set_isa i c = (case hv_vm_config_set_isa c i of (r, c') \<Rightarrow> check r c')"

definition Vm_map :: "'k kernel \<Rightarrow> u64 \<Rightarrow> u64 \<Rightarrow> u64 \<Rightarrow> u64 \<Rightarrow> ('k, unit) cxx_method" where
  "Vm_map K uva ipa sz flags p =
     (case hv_vm_map K uva ipa sz flags (p_vm p) (p_kernel p) of
        (r, g, k) \<Rightarrow> (check r (), p\<lparr>p_vm := g, p_kernel := k\<rparr>))"
definition Vm_unmap :: "'k kernel \<Rightarrow> u64 \<Rightarrow> u64 \<Rightarrow> ('k, unit) cxx_method" where
  "Vm_unmap K ipa sz p =
     (case hv_vm_unmap K ipa sz (p_vm p) (p_kernel p) of
        (r, g, k) \<Rightarrow> (check r (), p\<lparr>p_vm := g, p_kernel := k\<rparr>))"
definition Vm_protect :: "'k kernel \<Rightarrow> u64 \<Rightarrow> u64 \<Rightarrow> u64 \<Rightarrow> ('k, unit) cxx_method" where
  "Vm_protect K ipa sz flags p =
     (case hv_vm_protect K ipa sz flags (p_vm p) (p_kernel p) of
        (r, k) \<Rightarrow> (check r (), p\<lparr>p_kernel := k\<rparr>))"
definition Vm_max_vcpus :: "('k, u32) cxx_method" where
  "Vm_max_vcpus p = (case hv_vm_get_max_vcpu_count (p_vm p) True of (r, m) \<Rightarrow> (check r (var_or 0 m), p))"
definition Vm_machine_isa :: "'k process \<Rightarrow> u32" where
  "Vm_machine_isa p = hv_vm_get_isa (p_vm p)"

definition Vcpu_reg :: "nat \<Rightarrow> u64 \<Rightarrow> u32 \<Rightarrow> ('k, u64) cxx_method" where
  "Vcpu_reg me i r p = (case hv_vcpu_get_reg me (p_vm p) i r True of (e, v) \<Rightarrow> (check e (var_or 0 v), p))"
definition Vcpu_set_reg :: "nat \<Rightarrow> u64 \<Rightarrow> u32 \<Rightarrow> u64 \<Rightarrow> ('k, unit) cxx_method" where
  "Vcpu_set_reg me i r v p =
     (case hv_vcpu_set_reg me (p_vm p) i r v of (e, g) \<Rightarrow> (check e (), p\<lparr>p_vm := g\<rparr>))"
definition Vcpu_sys_reg :: "world \<Rightarrow> nat \<Rightarrow> u64 \<Rightarrow> u16 \<Rightarrow> ('k, u64) cxx_method" where
  "Vcpu_sys_reg w me i r p =
     (case hv_vcpu_get_sys_reg w me i r True (p_statics p) (p_vm p) of
        (e, v, st, g) \<Rightarrow> (check e (var_or 0 v), p\<lparr>p_vm := g, p_statics := st\<rparr>))"
definition Vcpu_set_sys_reg :: "world \<Rightarrow> nat \<Rightarrow> u64 \<Rightarrow> u16 \<Rightarrow> u64 \<Rightarrow> ('k, unit) cxx_method" where
  "Vcpu_set_sys_reg w me i r v p =
     (case hv_vcpu_set_sys_reg w me i r v (p_statics p) (p_vm p) of
        (e, st, g) \<Rightarrow> (check e (), p\<lparr>p_vm := g, p_statics := st\<rparr>))"
definition Vcpu_set_regs :: "nat \<Rightarrow> u64 \<Rightarrow> (u32 \<times> u64) list \<Rightarrow> ('k, unit) cxx_method" where
  "Vcpu_set_regs me i b p = (case set_regs me i b (p_vm p) of (e, g) \<Rightarrow> (check e (), p\<lparr>p_vm := g\<rparr>))"
definition Vcpu_get_regs :: "nat \<Rightarrow> u64 \<Rightarrow> u32 list \<Rightarrow> ('k, u64 list) cxx_method" where
  "Vcpu_get_regs me i rs p = (get_regs me i rs (p_vm p), p)"

record ExitInfo =
  ei_reason :: u32
  ei_syndrome :: u64
  ei_virtual_address :: u64
  ei_physical_address :: u64

text \<open>\<open>exit_\<close> points into the slot whose number creation handed out.\<close>

definition Vcpu_run_once ::
  "nat \<Rightarrow> environment \<Rightarrow> turn list \<Rightarrow> u64 \<Rightarrow> 'k process \<Rightarrow> ((hv_return + ExitInfo) \<times> 'k process) option" where
  "Vcpu_run_once me getenv ts i p =
     (case hv_vcpu_run me getenv ts i (p_cfg p) (p_statics p) (p_vm p) of
        (None, _) \<Rightarrow> None
      | (Some r, cs, st, g) \<Rightarrow>
          let e = pub_exit (g_vcpus g (unat i)); x = exit_exception e
          in Some (check r \<lparr>ei_reason = exit_reason e, ei_syndrome = syndrome x,
                     ei_virtual_address = virtual_address x, ei_physical_address = physical_address x\<rparr>,
                   p\<lparr>p_vm := g, p_statics := st, p_cfg := cs\<rparr>))"

definition Vcpu_set_vtimer_mask :: "nat \<Rightarrow> u64 \<Rightarrow> bool \<Rightarrow> ('k, unit) cxx_method" where
  "Vcpu_set_vtimer_mask me i m p =
     (case hv_vcpu_set_vtimer_mask me (p_vm p) i m of (e, g) \<Rightarrow> (check e (), p\<lparr>p_vm := g\<rparr>))"
definition Vcpu_vtimer_masked :: "nat \<Rightarrow> u64 \<Rightarrow> ('k, bool) cxx_method" where
  "Vcpu_vtimer_masked me i p =
     (case hv_vcpu_get_vtimer_mask me (p_vm p) i True of (e, m) \<Rightarrow> (check e (var_or False m), p))"
definition Vcpu_set_vtimer_offset :: "nat \<Rightarrow> u64 \<Rightarrow> u64 \<Rightarrow> ('k, unit) cxx_method" where
  "Vcpu_set_vtimer_offset me i off p =
     (case hv_vcpu_set_vtimer_offset me (p_vm p) i off of (e, g) \<Rightarrow> (check e (), p\<lparr>p_vm := g\<rparr>))"
definition Vcpu_exec_time :: "nat \<Rightarrow> u64 \<Rightarrow> ('k, u64) cxx_method" where
  "Vcpu_exec_time me i p =
     (case hv_vcpu_get_exec_time me (p_vm p) i True of (e, t) \<Rightarrow> (check e (var_or 0 t), p))"

definition exit_vcpus :: "'k kernel \<Rightarrow> u64 list \<Rightarrow> ('k, unit) cxx_method" where
  "exit_vcpus K ids p =
     (case hv_vcpus_exit K (Some ids) (of_nat (length ids)) (p_vm p) (p_kernel p) of
        (r, g, k) \<Rightarrow> (check r (), p\<lparr>p_vm := g, p_kernel := k\<rparr>))"

section \<open>The bring-up program\<close>

type_synonym checks = "(string \<times> bool) list"

text \<open>A stretch of the program: the checks it has reported and the code it left with, which is
  HV_SUCCESS unless it threw.\<close>

type_synonym 'k stretch = "'k process \<Rightarrow> (checks \<times> hv_return \<times> 'k process) option"

definition one_call :: "('k, 'a) cxx_method \<Rightarrow> ('a \<Rightarrow> checks) \<Rightarrow> 'k stretch" where
  "one_call m f p = (case m p of (Inl e, q) \<Rightarrow> Some ([], e, q) | (Inr v, q) \<Rightarrow> Some (f v, HV_SUCCESS, q))"

fun calls :: "'k stretch list \<Rightarrow> 'k stretch" where
  "calls [] p = Some ([], HV_SUCCESS, p)"
| "calls (s # ss) p =
     (case s p of
        None \<Rightarrow> None
      | Some (cs, r, q) \<Rightarrow>
          if r \<noteq> HV_SUCCESS then Some (cs, r, q)
          else (case calls ss q of None \<Rightarrow> None | Some (ds, r', q') \<Rightarrow> Some (cs @ ds, r', q')))"

definition HV_SYS_REG_SCTLR_EL1 :: u16 where "HV_SYS_REG_SCTLR_EL1 = 0xc080"
definition kSize :: u64 where "kSize = push_bit 20 1"
definition MAP_FAILED :: u64 where "MAP_FAILED = NOT 0"

text \<open>Reading, writing and running the vCPU numbered \<open>i\<close>.\<close>

definition smoke_vcpu :: "nat \<Rightarrow> environment \<Rightarrow> world \<Rightarrow> turn list \<Rightarrow> u64 \<Rightarrow> 'k stretch" where
  "smoke_vcpu me getenv w ts i = calls
     [(\<lambda>p. Some ([(''vcpu create'', i \<noteq> kInvalid)], HV_SUCCESS, p)),
      one_call (Vcpu_set_reg me i 0 0x4141414142424242) (\<lambda>_. []),
      one_call (Vcpu_reg me i 0) (\<lambda>v. [(''gpr roundtrip'', v = 0x4141414142424242)]),
      one_call (Vcpu_set_reg me i 31 0x1000000) (\<lambda>_. []),
      one_call (Vcpu_set_reg me i HV_REG_CPSR 0x3c5) (\<lambda>_. []),
      one_call (\<lambda>p. case Vcpu_sys_reg w me i HV_SYS_REG_SCTLR_EL1 p of
                      (Inl e, q) \<Rightarrow> (Inl e, q)
                    | (Inr v, q) \<Rightarrow> Vcpu_set_sys_reg w me i HV_SYS_REG_SCTLR_EL1 v q)
               (\<lambda>_. [(''sysreg roundtrip'', True)]),
      one_call (Vcpu_set_regs me i [(1, 1), (2, 2), (3, 3)]) (\<lambda>_. []),
      one_call (Vcpu_get_regs me i [1, 2, 3]) (\<lambda>got. [(''batch regs'', got = [1, 2, 3])]),
      one_call (Vcpu_set_vtimer_mask me i False) (\<lambda>_. []),
      (\<lambda>p. case Vcpu_run_once me getenv ts i p of
             None \<Rightarrow> None
           | Some (Inl e, q) \<Rightarrow> Some ([], e, q)
           | Some (Inr e, q) \<Rightarrow>
               one_call (Vcpu_reg me i 31)
                 (\<lambda>_. [(''run exits with known reason'', ei_reason e \<noteq> HV_EXIT_REASON_UNKNOWN)]) q)]"

text \<open>Object 1 is the VM, object 2 the vCPU; an object goes at the end of its scope, thrown or not.\<close>

definition smoke_vm ::
  "'k kernel \<Rightarrow> nat \<Rightarrow> environment \<Rightarrow> world \<Rightarrow> turn list \<Rightarrow> u64 \<Rightarrow> 'k program
     \<Rightarrow> (checks \<times> hv_return \<times> 'k program) option" where
  "smoke_vm K me getenv w ts page hp =
     (case calls
        [(\<lambda>p. Some ([(''vm create'', True), (''alloc guest memory'', page \<noteq> MAP_FAILED)], HV_SUCCESS, p)),
         one_call (Vm_map K page 0x1000000 kSize 7) (\<lambda>_. [(''vm map'', True)]),
         one_call (Vm_unmap K 0x1000000 kSize) (\<lambda>_. []),
         one_call (Vm_map K page 0x1000000 kSize 7) (\<lambda>_. [])] (snd hp) of
        None \<Rightarrow> None
      | Some (cs, r, p) \<Rightarrow>
          if r \<noteq> HV_SUCCESS then Some (cs, r, fst hp, p)
          else (case Vcpu_new K me 2 (fst hp, p) of
                  (r', h, q) \<Rightarrow>
                    if r' \<noteq> HV_SUCCESS then Some (cs, r', h, q)
                    else (case smoke_vcpu me getenv w ts (var_or kInvalid (h_vcpu h 2)) q of
                            None \<Rightarrow> None
                          | Some (ds, r'', q') \<Rightarrow> Some (cs @ ds, r'', Vcpu_delete K me 2 (h, q')))))"

definition smoke ::
  "'k kernel \<Rightarrow> nat \<Rightarrow> environment \<Rightarrow> world \<Rightarrow> turn list \<Rightarrow> bool \<Rightarrow> u64 \<Rightarrow> 'k program
     \<Rightarrow> (checks \<times> nat \<times> 'k program) option" where
  "smoke K me getenv w ts mem page hp =
     (case hv_capability K HV_CAP_VCPUMAX True (p_kernel (snd hp)) of
        (r, v, k) \<Rightarrow>
          let c = (''capabilities'', r = HV_SUCCESS \<and> 0 < var_or 0 v);
              hp1 = (fst hp, (snd hp)\<lparr>p_kernel := k\<rparr>)
          in (case Config_set_isa 3 (hv_vm_config_create mem) of
                Inl _ \<Rightarrow> Some ([c], 2, hp1)
              | Inr c1 \<Rightarrow>
                  (case Config_set_el2 True c1 of
                     Inl _ \<Rightarrow> Some ([c], 2, hp1)
                   | Inr c2 \<Rightarrow>
                       (case Vm_new K c2 1 hp1 of
                          (r', hp2) \<Rightarrow>
                            if r' \<noteq> HV_SUCCESS then Some ([c], 2, hp2)
                            else (case smoke_vm K me getenv w ts page hp2 of
                                    None \<Rightarrow> None
                                  | Some (cs, e, hp3) \<Rightarrow>
                                      Some (c # cs,
                                        if e \<noteq> HV_SUCCESS then 2
                                        else if list_all snd (c # cs) then 0 else 1,
                                        Vm_delete K 1 hp3))))))"


section \<open>What a run can come back with\<close>

text \<open>A pass in which the trap succeeds with one of the exits the kernel is known to report, what
  other threads do leaves the shared pages and the record alone, and the synchronizing trap leaves
  the kernel's reason.\<close>

definition known_exits :: "turn \<Rightarrow> bool" where
  "known_exits t \<longleftrightarrow> turn_ok t
     \<and> (\<forall>m. fst (t_run t m) = HV_SUCCESS \<and> rd32 (snd (t_run t m)) OHV_RO_EXIT_REASON \<in> {0, 1, 2, 6, 7, 8, 11, 12})
     \<and> (\<forall>q. ctx (t_during t q) = ctx q) \<and> (\<forall>q. pub_exit (t_between t q) = pub_exit q)
     \<and> (\<forall>m. rd32 (snd (w_sync (t_exit_world t) m)) OHV_RO_EXIT_REASON = rd32 m OHV_RO_EXIT_REASON)"

lemma known_exits_cfg [simp]: "known_exits (with_cfg c t) = known_exits t"
  by (simp add: known_exits_def with_cfg_def turn_ok_def)

lemma prepare_keeps_reason:
  assumes "\<And>m. rd32 (snd (w_sync w m)) OHV_RO_EXIT_REASON = rd32 m OHV_RO_EXIT_REASON"
  shows "vmexit_reason (exit_prepare w s) = vmexit_reason s"
proof -
  have s: "vmexit_reason (snd (sync_ctx w q)) = vmexit_reason q" for q
    using assms [of "ctx q"] by (cases "w_sync w (ctx q)") (simp add: sync_ctx_def vmexit_reason_def)
  show ?thesis
    by (simp add: exit_prepare_def exit_mirror_gl1_def exit_nv_restore_def exit_rearm_nv_def s Let_def layout
        vmexit_reason_moves(1) [unfolded layout])
qed

lemma known_reason:
  assumes "exit_from_ro w st s = (EXIT_TO_VMM, st', s')"
    and "vmexit_reason (exit_prepare w s) \<in> {0, 1, 2, 6, 7, 8, 11, 12}"
  shows "exit_reason (pub_exit s') \<noteq> HV_EXIT_REASON_UNKNOWN"
proof -
  from assms(1) have c: "exit_classify w (vmexit_reason (exit_prepare w s)) (note_kernel (exit_prepare w s) st)
      (fill_exit (exit_prepare w s)) = (EXIT_TO_VMM, st', s')" by (simp add: exit_from_ro_def Let_def)
  have "exit_reason (pub_exit s') = HV_EXIT_REASON_CANCELED \<or> exit_reason (pub_exit s') = HV_EXIT_REASON_EXCEPTION"
    using c assms(2) unfolding exit_classify_def OHV_VMEXIT_MSR_TRAP_def
    by (auto dest: exit_msr_reason exit_sync_reason exit_exception_reason split: if_split_asm)
  then show ?thesis by (auto simp: masks)
qed

lemma run_turn_known:
  assumes "run_turn t st s = (Some r, st', s')" "known_exits t"
  shows "r = HV_SUCCESS \<and> exit_reason (pub_exit s') \<noteq> HV_EXIT_REASON_UNKNOWN"
proof -
  obtain e st1 s1 where g: "enter_guest t st s = (e, st1, s1)" by (rule prod_cases3)
  obtain a st2 s2 where x: "exit_from_ro (t_exit_world t) st1 s1 = (a, st2, s2)" by (rule prod_cases3)
  note k = assms(2) [unfolded known_exits_def]
  have e: "e = HV_SUCCESS" "vmexit_reason s1 \<in> {0, 1, 2, 6, 7, 8, 11, 12}"
  proof -
    obtain st0 s0 where x: "ohv_expire_timers (t_world t) st s = (st0, s0)" by force
    obtain m where m: "t_run t (ctx s0) = (e, m)" using g x by (auto simp: enter_guest_def Let_def split: prod.splits)
    have k1: "fst (t_run t (ctx s0)) = HV_SUCCESS \<and>
      rd32 (snd (t_run t (ctx s0))) OHV_RO_EXIT_REASON \<in> {0, 1, 2, 6, 7, 8, 11, 12}" using k by blast
    have k2: "ctx (t_during t q) = ctx q" for q using k by blast
    from k1 show "e = HV_SUCCESS" by (simp add: m)
    have "vmexit_reason s1 = rd32 m OHV_RO_EXIT_REASON"
      using g by (auto simp: enter_guest_def Let_def x m vmexit_reason_def k2)
    with k1 show "vmexit_reason s1 \<in> {0, 1, 2, 6, 7, 8, 11, 12}" by (simp only: m snd_conv)
  qed
  have "vmexit_reason (exit_prepare (t_exit_world t) s1) = vmexit_reason s1"
    using k by (intro prepare_keeps_reason) blast
  then have "a = EXIT_TO_VMM \<Longrightarrow> exit_reason (pub_exit s2) \<noteq> HV_EXIT_REASON_UNKNOWN"
    using known_reason [of "t_exit_world t" st1 s1 st2 s2] x e(2) by simp
  moreover have "exit_reason (pub_exit (cancelled q)) \<noteq> HV_EXIT_REASON_UNKNOWN" for q by (simp add: masks)
  moreover have "pub_exit (t_between t q) = pub_exit q" for q using k by blast
  ultimately show ?thesis using assms(1) e(1)
    by (auto simp: run_turn_def g x Let_def split: if_split_asm)
qed

lemma run_known:
  assumes "vcpu_run ts st s = (Some r, st', s')" "\<forall>t \<in> set ts. known_exits t"
  shows "r = HV_SUCCESS \<and> exit_reason (pub_exit s') \<noteq> HV_EXIT_REASON_UNKNOWN"
  using assms
proof (induction ts arbitrary: st s)
  case (Cons t ts)
  obtain r1 st1 s1 where t: "run_turn t st s = (r1, st1, s1)" by (rule prod_cases3)
  show ?case
  proof (cases r1)
    case None
    with Cons t show ?thesis by simp
  next
    case (Some x)
    with Cons.prems t run_turn_known [of t st s x st1 s1] show ?thesis by simp
  qed
qed simp


section \<open>The calls of the program\<close>

text \<open>The thread owns vCPU \<open>i\<close> of a living VM: what every call of the program keeps.\<close>

definition ready :: "nat \<Rightarrow> u64 \<Rightarrow> 'k process \<Rightarrow> bool" where
  "ready me i p \<longleftrightarrow> g_vm_alive (p_vm p) \<and> owned_vcpu me (p_vm p) i = Some (unat i)"

lemma ready_upd:
  assumes "ready me i p" "used t = used (g_vcpus (p_vm p) n)"
  shows "ready me i (p\<lparr>p_vm := upd_slot n (\<lambda>_. t) (p_vm p)\<rparr>)"
    "ready me i (p\<lparr>p_vm := upd_slot n (\<lambda>_. t) (p_vm p), p_statics := st\<rparr>)"
    "ready me i (p\<lparr>p_vm := upd_slot n (\<lambda>_. t) (p_vm p), p_statics := st, p_cfg := cs\<rparr>)"
proof -
  have "g_vm_alive (upd_slot n (\<lambda>_. t) g) = g_vm_alive g" for g by (simp add: upd_slot_def)
  then show "ready me i (p\<lparr>p_vm := upd_slot n (\<lambda>_. t) (p_vm p)\<rparr>)"
    "ready me i (p\<lparr>p_vm := upd_slot n (\<lambda>_. t) (p_vm p), p_statics := st\<rparr>)"
    "ready me i (p\<lparr>p_vm := upd_slot n (\<lambda>_. t) (p_vm p), p_statics := st, p_cfg := cs\<rparr>)"
    using assms(1) owned_upd [OF assms(2)] by (simp_all add: ready_def)
qed

lemma slot_set_ready:
  assumes "ready me i p" "f (g_vcpus (p_vm p) (unat i)) = (HV_SUCCESS, t)" "used t = used (g_vcpus (p_vm p) (unat i))"
  shows "\<exists>g. slot_set me (p_vm p) i f = (HV_SUCCESS, g) \<and> g_vcpus g (unat i) = t \<and> ready me i (p\<lparr>p_vm := g\<rparr>)"
  using assms(1,2) ready_upd(1) [OF assms(1,3)] by (simp add: slot_set_def ready_def upd_slot_def)

text \<open>A general register that is a word of the shared page.\<close>

lemma set_reg_ready:
  assumes "ready me i p" "r \<notin> {HV_REG_CPSR, HV_REG_FPCR, HV_REG_FPSR}" "reg_word (unat r) = Some off"
  shows "\<exists>g. hv_vcpu_set_reg me (p_vm p) i r v = (HV_SUCCESS, g)
    \<and> g_vcpus g (unat i) = ctx_wr off v (g_vcpus (p_vm p) (unat i)) \<and> ready me i (p\<lparr>p_vm := g\<rparr>)"
  unfolding hv_vcpu_set_reg_def
  by (rule slot_set_ready [OF assms(1)]) (use assms(2,3) in \<open>simp_all add: reg_set_def ctx_wr_def\<close>)

lemma get_reg_ready:
  assumes "ready me i p" "r \<notin> {HV_REG_CPSR, HV_REG_FPCR, HV_REG_FPSR}" "reg_word (unat r) = Some off"
  shows "hv_vcpu_get_reg me (p_vm p) i r True = (HV_SUCCESS, Some (ctx_rd (g_vcpus (p_vm p) (unat i)) off))"
  using assms by (simp add: hv_vcpu_get_reg_def slot_get_def ready_def reg_get_def)

lemma set_cpsr_ready:
  assumes "ready me i p"
  shows "\<exists>g. hv_vcpu_set_reg me (p_vm p) i HV_REG_CPSR v = (HV_SUCCESS, g) \<and> ready me i (p\<lparr>p_vm := g\<rparr>)"
proof -
  have "used (set_slot_cpsr c s) = used s" for c s by (simp add: set_slot_cpsr_def)
  then show ?thesis unfolding hv_vcpu_set_reg_def
    using slot_set_ready [OF assms, of "reg_set (g_vm_el2 (p_vm p)) HV_REG_CPSR v"] by (auto simp: reg_set_def)
qed

lemma set_mask_ready:
  assumes "ready me i p"
  shows "\<exists>g. hv_vcpu_set_vtimer_mask me (p_vm p) i b = (HV_SUCCESS, g) \<and> ready me i (p\<lparr>p_vm := g\<rparr>)"
proof -
  have "used (ctl_bits off m on s) = used s" for off m on s
    by (simp add: ctl_bits_def ctx_upd_def ctx_wr_def ctx_dirty_def Let_def)
  then show ?thesis unfolding hv_vcpu_set_vtimer_mask_def
    using slot_set_ready [OF assms, of "\<lambda>s. (HV_SUCCESS, ctl_bits ctl_timer OHV_TIMER_MASK b s)"] by auto
qed

text \<open>A system register the table knows is written back as it was read.\<close>

lemma sysreg_set_ready:
  assumes "ready me i p" "\<And>off. sync_keeps w off" "sysreg_lookup enc = Some d"
  shows "\<exists>q. Vcpu_set_sys_reg w me i enc v p = (Inr (), q) \<and> ready me i q"
proof -
  have o: "owned_vcpu me (p_vm p) i = Some (unat i)" using assms(1) by (simp add: ready_def)
  obtain r st g where s: "hv_vcpu_set_sys_reg w me i enc v (p_statics p) (p_vm p) = (r, st, g)" by (rule prod_cases3)
  obtain r0 x st0 t where a: "sysreg_access w enc (Some v) (p_statics p) (g_vcpus (p_vm p) (unat i)) = (r0, x, st0, t)"
    by (rule prod_cases4)
  have g: "g = upd_slot (unat i) (\<lambda>_. t) (p_vm p)" using s by (simp add: hv_vcpu_set_sys_reg_def o a)
  have "used t = used (g_vcpus (p_vm p) (unat i))" using slot_kept_sysreg [OF a] by (simp add: slot_kept_def)
  from ready_upd(2) [OF assms(1) this] set_then_get [OF o assms(2,3) s] show ?thesis
    by (simp add: Vcpu_set_sys_reg_def s check_def g)
qed

lemma sysreg_get_ready:
  assumes "ready me i p" "\<And>off. sync_keeps w off"
    and "sysreg_lookup enc = Some d" "kind d \<noteq> 5" "kind d \<noteq> 7" "desc_offset d = Some off"
  shows "\<exists>v q. Vcpu_sys_reg w me i enc p = (Inr v, q) \<and> ready me i q"
proof -
  have o: "owned_vcpu me (p_vm p) i = Some (unat i)" using assms(1) by (simp add: ready_def)
  define s where "s = g_vcpus (p_vm p) (unat i)"
  obtain r x t where x: "sysreg_word w d off enc None s = (r, x, t)" by (rule prod_cases3)
  have "fst (sync_ctx w s) = HV_SUCCESS" using assms(2) [of 0]
    by (cases "w_sync w (ctx s)") (auto simp: sync_ctx_def sync_keeps_def dest: spec [of _ "ctx s"])
  then have r: "r = HV_SUCCESS" using x by (cases "sync_ctx w s") (auto simp: sysreg_word_def split: if_splits)
  have a: "sysreg_access w enc None st s = (r, x, st, t)" for st
    using assms(3-6) x by (simp add: sysreg_access_def)
  have "used t = used s" using slot_kept_sysreg [OF a] by (simp add: slot_kept_def)
  with ready_upd(1) [OF assms(1), of t "unat i"] show ?thesis
    using r by (simp add: Vcpu_sys_reg_def hv_vcpu_get_sys_reg_def o a [unfolded s_def] check_def s_def)
qed

lemma sctlr_desc: "list_all (\<lambda>d. encoding d = 0xc080 \<longrightarrow> kind d \<noteq> 5 \<and> kind d \<noteq> 7 \<and> desc_offset d \<noteq> None) kTable"
  by (simp add: kTable_def desc_offset_def kind_region_def)

lemma sctlr_known:
  "\<exists>d off. sysreg_lookup HV_SYS_REG_SCTLR_EL1 = Some d \<and> kind d \<noteq> 5 \<and> kind d \<noteq> 7 \<and> desc_offset d = Some off"
proof -
  have "(''HV_SYS_REG_SCTLR_EL1'', 0xc080) \<in> set hv_sys_reg_t" by (simp add: hv_sys_reg_t_def)
  from switch_knows [OF enum_in_cases [OF this]] sctlr_desc show ?thesis
    unfolding list_all_iff HV_SYS_REG_SCTLR_EL1_def by fastforce
qed

lemma sysreg_copy_ready:
  assumes "ready me i p" "\<And>off. sync_keeps w off"
  shows "\<exists>q. (case Vcpu_sys_reg w me i HV_SYS_REG_SCTLR_EL1 p of (Inl e, q) \<Rightarrow> (Inl e, q)
      | (Inr v, q) \<Rightarrow> Vcpu_set_sys_reg w me i HV_SYS_REG_SCTLR_EL1 v q) = (Inr (), q) \<and> ready me i q"
proof -
  obtain d off where d: "sysreg_lookup HV_SYS_REG_SCTLR_EL1 = Some d" "kind d \<noteq> 5" "kind d \<noteq> 7" "desc_offset d = Some off"
    using sctlr_known by blast
  obtain v q where "Vcpu_sys_reg w me i HV_SYS_REG_SCTLR_EL1 p = (Inr v, q)" "ready me i q"
    using sysreg_get_ready [OF assms d] by blast
  with sysreg_set_ready [OF this(2) assms(2) d(1)] show ?thesis by simp
qed

text \<open>The run.\<close>

lemma known_exits_ok: "known_exits t \<Longrightarrow> turn_ok (with_cfg c t)"
  by (simp add: known_exits_def with_cfg_def turn_ok_def)

definition run_ends :: "turn list \<Rightarrow> bool" where
  "run_ends ts \<longleftrightarrow> (\<forall>c st s. fst (vcpu_run (map (with_cfg c) ts) st s) \<noteq> None)"

lemma run_ready:
  assumes "ready me i p" "\<forall>t \<in> set ts. known_exits t" "run_ends ts"
  shows "\<exists>e q. Vcpu_run_once me getenv ts i p = Some (Inr e, q) \<and> ei_reason e \<noteq> HV_EXIT_REASON_UNKNOWN \<and> ready me i q"
proof -
  have o: "owned_vcpu me (p_vm p) i = Some (unat i)" using assms(1) by (simp add: ready_def)
  define c where "c = ohv_cfg_settle getenv (p_cfg p)"
  obtain r st s where r: "vcpu_run (map (with_cfg (g_ohv_cfg c)) ts) (p_statics p) (g_vcpus (p_vm p) (unat i)) = (r, st, s)"
    by (rule prod_cases3)
  then obtain x where x: "r = Some x" using assms(3) by (metis run_ends_def fst_conv option.exhaust)
  have t: "\<forall>t \<in> set (map (with_cfg (g_ohv_cfg c)) ts). known_exits t \<and> turn_ok t"
    using assms(2) known_exits_ok by auto
  have k: "x = HV_SUCCESS" "exit_reason (pub_exit s) \<noteq> HV_EXIT_REASON_UNKNOWN" "used s = used (g_vcpus (p_vm p) (unat i))"
    using run_known [OF r [unfolded x]] vcpu_run_frame [OF r] t by simp_all
  show ?thesis using ready_upd(3) [OF assms(1) k(3)] k(1,2)
    by (simp add: Vcpu_run_once_def hv_vcpu_run_def o c_def [symmetric] r [unfolded x] Let_def check_def upd_slot_def)
qed


lemma calls_step:
  "s p = Some (cs, HV_SUCCESS, q) \<Longrightarrow> calls ss q = Some (ds, r, q') \<Longrightarrow> calls (s # ss) p = Some (cs @ ds, r, q')"
  by simp

lemma one_call_done: "m p = (Inr v, q) \<Longrightarrow> one_call m f p = Some (f v, HV_SUCCESS, q)"
  by (simp add: one_call_def)

text \<open>A register written and read, one word and a batch of three.\<close>

lemma Vcpu_set_reg_ready:
  assumes "ready me i p" "r \<notin> {HV_REG_CPSR, HV_REG_FPCR, HV_REG_FPSR}" "reg_word (unat r) = Some off"
  shows "\<exists>q. Vcpu_set_reg me i r v p = (Inr (), q) \<and> ready me i q
    \<and> g_vcpus (p_vm q) (unat i) = ctx_wr off v (g_vcpus (p_vm p) (unat i))"
  using set_reg_ready [OF assms, of v] by (auto simp: Vcpu_set_reg_def check_def)

lemma Vcpu_reg_ready:
  assumes "ready me i p" "r \<notin> {HV_REG_CPSR, HV_REG_FPCR, HV_REG_FPSR}" "reg_word (unat r) = Some off"
  shows "Vcpu_reg me i r p = (Inr (ctx_rd (g_vcpus (p_vm p) (unat i)) off), p)"
  using get_reg_ready [OF assms] by (simp add: Vcpu_reg_def check_def var_or_def)

lemma words_123: "(1 :: u32) \<notin> {HV_REG_CPSR, HV_REG_FPCR, HV_REG_FPSR}" "reg_word (unat (1 :: u32)) = Some (off_x 1)"
  "(2 :: u32) \<notin> {HV_REG_CPSR, HV_REG_FPCR, HV_REG_FPSR}" "reg_word (unat (2 :: u32)) = Some (off_x 2)"
  "(3 :: u32) \<notin> {HV_REG_CPSR, HV_REG_FPCR, HV_REG_FPSR}" "reg_word (unat (3 :: u32)) = Some (off_x 3)"
  "(0 :: u32) \<notin> {HV_REG_CPSR, HV_REG_FPCR, HV_REG_FPSR}" "reg_word (unat (0 :: u32)) = Some (off_x 0)"
  "(31 :: u32) \<notin> {HV_REG_CPSR, HV_REG_FPCR, HV_REG_FPSR}" "reg_word (unat (31 :: u32)) = Some OHV_RW_PC"
  by (simp_all add: masks reg_word_def)

lemma batch_ready:
  assumes "ready me i p"
  shows "\<exists>q. Vcpu_set_regs me i [(1, 1), (2, 2), (3, 3)] p = (Inr (), q) \<and> ready me i q
    \<and> Vcpu_get_regs me i [1, 2, 3] q = (Inr [1, 2, 3], q)"
proof -
  obtain g1 where 1: "hv_vcpu_set_reg me (p_vm p) i 1 1 = (HV_SUCCESS, g1)"
    "g_vcpus g1 (unat i) = ctx_wr (off_x 1) 1 (g_vcpus (p_vm p) (unat i))" "ready me i (p\<lparr>p_vm := g1\<rparr>)"
    using set_reg_ready [OF assms words_123(1,2)] by blast
  obtain g2 where 2: "hv_vcpu_set_reg me g1 i 2 2 = (HV_SUCCESS, g2)"
    "g_vcpus g2 (unat i) = ctx_wr (off_x 2) 2 (g_vcpus g1 (unat i))" "ready me i (p\<lparr>p_vm := g2\<rparr>)"
    using set_reg_ready [OF 1(3) words_123(3,4), of 2] by auto
  obtain g3 where 3: "hv_vcpu_set_reg me g2 i 3 3 = (HV_SUCCESS, g3)"
    "g_vcpus g3 (unat i) = ctx_wr (off_x 3) 3 (g_vcpus g2 (unat i))" "ready me i (p\<lparr>p_vm := g3\<rparr>)"
    using set_reg_ready [OF 2(3) words_123(5,6), of 3] by auto
  have s: "set_regs me i [(1, 1), (2, 2), (3, 3)] (p_vm p) = (HV_SUCCESS, g3)"
    by (simp add: set_regs_def 1(1) 2(1) 3(1))
  have w: "ctx_rd (g_vcpus g3 (unat i)) (off_x 1) = 1" "ctx_rd (g_vcpus g3 (unat i)) (off_x 2) = 2"
    "ctx_rd (g_vcpus g3 (unat i)) (off_x 3) = 3"
    by (simp_all add: 1(2) 2(2) 3(2) off_x_def)
  have "get_regs me i [1, 2, 3] g3 = Inr [1, 2, 3]"
    using get_reg_ready [OF 3(3) words_123(1,2)] get_reg_ready [OF 3(3) words_123(3,4)]
      get_reg_ready [OF 3(3) words_123(5,6)] by (simp add: get_regs_def w w(1) [simplified])
  then show ?thesis using 3(3) by (simp add: Vcpu_set_regs_def Vcpu_get_regs_def s check_def)
qed

lemma smoke_vcpu_passes:
  assumes "ready me i p" "i \<noteq> kInvalid" "\<And>off. sync_keeps w off" "\<forall>t \<in> set ts. known_exits t" "run_ends ts"
  shows "\<exists>cs q. smoke_vcpu me getenv w ts i p = Some (cs, HV_SUCCESS, q) \<and> length cs = 5 \<and> list_all snd cs \<and> ready me i q"
proof -
  obtain p1 where 1: "Vcpu_set_reg me i 0 0x4141414142424242 p = (Inr (), p1)" "ready me i p1"
    "g_vcpus (p_vm p1) (unat i) = ctx_wr (off_x 0) 0x4141414142424242 (g_vcpus (p_vm p) (unat i))"
    using Vcpu_set_reg_ready [OF assms(1) words_123(7,8)] by blast
  have 2: "Vcpu_reg me i 0 p1 = (Inr 0x4141414142424242, p1)"
    using Vcpu_reg_ready [OF 1(2) words_123(7,8)] by (simp add: 1(3))
  obtain p3 where 3: "Vcpu_set_reg me i 31 0x1000000 p1 = (Inr (), p3)" "ready me i p3"
    using Vcpu_set_reg_ready [OF 1(2) words_123(9,10)] by blast
  obtain p4 where 4: "Vcpu_set_reg me i HV_REG_CPSR 0x3c5 p3 = (Inr (), p4)" "ready me i p4"
    using set_cpsr_ready [OF 3(2), of "0x3c5"] by (auto simp: Vcpu_set_reg_def check_def)
  obtain p5 where 5: "(case Vcpu_sys_reg w me i HV_SYS_REG_SCTLR_EL1 p4 of (Inl e, q) \<Rightarrow> (Inl e, q)
      | (Inr v, q) \<Rightarrow> Vcpu_set_sys_reg w me i HV_SYS_REG_SCTLR_EL1 v q) = (Inr (), p5)" "ready me i p5"
    using sysreg_copy_ready [OF 4(2) assms(3)] by blast
  obtain p6 where 6: "Vcpu_set_regs me i [(1, 1), (2, 2), (3, 3)] p5 = (Inr (), p6)" "ready me i p6"
    "Vcpu_get_regs me i [1, 2, 3] p6 = (Inr [1, 2, 3], p6)" using batch_ready [OF 5(2)] by blast
  obtain p7 where 7: "Vcpu_set_vtimer_mask me i False p6 = (Inr (), p7)" "ready me i p7"
    using set_mask_ready [OF 6(2), of False] by (auto simp: Vcpu_set_vtimer_mask_def check_def)
  obtain e p8 where 8: "Vcpu_run_once me getenv ts i p7 = Some (Inr e, p8)"
    "ei_reason e \<noteq> HV_EXIT_REASON_UNKNOWN" "ready me i p8" using run_ready [OF 7(2) assms(4,5)] by blast
  have 9: "Vcpu_reg me i 31 p8 = (Inr (ctx_rd (g_vcpus (p_vm p8) (unat i)) OHV_RW_PC), p8)"
    by (rule Vcpu_reg_ready [OF 8(3) words_123(9,10)])
  show ?thesis
    by (simp add: smoke_vcpu_def one_call_def 1(1) 2 3(1) 4(1) 5 6 7(1) 8 9 assms(2))
qed


section \<open>The whole program\<close>

text \<open>A kernel that grants what it is asked for, and maps a page head with the version it should
  have.\<close>

definition grants :: "'k kernel \<Rightarrow> bool" where
  "grants K \<longleftrightarrow> (\<forall>k. fst (k_capabilities K k) = HV_SUCCESS) \<and> (\<forall>k a. fst (k_vm_create K k a) = HV_SUCCESS)
     \<and> (\<forall>k. fst (k_vm_destroy K k) = HV_SUCCESS) \<and> (\<forall>k t m. fst (k_map K k t m) = HV_SUCCESS)
     \<and> (\<forall>k n. case k_vcpu_create K k n of
            (r, _, m, _) \<Rightarrow> r = HV_SUCCESS \<and> drop_bit 32 (rd64 m OHV_RO_VER) = OHV_STATE_VER_MAGIC)"

lemma map_op_granted:
  assumes "grants K" "g_vm_alive g"
  shows "fst (map_op K t uva 0x1000000 kSize flags g k) = HV_SUCCESS"
proof -
  obtain r k' where m: "k_map K k t \<lparr>mi_uva = uva, mi_ipa = 0x1000000, mi_size = 0x100000, mi_flags = flags, mi_asid = 0\<rparr>
      = (r, k')" by force
  then have "r = HV_SUCCESS" using assms(1) by (metis fst_conv grants_def)
  with m assms(2) show ?thesis by (simp add: map_op_def require_vm_def kSize_def)
qed

lemma Vm_map_granted:
  assumes "grants K" "g_vm_alive (p_vm p)" "uva \<noteq> 0"
  shows "\<exists>q. Vm_map K uva 0x1000000 kSize flags p = (Inr (), q) \<and> g_vm_alive (p_vm q)
    \<and> g_vcpus (p_vm q) = g_vcpus (p_vm p) \<and> tl_current_vcpu (p_vm q) = tl_current_vcpu (p_vm p)"
  using map_op_granted [OF assms(1,2), of TRAP_VM_MAP uva flags "p_kernel p"] assms(2,3)
  by (auto simp: Vm_map_def hv_vm_map_def check_def split: prod.split)

lemma Vm_unmap_granted:
  assumes "grants K" "g_vm_alive (p_vm p)"
  shows "\<exists>q. Vm_unmap K 0x1000000 kSize p = (Inr (), q) \<and> g_vm_alive (p_vm q)
    \<and> g_vcpus (p_vm q) = g_vcpus (p_vm p) \<and> tl_current_vcpu (p_vm q) = tl_current_vcpu (p_vm p)"
proof -
  let ?g = "(p_vm p)\<lparr>g_maps := map_forget 0x1000000 (g_maps (p_vm p))\<rparr>"
  have "g_vm_alive ?g" using assms(2) by simp
  from map_op_granted [OF assms(1) this, of TRAP_VM_UNMAP 0 0 "p_kernel p"] assms(2) show ?thesis
    by (auto simp: Vm_unmap_def hv_vm_unmap_def check_def Let_def split: prod.split)
qed

lemma Vm_new_granted:
  assumes "grants K" "\<not> g_vm_alive (p_vm p)"
  shows "\<exists>q. Vm_new K c o' (h, p) = (HV_SUCCESS, h\<lparr>h_vm := (h_vm h)(o' \<mapsto> True)\<rparr>, q) \<and> g_vm_alive (p_vm q)
    \<and> g_vcpus (p_vm q) = g_vcpus (p_vm p) \<and> tl_current_vcpu (p_vm q) = tl_current_vcpu (p_vm p)"
proof -
  obtain r g k where c: "hv_vm_create K c (p_vm p) (p_kernel p) = (r, g, k)" by (rule prod_cases3)
  have v: "fst (k_vm_create K k a) = HV_SUCCESS" for k a using assms(1) by (simp add: grants_def)
  have "r = HV_SUCCESS" using c assms(2) v
    by (auto simp: hv_vm_create_def Let_def split: prod.splits if_split_asm) (metis fst_conv)+
  with c have "g_vm_alive g \<and> g_vcpus g = g_vcpus (p_vm p) \<and> tl_current_vcpu g = tl_current_vcpu (p_vm p)"
  proof (cases rule: hv_vm_create_cases)
    case (created i lvl h' k2)
    then show ?thesis using nested_spaces_create_frame [of K kNestedSpaces h' k2 g k] by (auto split: if_splits)
  qed (simp_all add: hv_codes)
  with \<open>r = HV_SUCCESS\<close> show ?thesis by (simp add: Vm_new_def c)
qed

lemma Vcpu_new_granted:
  assumes "grants K" "g_vm_alive (p_vm p)" "tl_current_vcpu (p_vm p) me = None" "\<not> used (g_vcpus (p_vm p) 0)"
  shows "\<exists>q. Vcpu_new K me o' (h, p) = (HV_SUCCESS, h\<lparr>h_vcpu := (h_vcpu h)(o' \<mapsto> 0)\<rparr>, q) \<and> ready me 0 q"
proof -
  have f: "free_slot (p_vm p) = Some 0" using assms(4) by (simp add: free_slot_def kMaxVcpuIds_def upt_rec)
  obtain r out g k where c: "hv_vcpu_create K (g_ohv_cfg (p_cfg p)) me True True (p_vm p) (p_kernel p) = (r, out, g, k)"
    by (rule prod_cases4)
  have "case k_vcpu_create K k n of (r, _, m, _) \<Rightarrow> r = HV_SUCCESS \<and> drop_bit 32 (rd64 m OHV_RO_VER) = OHV_STATE_VER_MAGIC" for k n
    using assms(1) by (simp add: grants_def)
  from this [of "p_kernel p" "of_nat 0"] have r: "r = HV_SUCCESS" using c assms(2,3) f
    by (auto simp: hv_vcpu_create_def Let_def split: prod.splits if_split_asm)
  from create_success [OF c [unfolded r] f] obtain m mapped where g: "out = Some 0"
    "g = (upd_slot 0 (vcpu_init (g_ohv_cfg (p_cfg p)) (p_vm p) me 0 m mapped) (p_vm p))
      \<lparr>tl_current_vcpu := (tl_current_vcpu (p_vm p))(me := Some 0)\<rparr>" by blast
  show ?thesis using assms(2)
    by (simp add: Vcpu_new_def c r g upd_slot_def vcpu_init_keeps_request ready_def owned_vcpu_def find_vcpu_def kMaxVcpuIds_def)
qed

lemma valid_0: "(0 :: u64) \<noteq> kInvalid" by (simp add: kInvalid_value)

lemma smoke_vm_passes:
  assumes "grants K" "g_vm_alive (p_vm p)" "tl_current_vcpu (p_vm p) me = None" "\<not> used (g_vcpus (p_vm p) 0)"
    and "page \<noteq> 0" "page \<noteq> MAP_FAILED"
    and "\<And>off. sync_keeps w off" "\<forall>t \<in> set ts. known_exits t" "run_ends ts"
  shows "\<exists>cs q. smoke_vm K me getenv w ts page (h, p) = Some (cs, HV_SUCCESS, h\<lparr>h_vcpu := (h_vcpu h)(2 := None)\<rparr>, q)
    \<and> length cs = 8 \<and> list_all snd cs \<and> g_vm_alive (p_vm q)"
proof -
  obtain p1 where 1: "Vm_map K page 0x1000000 kSize 7 p = (Inr (), p1)" "g_vm_alive (p_vm p1)"
    "g_vcpus (p_vm p1) = g_vcpus (p_vm p)" "tl_current_vcpu (p_vm p1) = tl_current_vcpu (p_vm p)"
    using Vm_map_granted [OF assms(1,2,5)] by blast
  obtain p2 where 2: "Vm_unmap K 0x1000000 kSize p1 = (Inr (), p2)" "g_vm_alive (p_vm p2)"
    "g_vcpus (p_vm p2) = g_vcpus (p_vm p)" "tl_current_vcpu (p_vm p2) = tl_current_vcpu (p_vm p)"
    using Vm_unmap_granted [OF assms(1) 1(2)] 1(3,4) by auto
  obtain p3 where 3: "Vm_map K page 0x1000000 kSize 7 p2 = (Inr (), p3)" "g_vm_alive (p_vm p3)"
    "g_vcpus (p_vm p3) = g_vcpus (p_vm p)" "tl_current_vcpu (p_vm p3) = tl_current_vcpu (p_vm p)"
    using Vm_map_granted [OF assms(1) 2(2) assms(5)] 2(3,4) by auto
  obtain p4 where 4: "Vcpu_new K me 2 (h, p3) = (HV_SUCCESS, h\<lparr>h_vcpu := (h_vcpu h)(2 \<mapsto> 0)\<rparr>, p4)" "ready me 0 p4"
    using Vcpu_new_granted [OF assms(1) 3(2), of me 2 h] 3(3,4) assms(3,4) by auto
  obtain cs q where 5: "smoke_vcpu me getenv w ts 0 p4 = Some (cs, HV_SUCCESS, q)" "length cs = 5" "list_all snd cs" "ready me 0 q"
    using smoke_vcpu_passes [OF 4(2) valid_0 assms(7-9)] by blast
  have d: "\<exists>q'. Vcpu_delete K me 2 (h\<lparr>h_vcpu := (h_vcpu h)(2 \<mapsto> 0)\<rparr>, q)
      = (h\<lparr>h_vcpu := (h_vcpu h)(2 := None)\<rparr>, q') \<and> g_vm_alive (p_vm q')"
    using 5(4) by (auto simp: Vcpu_delete_def ready_def hv_vcpu_destroy_def upd_slot_def Let_def split: prod.split option.split)
  then show ?thesis using 5(2,3)
    by (auto simp: smoke_vm_def one_call_def 1(1) 2(1) 3(1) 4(1) 5(1) var_or_def assms(6))
qed

lemma config_asks:
  "\<exists>c. Config_set_isa 3 (hv_vm_config_create True) = Inr (Some c) \<and> Config_set_el2 True (Some c) = Inr (Some (c\<lparr>el2_enabled := 1\<rparr>))"
  by (simp add: Config_set_isa_def hv_vm_config_set_isa_def hv_vm_config_create_def check_def masks
      Config_set_el2_def hv_vm_config_set_el2_enabled_def OHV_VM_ISA_INTERNAL_def)

lemma Vm_delete_granted:
  assumes "grants K" "g_vm_alive (p_vm p)" "h_vm h o' = Some True"
  shows "\<exists>q. Vm_delete K o' (h, p) = (h\<lparr>h_vm := (h_vm h)(o' := None)\<rparr>, q)
    \<and> \<not> g_vm_alive (p_vm q) \<and> (\<forall>n < 64. \<not> used (g_vcpus (p_vm q) n))"
proof -
  obtain r k where d: "k_vm_destroy K (p_kernel p) = (r, k)" by force
  then have "r = HV_SUCCESS" using assms(1) by (metis fst_conv grants_def)
  with assms(2,3) d show ?thesis by (simp add: Vm_delete_def hv_vm_destroy_def new_VcpuSlot_def kMaxVcpuIds_def)
qed

lemma capability_granted: "grants K \<Longrightarrow> \<exists>k'. hv_capability K HV_CAP_VCPUMAX True k = (HV_SUCCESS, Some 64, k')"
  by (cases "k_capabilities K k") (auto simp: hv_capability_def grants_def dest: spec [of _ k])


text \<open>The witness: a kernel that grants everything, a world whose sync trap changes nothing, and a
  run another thread ends in its second pass.\<close>

lemma busy_known: "known_exits (busy_turn (\<lambda>q. q))" "known_exits (busy_turn ask_out)"
  by (simp_all add: known_exits_def busy_turn_ok) (simp_all add: busy_turn_def ask_out_def test_world_def)

lemma granting_grants: "grants granting_kernel"
  by (simp add: grants_def granting_kernel_def layout masks)

lemma asked_out_ends: "run_ends [busy_turn ask_out]"
proof -
  have "fst (run_turn (with_cfg c (busy_turn ask_out)) st s) \<noteq> None" for c st s
  proof -
    obtain e st1 s1 where g: "enter_guest (with_cfg c (busy_turn ask_out)) st s = (e, st1, s1)" by (rule prod_cases3)
    have "exit_requested s1"
      using g by (auto simp: enter_guest_def with_cfg_def busy_turn_def ask_out_def Let_def split: prod.splits)
    then show ?thesis by (simp add: run_turn_def g)
  qed
  then show ?thesis unfolding run_ends_def
    by (simp del: not_None_eq split: prod.split option.split) (metis fst_conv)
qed



section \<open>Other methods\<close>

text \<open>The virtual timer's mask reads back, and a broadcast that names a number past the table throws
  before it has asked anybody.\<close>

lemma vtimer_mask_reads_back:
  assumes "ready me i p"
  shows "\<exists>q. Vcpu_set_vtimer_mask me i m p = (Inr (), q) \<and> Vcpu_vtimer_masked me i q = (Inr m, q)"
proof -
  define t where "t = ctl_bits ctl_timer OHV_TIMER_MASK m (g_vcpus (p_vm p) (unat i))"
  have u: "used t = used (g_vcpus (p_vm p) (unat i))"
    by (simp add: t_def ctl_bits_def ctx_upd_def ctx_wr_def ctx_dirty_def Let_def)
  have w: "ctx_rd t ctl_timer AND OHV_TIMER_MASK = (if m then OHV_TIMER_MASK else 0)"
  proof -
    have "(a AND NOT b) AND b = 0" "(a OR b) AND b = b" for a b :: u64
      by (rule bit_word_eqI, auto simp: bit_and_iff bit_or_iff bit_not_iff)+
    then show ?thesis by (simp add: t_def ctl_bits_def ctx_upd_def Let_def layout)
  qed
  obtain g where g: "hv_vcpu_set_vtimer_mask me (p_vm p) i m = (HV_SUCCESS, g)" "g_vcpus g (unat i) = t"
    "ready me i (p\<lparr>p_vm := g\<rparr>)"
    using slot_set_ready [OF assms _ u, of "\<lambda>s. (HV_SUCCESS, ctl_bits ctl_timer OHV_TIMER_MASK m s)"]
    by (auto simp: hv_vcpu_set_vtimer_mask_def t_def)
  have "owned_vcpu me g i = Some (unat i)" using g(3) by (simp add: ready_def)
  then show ?thesis using g(1,2) w
    by (simp add: Vcpu_set_vtimer_mask_def Vcpu_vtimer_masked_def hv_vcpu_get_vtimer_mask_def slot_get_def
        check_def var_or_def masks)
qed

lemma exit_vcpus_refused:
  assumes "length ids < 2 ^ 32" "\<exists>i \<in> set ids. 64 \<le> i"
  shows "exit_vcpus K ids p = (Inl HV_BAD_ARGUMENT, p)"
proof -
  have "unat (of_nat (length ids) :: u32) = length ids" using assms(1) by (simp add: unat_of_nat take_bit_nat_eq_self)
  then show ?thesis using assms(2)
    by (auto simp: exit_vcpus_def hv_vcpus_exit_def Let_def kMaxVcpuIds_def list_ex_iff check_def hv_codes)
qed

end
