(* ===== verification/Ohv_Decode.thy ===== *)
theory Ohv_Decode
  imports Ohv_Prelude
begin

text \<open>
  The instruction decoder of \<open>tools/offset_probe.cpp\<close>: the kinds of instruction the tool tells
  apart, the two load and store forms, the rest of the patterns and the branch offset.

  The lemmas relate the decoder to the architecture's encodings, written as words over their
  fields: what it reads exactly, and what it takes for unknown.
\<close>

section \<open>Decoder\<close>

datatype Kind = I_UNK | I_LDR | I_STR | I_LDUR | I_STUR | I_MOVZ | I_MOVK | I_SVC | I_RET | I_RETAB
  | I_BL | I_B

text \<open>\<open>imm\<close> is an \<open>int32_t\<close>: its value is \<open>sint\<close> of the word.\<close>

record Insn =
  i_kind :: Kind
  i_rt :: u8
  i_imm :: u32
  i_size :: u8

definition no_insn :: Insn where
  "no_insn = \<lparr>i_kind = I_UNK, i_rt = 0, i_imm = 0, i_size = 0\<rparr>"

definition insn_field :: "u32 \<Rightarrow> nat \<Rightarrow> u32 \<Rightarrow> u32" where
  "insn_field w lo m = drop_bit lo w AND m"

definition dec_uimm :: "u32 \<Rightarrow> Insn option" where
  "dec_uimm w =
     (if w AND 0x3b000000 \<noteq> 0x39000000 then None
      else let size = drop_bit 30 w; v = insn_field w 26 1; opc = insn_field w 22 3 in
        if opc AND 2 \<noteq> 0 \<and> \<not> (v \<noteq> 0 \<and> size = 0) then None
        else let bytes = (if v \<noteq> 0 then (if 2 \<le> opc \<and> size = 0 then 16 else push_bit (unat size) 1)
                          else push_bit (unat size) 1) :: u8
             in Some \<lparr>i_kind = (if opc AND 1 \<noteq> 0 then I_LDR else I_STR), i_rt = ucast (w AND 31),
                      i_imm = insn_field w 10 0xfff * ucast bytes, i_size = bytes\<rparr>)"

definition dec_ur :: "u32 \<Rightarrow> Insn option" where
  "dec_ur w =
     (if w AND 0x3fe00400 \<noteq> 0x38000000 then None
      else let size = drop_bit 30 w; v = insn_field w 26 1; opc = insn_field w 22 3 in
        if v \<noteq> 0 then None
        else let imm9 = insn_field w 12 0x1ff
             in Some \<lparr>i_kind = (if opc AND 1 \<noteq> 0 then I_LDUR else I_STUR), i_rt = ucast (w AND 31),
                      i_imm = (if imm9 AND 0x100 \<noteq> 0 then imm9 - 0x200 else imm9),
                      i_size = push_bit (unat size) 1\<rparr>)"

definition decode :: "u32 \<Rightarrow> Insn" where
  "decode w =
     (case dec_uimm w of Some i \<Rightarrow> i | None \<Rightarrow>
      (case dec_ur w of Some i \<Rightarrow> i | None \<Rightarrow>
        if w AND 0x7f800000 = 0x52800000
        then let top = insn_field w 29 3; hw = insn_field w 21 3
             in no_insn\<lparr>i_kind := (if top = 3 then I_MOVK else if top = 2 then I_MOVZ else I_UNK),
                        i_rt := ucast (w AND 31),
                        i_imm := push_bit (16 * unat hw) (insn_field w 5 0xffff)\<rparr>
        else if w AND 0xfff000ff = 0xd4000001
        then no_insn\<lparr>i_kind := I_SVC, i_imm := insn_field w 5 0xffff\<rparr>
        else if w = 0xd65f03c0 then no_insn\<lparr>i_kind := I_RET\<rparr>
        else if w AND 0xfffffc1f = 0xd65f0c00 then no_insn\<lparr>i_kind := I_RETAB\<rparr>
        else if w AND 0xfc000000 = 0x94000000 then no_insn\<lparr>i_kind := I_BL\<rparr>
        else if w AND 0xfc000000 = 0x14000000 then no_insn\<lparr>i_kind := I_B\<rparr>
        else no_insn))"

definition branch_off :: "u32 \<Rightarrow> u64" where
  "branch_off w = scast (signed_drop_bit 6 (push_bit 6 (w AND 0x03ffffff)) * 4 :: u32)"

section \<open>What the decoder recognises\<close>

text \<open>The A64 encodings of a load or store with an unsigned immediate, of a load or store with an
  unscaled one, and of the two branches with an immediate, as words over their fields.\<close>

definition ldst_uimm :: "2 word \<Rightarrow> 1 word \<Rightarrow> 2 word \<Rightarrow> 12 word \<Rightarrow> 5 word \<Rightarrow> 5 word \<Rightarrow> u32" where
  "ldst_uimm sz v opc imm rn rt =
     0x39000000 OR push_bit 30 (ucast sz) OR push_bit 26 (ucast v)
     OR push_bit 22 (ucast opc) OR push_bit 10 (ucast imm) OR push_bit 5 (ucast rn) OR ucast rt"

definition ldst_unscaled :: "2 word \<Rightarrow> 2 word \<Rightarrow> 9 word \<Rightarrow> 5 word \<Rightarrow> 5 word \<Rightarrow> u32" where
  "ldst_unscaled sz opc imm rn rt =
     0x38000000 OR push_bit 30 (ucast sz) OR push_bit 22 (ucast opc) OR push_bit 12 (ucast imm)
     OR push_bit 5 (ucast rn) OR ucast rt"

definition branch_imm :: "bool \<Rightarrow> 26 word \<Rightarrow> u32" where
  "branch_imm link k = (if link then 0x94000000 else 0x14000000) OR ucast k"

lemma word_bits_eqI: "(\<And>n. n < LENGTH('a) \<Longrightarrow> bit a n = bit b n) \<Longrightarrow> a = (b :: 'a::len word)"
  by (rule bit_word_eqI)

lemma no_bit_past: "LENGTH('a) \<le> n \<Longrightarrow> \<not> bit (w :: 'a::len word) n"
  using bit_imp_le_length by fastforce

lemma below_32: "[0..<32] = [0, 1, 2, 3, 4, 5, 6, 7, 8, 9, 10, 11, 12, 13, 14, 15, 16, 17, 18, 19,
    20, 21, 22, 23, 24, 25, 26, 27, 28, 29, 30, 31]"
  by code_simp

lemma u32_eqI: "list_all (\<lambda>n. bit a n = bit b n) [0..<32] \<Longrightarrow> a = (b :: u32)"
  by (rule bit_word_eqI) (simp add: list_all_iff)

lemma uimm_fields:
  fixes sz opc :: "2 word" and v :: "1 word" and imm :: "12 word" and rn rt :: "5 word"
  defines "w \<equiv> ldst_uimm sz v opc imm rn rt"
  shows "w AND 0x3b000000 = 0x39000000" "drop_bit 30 w = ucast sz" "insn_field w 26 1 = ucast v"
    "insn_field w 22 3 = ucast opc" "insn_field w 10 0xfff = ucast imm" "w AND 31 = ucast rt"
  by (rule u32_eqI; simp add: below_32 w_def ldst_uimm_def insn_field_def bit_simps no_bit_past)+

lemma unscaled_fields:
  fixes sz opc :: "2 word" and imm :: "9 word" and rn rt :: "5 word"
  defines "w \<equiv> ldst_unscaled sz opc imm rn rt"
  shows "w AND 0x3b000000 = 0x38000000" "drop_bit 30 w = ucast sz" "insn_field w 26 1 = 0"
    "insn_field w 22 3 = ucast opc" "insn_field w 12 0x1ff = ucast imm" "w AND 31 = ucast rt"
    "w AND 0x3fe00400 = 0x38000000 OR push_bit 22 (ucast opc)"
  by (rule u32_eqI; simp add: below_32 w_def ldst_unscaled_def insn_field_def bit_simps no_bit_past)+

lemma masked_differs:
  fixes w :: u32
  shows "bit w n \<Longrightarrow> bit m n \<Longrightarrow> \<not> bit c n \<Longrightarrow> w AND m \<noteq> c"
    and "\<not> bit w n \<Longrightarrow> bit c n \<Longrightarrow> w AND m \<noteq> c"
  by (auto simp: bit_simps)

text \<open>Past the loads and stores every pattern has bit 27 clear.\<close>

lemma decode_27:
  assumes "bit w 27"
  shows "decode w = (case dec_uimm w of Some i \<Rightarrow> i | None \<Rightarrow> (case dec_ur w of Some i \<Rightarrow> i | None \<Rightarrow> no_insn))"
proof -
  have "w AND m \<noteq> c" if "bit m 27" "\<not> bit c 27" for m c using masked_differs(1) [OF assms] that by blast
  moreover have "w \<noteq> 0xd65f03c0" using assms by (auto simp: bit_simps)
  ultimately show ?thesis unfolding decode_def by (simp split: option.split)
qed

lemma uimm_not_ur: "w AND 0x3b000000 = 0x39000000 \<Longrightarrow> dec_ur w = None"
proof -
  assume a: "w AND 0x3b000000 = 0x39000000"
  have "bit (w AND 0x3b000000) 24" unfolding a by simp
  then have "bit w 24" by (simp add: bit_simps)
  then show ?thesis by (auto simp: dec_ur_def dest: masked_differs(1) [of w 24 "0x3fe00400" "0x38000000"])
qed

lemma ur_bits: "dec_ur w = Some i \<Longrightarrow> \<not> bit w 22"
  using masked_differs(1) [of w 22 "0x3fe00400" "0x38000000"] by (auto simp: dec_ur_def split: if_splits)

lemma bit27: "bit (ldst_uimm sz v opc imm rn rt) 27" "bit (ldst_unscaled sz opc off rn rt) 27"
  by (simp_all add: ldst_uimm_def ldst_unscaled_def bit_simps)

lemma bit_values: "(b :: 1 word) = 0 \<or> b = 1" "(c :: 2 word) = 0 \<or> c = 1 \<or> c = 2 \<or> c = 3"
proof -
  have "unat b < 2" "unat c < 4" using unsigned_less [of b] unsigned_less [of c] by simp_all
  then show "b = 0 \<or> b = 1" "c = 0 \<or> c = 1 \<or> c = 2 \<or> c = 3" by (auto simp: word_unat_eq_iff)
qed

lemma reg_field: "(ucast (ucast (r :: 5 word) :: u32) :: u8) = ucast r"
  by (rule bit_word_eqI) (simp add: bit_simps no_bit_past)

definition uimm_bytes :: "2 word \<Rightarrow> 2 word \<Rightarrow> u8" where
  "uimm_bytes sz opc = (if bit opc 1 then 16 else push_bit (unat sz) 1)"

lemma opc_bits:
  "(ucast (opc :: 2 word) AND 2 :: u32) = 0 \<longleftrightarrow> \<not> bit opc 1"
  "(ucast opc AND 1 :: u32) = 0 \<longleftrightarrow> \<not> bit opc 0"
  "2 \<le> (ucast opc :: u32) \<longleftrightarrow> bit opc 1"
proof -
  show "(ucast opc AND 2 :: u32) = 0 \<longleftrightarrow> \<not> bit opc 1"
    using and_bit_mask_eq_0 [of "ucast opc :: u32" 1] by (simp add: bit_simps)
  show "(ucast opc AND 1 :: u32) = 0 \<longleftrightarrow> \<not> bit opc 0"
    using and_bit_mask_eq_0 [of "ucast opc :: u32" 0] by (simp add: bit_simps)
  show "2 \<le> (ucast opc :: u32) \<longleftrightarrow> bit opc 1"
    using bit_values(2) [of opc] by (auto simp: word_le_nat_alt)
qed

lemma size_bits:
  "(ucast (v :: 1 word) :: u32) = 0 \<longleftrightarrow> v \<noteq> 1" "(ucast (sz :: 2 word) :: u32) = 0 \<longleftrightarrow> sz = 0"
  "unat (ucast sz :: u32) = unat sz"
  using bit_values(1) [of v] bit_values(2) [of sz] by auto

lemma decode_uimm:
  "decode (ldst_uimm sz v opc imm rn rt) =
    (if bit opc 1 \<and> \<not> (v = 1 \<and> sz = 0) then no_insn
     else \<lparr>i_kind = (if bit opc 0 then I_LDR else I_STR), i_rt = ucast rt,
           i_imm = ucast imm * ucast (uimm_bytes sz opc), i_size = uimm_bytes sz opc\<rparr>)"
proof -
  note f = uimm_fields [of sz v opc imm rn rt]
  have d: "dec_uimm (ldst_uimm sz v opc imm rn rt) =
    (if bit opc 1 \<and> \<not> (v = 1 \<and> sz = 0) then None
     else Some \<lparr>i_kind = (if bit opc 0 then I_LDR else I_STR), i_rt = ucast rt,
           i_imm = ucast imm * ucast (uimm_bytes sz opc), i_size = uimm_bytes sz opc\<rparr>)"
    by (simp add: dec_uimm_def f Let_def opc_bits size_bits uimm_bytes_def reg_field)
  show ?thesis
    unfolding decode_27 [OF bit27(1)] uimm_not_ur [OF f(1)] d by auto
qed

lemma unat_uimm_bytes: "unat (uimm_bytes sz opc) = (if bit opc 1 then 16 else 2 ^ unat sz)"
  using bit_values(2) [of sz] by (auto simp: uimm_bytes_def)

lemma sint_in_range:
  "- (2 ^ (LENGTH('a) - 1)) \<le> k \<Longrightarrow> k < 2 ^ (LENGTH('a) - 1) \<Longrightarrow> sint (of_int k :: 'a::len word) = k"
  by (simp add: signed_of_int signed_take_bit_int_eq_self)

lemma uimm_value: "sint (ucast imm * ucast (uimm_bytes sz opc) :: u32) = int (unat (imm :: 12 word)) * int (unat (uimm_bytes sz opc))"
proof -
  have b: "uint (uimm_bytes sz opc) \<le> 16"
    using bit_values(2) [of sz] by (auto simp: uimm_bytes_def)
  have i: "uint imm < 4096" using unsigned_less [of imm] by simp
  have "uint imm * uint (uimm_bytes sz opc) \<le> 4096 * 16" using i b by (intro mult_mono) auto
  then have "sint (of_int (uint imm * uint (uimm_bytes sz opc)) :: u32) = uint imm * uint (uimm_bytes sz opc)"
    by (intro sint_in_range) (simp_all add: order_trans [OF _ mult_nonneg_nonneg])
  then show ?thesis by simp
qed

lemma scast_imm9: "(if ucast imm AND 0x100 \<noteq> (0 :: u32) then ucast imm - 0x200 else ucast imm) = (scast (imm :: 9 word) :: u32)"
proof -
  have a: "(ucast imm AND 0x100 = (0 :: u32)) = (\<not> bit imm 8)"
    using and_bit_mask_eq_0 [of "ucast imm :: u32" 8] by (simp add: bit_simps)
  have u: "uint imm < 512" using unsigned_less [of imm] by simp
  have s: "sint imm = uint imm - 512 * of_bool (bit imm 8)"
    using u
    by (simp add: sint_uint signed_take_bit_eq_take_bit_minus bit_uint_iff take_bit_int_eq_self)
  have "scast imm = (word_of_int (sint imm) :: u32)" by simp
  also have "\<dots> = ucast imm - 512 * of_bool (bit imm 8)" by (simp add: s)
  finally have e: "scast imm = ucast imm - (512 * of_bool (bit imm 8) :: u32)" .
  show ?thesis by (simp add: a e)
qed

lemma decode_unscaled:
  "decode (ldst_unscaled sz opc imm rn rt) =
    (if opc = 0 then \<lparr>i_kind = I_STUR, i_rt = ucast rt, i_imm = scast imm, i_size = push_bit (unat sz) 1\<rparr>
     else no_insn)"
proof -
  note f = unscaled_fields [of sz opc imm rn rt]
  have u: "dec_uimm (ldst_unscaled sz opc imm rn rt) = None" by (simp add: dec_uimm_def f)
  have k: "(0x38000000 OR push_bit 22 (ucast opc) = (0x38000000 :: u32)) = (opc = 0)"
    using bit_values(2) [of opc] by auto
  have d: "dec_ur (ldst_unscaled sz opc imm rn rt) =
    (if opc = 0 then Some \<lparr>i_kind = I_STUR, i_rt = ucast rt, i_imm = scast imm, i_size = push_bit (unat sz) 1\<rparr>
     else None)"
    unfolding dec_ur_def f k Let_def scast_imm9 size_bits reg_field by auto
  show ?thesis unfolding decode_27 [OF bit27(2)] u d by simp
qed

lemma sint_small: "- (2 ^ (LENGTH('a) - 1)) \<le> sint (k :: 'a::len word) \<and> sint k < 2 ^ (LENGTH('a) - 1)"
  using sint_ge [of k] sint_lt [of k] by simp

lemma branch_value: "branch_off (branch_imm link k) = 4 * scast k"
  and branch_sint: "sint (branch_off (branch_imm link k)) = 4 * sint k"
proof -
  have f: "branch_imm link k AND 0x03ffffff = ucast k"
    by (rule u32_eqI; simp add: below_32 branch_imm_def bit_simps no_bit_past)
  have e: "signed_drop_bit 6 (push_bit 6 (ucast k :: u32)) = scast k"
    by (rule u32_eqI; simp add: below_32 bit_signed_drop_bit_iff bit_simps no_bit_past)
  have k: "- (2 ^ 25) \<le> sint k" "sint k < 2 ^ 25" using sint_small [of k] by simp_all
  have "sint (of_int (sint k * 4) :: u32) = sint k * 4"
    using k by (intro sint_in_range) simp_all
  then have s: "sint (scast k * 4 :: u32) = sint k * 4" by simp
  have v: "branch_off (branch_imm link k) = of_int (sint k * 4)"
    unfolding branch_off_def f e scast_eq [of "scast k * 4"] s ..
  then show "branch_off (branch_imm link k) = 4 * scast k" by simp
  have "sint (of_int (sint k * 4) :: u64) = sint k * 4"
    using k by (intro sint_in_range) simp_all
  then show "sint (branch_off (branch_imm link k)) = 4 * sint k" unfolding v by simp
qed

lemma decode_branch: "decode (branch_imm link k) = no_insn\<lparr>i_kind := (if link then I_BL else I_B)\<rparr>"
proof -
  let ?w = "branch_imm link k"
  have b: "bit ?w n = bit ((if link then 0x94000000 else 0x14000000) :: u32) n" if "26 \<le> n" for n
    using that by (simp add: branch_imm_def bit_simps no_bit_past)
  have bits: "\<not> bit ?w 27" "\<not> bit ?w 29" "bit ?w 28" "bit ?w 26" "\<not> bit ?w 30" by (simp_all add: b)
  have h: "?w AND 0xfc000000 = (if link then 0x94000000 else 0x14000000)"
    by (rule u32_eqI; simp add: below_32 branch_imm_def bit_simps no_bit_past)
  have "dec_uimm ?w = None" "dec_ur ?w = None"
    using masked_differs(2) [OF bits(1), of "0x39000000" "0x3b000000"]
      masked_differs(2) [OF bits(1), of "0x38000000" "0x3fe00400"] by (simp_all add: dec_uimm_def dec_ur_def)
  moreover have "?w AND 0x7f800000 \<noteq> 0x52800000" "?w AND 0xfff000ff \<noteq> 0xd4000001"
    "?w AND 0xfffffc1f \<noteq> 0xd65f0c00"
    using masked_differs(2) [OF bits(5)] by simp_all
  moreover have "?w \<noteq> 0xd65f03c0" using bits(5) by (auto simp: bit_simps)
  ultimately show ?thesis by (simp add: decode_def h)
qed

lemma kind_split:
  assumes "dec_uimm w = None" "dec_ur w = None"
  shows "i_kind (decode w) \<notin> {I_LDUR, I_STUR, I_LDR, I_STR, I_MOVK}"
proof -
  have "insn_field w 29 3 \<noteq> 3" if "w AND 0x7f800000 = 0x52800000"
  proof
    assume "insn_field w 29 3 = 3"
    then have "bit (insn_field w 29 3) 0" by simp
    then have "bit w 29" by (simp add: insn_field_def bit_simps)
    with masked_differs(1) [of w 29 "0x7f800000" "0x52800000"] that show False by simp
  qed
  then show ?thesis using assms by (auto simp: decode_def no_insn_def)
qed

lemma decode_blind: "i_kind (decode w) \<noteq> I_LDUR" "i_kind (decode w) \<noteq> I_MOVK"
proof -
  have "i_kind i \<in> {I_LDR, I_STR}" if "dec_uimm w = Some i" for i
    using that by (auto simp: dec_uimm_def Let_def split: if_splits)
  moreover have "i_kind i = I_STUR" if "dec_ur w = Some i" for i
  proof -
    have "insn_field w 22 3 AND 1 = 0"
      using ur_bits [OF that] and_bit_mask_eq_0 [of "insn_field w 22 3" 0]
      by (simp add: insn_field_def bit_simps)
    then show ?thesis using that by (auto simp: dec_ur_def Let_def split: if_splits)
  qed
  ultimately have "i_kind (decode w) \<in> {I_LDR, I_STR, I_STUR} \<or> dec_uimm w = None \<and> dec_ur w = None"
    by (cases "dec_uimm w"; cases "dec_ur w") (auto simp: decode_def)
  then show "i_kind (decode w) \<noteq> I_LDUR" "i_kind (decode w) \<noteq> I_MOVK" using kind_split [of w] by auto
qed

text \<open>C36: The decoder reads a load or store with an unsigned immediate exactly: its
  direction, its register, its width, and its byte offset, the immediate times the width; the
  sign-extending loads and the prefetches, which have the same shape, are left unrecognised.  A
  branch is recognised with or without link, and its offset is four times the signed 26-bit
  immediate.\<close>

theorem decode_recognises:
  "decode (ldst_uimm sz v opc imm rn rt) =
    (if bit opc 1 \<and> \<not> (v = 1 \<and> sz = 0) then no_insn
     else \<lparr>i_kind = (if bit opc 0 then I_LDR else I_STR), i_rt = ucast rt,
           i_imm = ucast imm * ucast (uimm_bytes sz opc), i_size = uimm_bytes sz opc\<rparr>)
   \<and> sint (ucast imm * ucast (uimm_bytes sz opc) :: u32) = int (unat imm) * int (unat (uimm_bytes sz opc))
   \<and> unat (uimm_bytes sz opc) = (if bit opc 1 then 16 else 2 ^ unat sz)
   \<and> decode (branch_imm link k) = no_insn\<lparr>i_kind := (if link then I_BL else I_B)\<rparr>
   \<and> sint (branch_off (branch_imm link k)) = 4 * sint k"
  using decode_uimm uimm_value unat_uimm_bytes decode_branch branch_sint by blast

text \<open>What the decoder cannot see.  No word is ever decoded as a load with an
  unscaled immediate or as a \<open>movk\<close>: the mask of the first holds the load bit and the mask of the
  second the bit that tells the two moves apart, so an unscaled store is recognised, with its
  signed offset, and the loads of the same shape are not.  The two authenticated returns are not
  recognised either, so no body is seen to end at one.\<close>

theorem decode_blind_spots:
  "i_kind (decode w) \<noteq> I_LDUR \<and> i_kind (decode w) \<noteq> I_MOVK
   \<and> decode (ldst_unscaled sz opc imm9 rn rt) =
      (if opc = 0 then \<lparr>i_kind = I_STUR, i_rt = ucast rt, i_imm = scast imm9, i_size = push_bit (unat sz) 1\<rparr>
       else no_insn)
   \<and> decode 0xd65f0bff = no_insn \<and> decode 0xd65f0fff = no_insn \<and> i_kind (decode 0xd65f03c0) = I_RET"
proof -
  have "decode 0xd65f0bff = no_insn" "decode 0xd65f0fff = no_insn" "i_kind (decode 0xd65f03c0) = I_RET"
    by (simp_all add: decode_def dec_uimm_def dec_ur_def no_insn_def)
  then show ?thesis using decode_blind decode_unscaled by blast
qed

end
