(* ===== verification/Ohv_Probe.thy ===== *)
theory Ohv_Probe
  imports Ohv_Decode Ohv_Vm "HOL-Library.Monad_Syntax"
begin

text \<open>
  The offset matcher of \<open>tools/offset_probe.cpp\<close>, which checks the numbers this library pins
  against the machine code of the installed framework: the pins, the open-addressing table of
  visited addresses, the bounded walk over call edges and the verdicts.

  What the tool gets from the dynamic linker is a parameter, \<open>image\<close>: the words of the mapped
  text, its bounds, the address of \<open>hv_trap\<close> and the exported symbols.  The printing is left out.

  The locale \<open>open_addressing\<close> is a table with a probing loop; the tool's table is interpreted in
  it.  The lemmas show that the table is the set of the addresses entered into it, that every walk
  ends and reports only offsets of instructions the call edges lead to, how the counts of the final
  line add up, and which pins are the numbers of the headers.
\<close>

section \<open>Pins\<close>

type_synonym pin = "string \<times> u64"

definition pins_config :: "pin list" where
  "pins_config = [(''granule'', 0x14), (''el2'', 24), (''vhe'', 25), (''isa'', 28)]"

definition pins_regs :: "pin list" where
  "pins_regs = [(''x0'', 0x008), (''fp'', 0x0f0), (''lr'', 0x0f8), (''sp'', 0x100), (''pc'', 0x108),
     (''cpsr'', 0x110)]"

definition pins_ro :: "pin list" where
  "pins_ro = [(''ver'', 0x4000), (''exit_reason'', 0x4008), (''esr'', 0x400c), (''instr'', 0x4010),
     (''far'', 0x4018), (''hpfar'', 0x4020), (''controls_mirror'', 0x4028), (''state_valid'', 0x4100),
     (''state_dirty'', 0x4108), (''state_used'', 0x4110)]"

definition pins_traps :: "pin list" where
  "pins_traps = [(''capabilities'', 0), (''vm_create'', 1), (''vm_destroy'', 2), (''vm_map'', 3),
     (''vm_unmap'', 4), (''vm_protect'', 5), (''vcpu_create'', 6), (''vcpu_destroy'', 7),
     (''sysregs_sync'', 8), (''vcpu_run'', 9), (''run_cancel'', 10), (''set_address_space'', 11),
     (''as_create'', 12), (''invalidate_tlb'', 13), (''stage1_tlb'', 14), (''set_svcr'', 15),
     (''amx_prepare'', 16), (''monitor_data_abort'', 17)]"

text \<open>The trap numbers of \<open>include/openhyp/ohv_core.h\<close>.\<close>

definition ohv_traps :: "(string \<times> u64) list" where
  "ohv_traps = [(''OHV_TRAP_CAPABILITIES'', 0), (''OHV_TRAP_VM_CREATE'', 1), (''OHV_TRAP_VM_DESTROY'', 2),
     (''OHV_TRAP_VM_MAP'', 3), (''OHV_TRAP_VM_UNMAP'', 4), (''OHV_TRAP_VM_PROTECT'', 5),
     (''OHV_TRAP_VCPU_CREATE'', 6), (''OHV_TRAP_VCPU_DESTROY'', 7), (''OHV_TRAP_VCPU_SYSREGS_SYNC'', 8),
     (''OHV_TRAP_VCPU_RUN'', 9), (''OHV_TRAP_VCPU_RUN_CANCEL'', 10),
     (''OHV_TRAP_VCPU_SET_ADDRESS_SPACE'', 11), (''OHV_TRAP_VM_ADDRESS_SPACE_CREATE'', 12),
     (''OHV_TRAP_VM_INVALIDATE_TLB'', 13), (''OHV_TRAP_VM_STAGE1_TLB_OP'', 14),
     (''OHV_TRAP_VCPU_SET_SVCR'', 15), (''OHV_TRAP_VCPU_AMX_PREPARE'', 16),
     (''OHV_TRAP_VM_MONITOR_DATA_ABORT'', 17)]"

section \<open>Collected numbers\<close>

text \<open>The arrays the walk fills: a value is added at the end unless it is there already or the
  array is full.\<close>

definition cap_add :: "nat \<Rightarrow> ('a \<Rightarrow> 'k) \<Rightarrow> 'a \<Rightarrow> 'a list \<Rightarrow> 'a list" where
  "cap_add m key x xs =
     (if list_ex (\<lambda>y. key y = key x) xs then xs else if length xs < m then xs @ [x] else xs)"

definition MAXOFFS :: nat where "MAXOFFS = 8192"
definition MAXHITS :: nat where "MAXHITS = 256"

type_synonym Offsets = "(u64 \<times> u8) list"

definition offs_add :: "Offsets \<Rightarrow> u64 \<Rightarrow> u8 \<Rightarrow> Offsets" where
  "offs_add t off width = cap_add MAXOFFS fst (off, width) t"

section \<open>Visited addresses\<close>

definition VIS_BITS :: nat where "VIS_BITS = 14"
definition vis_size :: nat where "vis_size = 2 ^ VIS_BITS"

text \<open>The table \<open>vis_tab\<close> and the count \<open>visited_nodes\<close>; an empty slot holds 0.\<close>

record visited =
  vis_tab :: "nat \<Rightarrow> u64"
  visited_nodes :: nat

definition vis_hash :: "u64 \<Rightarrow> nat" where
  "vis_hash a = unat (drop_bit 50 (drop_bit 2 a * 0x9e3779b97f4a7c15) AND mask VIS_BITS)"

text \<open>The probing loop: whether the address was found, and where the loop stopped.  A loop over a
  full table would not end, hence the partial function.\<close>

partial_function (option) vis_probe :: "(nat \<Rightarrow> u64) \<Rightarrow> u64 \<Rightarrow> nat \<Rightarrow> (bool \<times> nat) option" where
  "vis_probe tab a i =
     (if tab i = 0 then Some (False, i)
      else if tab i = a then Some (True, i)
      else vis_probe tab a ((i + 1) mod vis_size))"

definition vis_seen :: "u64 \<Rightarrow> visited \<Rightarrow> (bool \<times> visited) option" where
  "vis_seen a v =
     (case vis_probe (vis_tab v) a (vis_hash a) of
        None \<Rightarrow> None
      | Some (found, i) \<Rightarrow>
          if found then Some (True, v)
          else if visited_nodes v < vis_size div 2
          then Some (False, v\<lparr>vis_tab := (vis_tab v)(i := a), visited_nodes := visited_nodes v + 1\<rparr>)
          else Some (False, v))"

definition vis_reset :: visited where
  "vis_reset = \<lparr>vis_tab = (\<lambda>_. 0), visited_nodes = 0\<rparr>"

section \<open>The walk\<close>

record image =
  insn_at :: "u64 \<Rightarrow> u32"
  g_text_lo :: u64
  g_text_hi :: u64
  g_hvtrap :: u64
  fw_sym :: "string \<Rightarrow> u64 option"

definition NODE_MAX :: nat where "NODE_MAX = 6144"
definition MAX_DEPTH :: nat where "MAX_DEPTH = 6"
definition MAX_NODES :: nat where "MAX_NODES = 12000"
definition STACK_MAX :: nat where "STACK_MAX = 4096"

text \<open>The walk's static state: visited addresses, the three arrays of numbers, and the stack with
  its top first.\<close>

record walk =
  vis :: visited
  g_traps :: "u64 list"
  g_strb :: "u64 list"
  g_w0 :: "u64 list"
  stack :: "(u64 \<times> nat) list"

definition push_trap :: "u64 \<Rightarrow> walk \<Rightarrow> walk" where
  "push_trap t p = p\<lparr>g_traps := cap_add MAXHITS id t (g_traps p)\<rparr>"
definition push_strb :: "u64 \<Rightarrow> walk \<Rightarrow> walk" where
  "push_strb off p = p\<lparr>g_strb := cap_add MAXHITS id off (g_strb p)\<rparr>"
definition push_w0 :: "u64 \<Rightarrow> walk \<Rightarrow> walk" where
  "push_w0 v p = p\<lparr>g_w0 := cap_add MAXHITS id v (g_w0 p)\<rparr>"

definition enqueue :: "image \<Rightarrow> u64 \<Rightarrow> nat \<Rightarrow> walk \<Rightarrow> walk option" where
  "enqueue img tgt depth p =
     (if MAX_DEPTH < depth then Some p
      else if tgt < g_text_lo img \<or> g_text_hi img \<le> tgt then Some p
      else if STACK_MAX \<le> length (stack p) then Some p
      else case vis_seen tgt (vis p) of
             None \<Rightarrow> None
           | Some (seen, v) \<Rightarrow>
               Some (if seen then p\<lparr>vis := v\<rparr> else p\<lparr>vis := v, stack := (tgt, depth) # stack p\<rparr>))"

text \<open>What scanning a body carries from word to word: the index of the last \<open>movz w0\<close>, the count of
  unrecognised words, the offsets collected, the static state.\<close>

record scan_state =
  last_movz_w0 :: "nat option"
  junk :: nat
  out :: Offsets
  wk :: walk

definition offset_like :: "Insn \<Rightarrow> bool" where
  "offset_like i \<longleftrightarrow> 0 \<le>s i_imm i \<and> i_imm i \<le>s 0x8000 \<and> unat (i_imm i) mod unat (i_size i) = 0"

definition movz_before :: "image \<Rightarrow> u64 \<Rightarrow> nat \<Rightarrow> u64" where
  "movz_before img a m = scast (i_imm (decode (insn_at img (a + of_nat (4 * m)))))"

text \<open>One word of a body at \<open>a\<close>, whose depth is \<open>d\<close>; the answer says whether the body goes on.\<close>

definition scan_word :: "image \<Rightarrow> u64 \<Rightarrow> nat \<Rightarrow> nat \<Rightarrow> scan_state \<Rightarrow> (bool \<times> scan_state) option" where
  "scan_word img a d i s =
     (let w = insn_at img (a + of_nat (4 * i)); n = decode w;
          tgt = a + of_nat (4 * i) + branch_off w
      in case i_kind n of
        I_MOVZ \<Rightarrow>
          Some (True, if i_rt n = 0 \<and> insn_field w 21 3 = 0
            then s\<lparr>last_movz_w0 := Some i, junk := 0,
                   wk := (if 0 \<le>s i_imm n \<and> i_imm n \<le>s 255 then push_w0 (scast (i_imm n)) (wk s) else wk s)\<rparr>
            else s\<lparr>junk := 0\<rparr>)
      | I_MOVK \<Rightarrow> Some (True, s\<lparr>junk := junk s + 1\<rparr>)
      | I_UNK \<Rightarrow> Some (True, s\<lparr>junk := junk s + 1\<rparr>)
      | I_SVC \<Rightarrow>
          Some (True, case last_movz_w0 s of
            None \<Rightarrow> s\<lparr>junk := 0\<rparr>
          | Some m \<Rightarrow> s\<lparr>junk := 0, wk := push_trap (movz_before img a m) (wk s)\<rparr>)
      | I_BL \<Rightarrow>
          (case enqueue img tgt (d + 1)
              (case last_movz_w0 s of
                 None \<Rightarrow> wk s
               | Some m \<Rightarrow> if tgt = g_hvtrap img then push_trap (movz_before img a m) (wk s) else wk s) of
             None \<Rightarrow> None
           | Some p \<Rightarrow> Some (True, s\<lparr>junk := 0, wk := p\<rparr>))
      | I_B \<Rightarrow>
          (case enqueue img tgt (d + 1) (wk s) of
             None \<Rightarrow> None
           | Some p \<Rightarrow> Some (False, s\<lparr>wk := p\<rparr>))
      | I_RET \<Rightarrow> Some (False, s)
      | I_RETAB \<Rightarrow> Some (False, s)
      | _ \<Rightarrow>
          Some (True, s\<lparr>junk := 0,
            out := (if offset_like n then offs_add (out s) (scast (i_imm n)) (i_size n) else out s),
            wk := (if i_kind n = I_STR \<and> i_size n = 1 then push_strb (scast (i_imm n)) (wk s) else wk s)\<rparr>))"

text \<open>The words of a body from index \<open>i\<close>, at most \<open>k\<close> of them.\<close>

fun scan :: "image \<Rightarrow> u64 \<Rightarrow> nat \<Rightarrow> nat \<Rightarrow> nat \<Rightarrow> scan_state \<Rightarrow> scan_state option" where
  "scan img a d i 0 s = Some s"
| "scan img a d i (Suc k) s =
     (if 320 \<le> junk s then Some s
      else case scan_word img a d i s of
             None \<Rightarrow> None
           | Some (True, s') \<Rightarrow> scan img a d (i + 1) k s'
           | Some (False, s') \<Rightarrow> Some s')"

definition scan_body :: "image \<Rightarrow> u64 \<Rightarrow> nat \<Rightarrow> Offsets \<times> walk \<Rightarrow> (Offsets \<times> walk) option" where
  "scan_body img a d op =
     map_option (\<lambda>s. (out s, wk s))
       (scan img a d 0 (NODE_MAX div 4) \<lparr>last_movz_w0 = None, junk = 0, out = fst op, wk = snd op\<rparr>)"

text \<open>The stack's weight: a body at depth \<open>d\<close> puts at most 1536 bodies of depth \<open>d + 1\<close> on it.\<close>

definition body_weight :: "nat \<Rightarrow> nat" where
  "body_weight d = 1537 ^ (7 - d)"

definition stack_weight :: "walk \<Rightarrow> nat" where
  "stack_weight p = (\<Sum>e \<leftarrow> stack p. body_weight (snd e))"

lemma stack_weight_marks [simp]:
  "stack_weight (push_trap t p) = stack_weight p" "stack_weight (push_strb o' p) = stack_weight p"
  "stack_weight (push_w0 v p) = stack_weight p" "stack_weight (p\<lparr>vis := z\<rparr>) = stack_weight p"
  by (simp_all add: stack_weight_def push_trap_def push_strb_def push_w0_def)

lemma enqueue_weight:
  "enqueue img tgt d p = Some p' \<Longrightarrow>
    stack_weight p' \<le> stack_weight p + (if d \<le> MAX_DEPTH then body_weight d else 0)"
  by (auto simp: enqueue_def stack_weight_def split: if_splits option.splits prod.splits)

lemma scan_word_weight:
  assumes "scan_word img a d i s = Some (b, s')"
  shows "stack_weight (wk s') \<le> stack_weight (wk s) + (if d < MAX_DEPTH then body_weight (d + 1) else 0)"
  using assms
  by (auto simp: scan_word_def Let_def dest!: enqueue_weight split: Kind.splits option.splits if_splits)

lemma scan_weight:
  "scan img a d i k s = Some s' \<Longrightarrow>
    stack_weight (wk s') \<le> stack_weight (wk s) + k * (if d < MAX_DEPTH then body_weight (d + 1) else 0)"
proof (induction img a d i k s rule: scan.induct)
  case (2 img a d i k s)
  then show ?case
    by (fastforce dest: scan_word_weight split: if_splits option.splits prod.splits bool.splits)
qed simp

lemma body_heavier: "1536 * (if d < MAX_DEPTH then body_weight (d + 1) else 0) < body_weight d"
proof (cases "d < MAX_DEPTH")
  case True
  then have "7 - d = Suc (7 - (d + 1))" by (simp add: MAX_DEPTH_def)
  then have "body_weight d = 1537 * body_weight (d + 1)" by (simp add: body_weight_def)
  with True show ?thesis by (simp add: body_weight_def)
qed (simp add: body_weight_def)

lemma scan_body_weight:
  assumes "scan_body img a d op = Some op'"
  shows "stack_weight (snd op') < stack_weight (snd op) + body_weight d"
proof -
  from assms obtain s where s: "scan img a d 0 1536 \<lparr>last_movz_w0 = None, junk = 0, out = fst op, wk = snd op\<rparr> = Some s"
    "op' = (out s, wk s)" by (auto simp: scan_body_def NODE_MAX_def)
  from scan_weight [OF s(1)] body_heavier [of d] s(2) show ?thesis by simp
qed

text \<open>The loop: the top body is scanned until the stack is empty or too many nodes were visited.\<close>

function walk_loop :: "image \<Rightarrow> Offsets \<times> walk \<Rightarrow> (Offsets \<times> walk) option" where
  "walk_loop img op =
     (case stack (snd op) of
        [] \<Rightarrow> Some op
      | (a, d) # rest \<Rightarrow>
          if MAX_NODES < visited_nodes (vis (snd op)) then Some op
          else case scan_body img a d (fst op, (snd op)\<lparr>stack := rest\<rparr>) of
                 None \<Rightarrow> None
               | Some op' \<Rightarrow> walk_loop img op')"
  by pat_completeness auto
termination
proof (relation "measure (\<lambda>(img, op). stack_weight (snd op))")
  fix img :: image and op op' :: "Offsets \<times> walk" and x a d rest
  assume "stack (snd op) = x # rest" "(a, d) = x"
    "scan_body img a d (fst op, (snd op)\<lparr>stack := rest\<rparr>) = Some op'"
  from scan_body_weight [OF this(3)] this(1,2)
  show "((img, op'), img, op) \<in> measure (\<lambda>(img, op). stack_weight (snd op))"
    by (auto simp: stack_weight_def)
qed simp

declare walk_loop.simps [simp del]

definition walk_from :: "image \<Rightarrow> u64 \<Rightarrow> Offsets \<times> walk \<Rightarrow> (Offsets \<times> walk) option" where
  "walk_from img start op =
     (case enqueue img start 0 ((snd op)\<lparr>vis := vis_reset, stack := []\<rparr>) of
        None \<Rightarrow> None
      | Some p \<Rightarrow> walk_loop img (fst op, p))"

section \<open>Verdicts\<close>

text \<open>The whole tool's static state: the walk's, the scan of the whole text once it was made, and the
  four counters of the last line.\<close>

record probe =
  pwalk :: walk
  g_global :: Offsets
  g_global_built :: bool
  g_movz :: "u64 list"
  findings :: nat
  mismatches :: nat
  misses :: nat
  indirects :: nat

definition verdict :: "pin \<Rightarrow> bool \<Rightarrow> u64 \<Rightarrow> probe \<Rightarrow> probe" where
  "verdict pr found got s =
     (let s1 = s\<lparr>findings := findings s + 1\<rparr>
      in if \<not> found then s1\<lparr>misses := misses s1 + 1\<rparr>
         else if got \<noteq> snd pr then s1\<lparr>mismatches := mismatches s1 + 1\<rparr>
         else s1)"

definition global_word :: "u32 \<Rightarrow> Offsets \<times> u64 list \<Rightarrow> Offsets \<times> u64 list" where
  "global_word w gm =
     (let n = decode w
      in (if i_kind n \<in> {I_LDR, I_STR, I_LDUR, I_STUR} \<and> offset_like n
          then offs_add (fst gm) (scast (i_imm n)) (i_size n) else fst gm,
          if w AND 0x7f800000 = 0x52800000 \<and> insn_field w 29 3 = 2 \<and> insn_field w 21 3 = 0
          then cap_add MAXHITS id (ucast (insn_field w 5 0xffff)) (snd gm) else snd gm))"

definition ensure_global :: "image \<Rightarrow> probe \<Rightarrow> probe" where
  "ensure_global img s =
     (if g_global_built s then s
      else case fold (\<lambda>i. global_word (insn_at img (g_text_lo img + of_nat (4 * i))))
                  [0 ..< unat (g_text_hi img - g_text_lo img) div 4] (g_global s, g_movz s) of
             (g, m) \<Rightarrow> s\<lparr>g_global_built := True, g_global := g, g_movz := m\<rparr>)"

definition has_off :: "u64 \<Rightarrow> Offsets \<Rightarrow> bool" where
  "has_off v t \<longleftrightarrow> list_ex (\<lambda>e. fst e = v) t"

definition rule_pin :: "image \<Rightarrow> Offsets \<Rightarrow> pin \<Rightarrow> probe \<Rightarrow> probe" where
  "rule_pin img t pn s =
     (if has_off (snd pn) t then verdict pn True (snd pn) s
      else let s1 = ensure_global img s
           in if has_off (snd pn) (g_global s1) \<or> snd pn \<in> set (g_movz s1)
              then s1\<lparr>findings := findings s1 + 1, indirects := indirects s1 + 1\<rparr>
              else verdict pn False 0 s1)"

text \<open>The walks from the symbols the framework has, into one array of offsets.\<close>

fun walk_syms :: "image \<Rightarrow> string list \<Rightarrow> Offsets \<times> walk \<Rightarrow> (Offsets \<times> walk) option" where
  "walk_syms img [] op = Some op"
| "walk_syms img (x # xs) op =
     (case fw_sym img x of
        None \<Rightarrow> walk_syms img xs op
      | Some a \<Rightarrow>
          (case walk_from img a op of None \<Rightarrow> None | Some op' \<Rightarrow> walk_syms img xs op'))"

definition rule_offsets :: "image \<Rightarrow> string \<Rightarrow> pin list \<Rightarrow> string list \<Rightarrow> probe \<Rightarrow> probe option" where
  "rule_offsets img s pins extra st =
     (case walk_syms img (s # extra) ([], pwalk st) of
        None \<Rightarrow> None
      | Some (t, p) \<Rightarrow> Some (fold (rule_pin img t) pins (st\<lparr>pwalk := p\<rparr>)))"

section \<open>The whole tool\<close>

definition setters :: "string list" where
  "setters = [''_hv_vm_config_set_vhe_enabled'', ''hv_vm_config_set_el2_enabled'', ''_hv_vm_config_set_isa'',
     ''hv_vm_config_set_ipa_granule'', ''hv_vm_config_set_ipa_size'']"

definition seeds_ro :: "string list" where
  "seeds_ro = [''__hv_vcpu_get_context'', ''hv_vcpu_get_exec_time'', ''hv_vcpus_exit'',
     ''hv_vcpu_get_pending_interrupt'', ''hv_vcpu_set_pending_interrupt'']"

definition seeds_traps :: "string list" where
  "seeds_traps = [''hv_vcpus_exit'', ''hv_vcpu_invalidate_tlb'', ''__hv_vm_stage1_tlb_op'',
     ''__hv_vcpu_set_control_field'', ''__hv_vcpu_get_control_field'', ''__hv_vcpu_amx_prepare'',
     ''__hv_vm_space_create'', ''__hv_vm_map_space'', ''hv_vcpu_set_sme_state'', ''hv_vcpu_get_sme_z_reg'']"

definition trap_entries :: "string list" where
  "trap_entries = [''hv_vm_create'', ''hv_vm_map'', ''hv_vm_unmap'', ''hv_vm_protect'', ''hv_vcpu_create'',
     ''hv_vcpu_destroy'', ''hv_vcpu_run'', ''__hv_vcpu_get_context'', ''hv_vm_get_max_vcpu_count'',
     ''hv_vm_config_get_max_ipa_size'', ''hv_vm_destroy'']"

definition check_config :: "image \<Rightarrow> probe \<Rightarrow> probe option" where
  "check_config img st =
     (case walk_syms img setters ([], (pwalk st)\<lparr>g_strb := []\<rparr>) of
        None \<Rightarrow> None
      | Some (t, p) \<Rightarrow>
          Some (fold (\<lambda>pn. verdict pn (has_off (snd pn) t) (snd pn)) pins_config (st\<lparr>pwalk := p\<rparr>)))"

definition check_traps :: "image \<Rightarrow> probe \<Rightarrow> probe option" where
  "check_traps img st =
     (case walk_syms img (trap_entries @ seeds_traps) ([], (pwalk st)\<lparr>g_w0 := [], g_traps := []\<rparr>) of
        None \<Rightarrow> None
      | Some (_, p) \<Rightarrow>
          Some (fold (\<lambda>pn. verdict pn (snd pn \<in> set (g_w0 p) \<union> set (g_traps p)) (snd pn)) pins_traps
                  (st\<lparr>pwalk := p\<rparr>)))"

definition initial_probe :: probe where
  "initial_probe =
     \<lparr>pwalk = \<lparr>vis = vis_reset, g_traps = [], g_strb = [], g_w0 = [], stack = []\<rparr>,
      g_global = [], g_global_built = False, g_movz = [],
      findings = 0, mismatches = 0, misses = 0, indirects = 0\<rparr>"

text \<open>\<open>main\<close> once the framework is loaded: the five checks in their order, and the exit status.\<close>

definition probe_checks :: "image \<Rightarrow> probe option" where
  "probe_checks img =
     do { s1 \<leftarrow> check_config img initial_probe;
          s2 \<leftarrow> rule_offsets img ''hv_vcpu_get_reg'' pins_regs [] s1;
          s3 \<leftarrow> rule_offsets img ''hv_vcpu_set_reg'' pins_regs [] s2;
          s4 \<leftarrow> rule_offsets img ''hv_vcpu_run'' pins_ro seeds_ro s3;
          s5 \<leftarrow> rule_offsets img ''hv_vcpu_get_sys_reg'' [] [] s4;
          check_traps img s5 }"

definition probe_status :: "probe \<Rightarrow> nat" where
  "probe_status s = (if mismatches s \<noteq> 0 \<or> misses s \<noteq> 0 then 1 else 0)"

section \<open>The table of visited addresses\<close>

text \<open>The interface of a table with open addressing: a probing loop over \<open>slots\<close> slots that stops at
  an empty slot or at the address.  The lemmas are about the place where it stops.\<close>

locale open_addressing =
  fixes slots :: nat
    and hash :: "u64 \<Rightarrow> nat"
    and probe_from :: "(nat \<Rightarrow> u64) \<Rightarrow> u64 \<Rightarrow> nat \<Rightarrow> (bool \<times> nat) option"
  assumes slots_pos: "0 < slots"
    and hash_in: "hash a < slots"
    and probe_step: "probe_from tab a i =
      (if tab i = 0 then Some (False, i)
       else if tab i = a then Some (True, i)
       else probe_from tab a ((i + 1) mod slots))"
begin

definition place :: "u64 \<Rightarrow> nat \<Rightarrow> nat" where
  "place a k = (hash a + k) mod slots"

text \<open>An address is filed when the slots from its hash up to its own are all occupied.\<close>

definition filed :: "(nat \<Rightarrow> u64) \<Rightarrow> u64 \<Rightarrow> bool" where
  "filed tab a \<longleftrightarrow> (\<exists>k < slots. tab (place a k) = a \<and> (\<forall>j < k. tab (place a j) \<noteq> 0))"

lemma place_in [simp]: "place a k < slots"
  by (simp add: place_def slots_pos)

lemma place_0 [simp]: "place a 0 = hash a"
  by (simp add: place_def hash_in)

lemma place_Suc: "(place a k + 1) mod slots = place a (Suc k)"
  by (simp add: place_def mod_Suc_eq)

lemma place_surj:
  assumes "i < slots"
  obtains k where "k < slots" "place a k = i"
proof
  let ?k = "(i + slots - hash a) mod slots"
  show "?k < slots" using slots_pos by simp
  have "hash a + (i + slots - hash a) = i + slots" using hash_in [of a] by simp
  then show "place a ?k = i" using assms by (simp add: place_def mod_add_right_eq)
qed

lemma probe_skips:
  "\<forall>j < k. tab (place a j) \<noteq> 0 \<and> tab (place a j) \<noteq> a \<Longrightarrow> probe_from tab a (hash a) = probe_from tab a (place a k)"
proof (induction k)
  case (Suc k)
  then have "probe_from tab a (hash a) = probe_from tab a (place a k)" by simp
  also have "\<dots> = probe_from tab a (place a (Suc k))"
    using Suc.prems by (subst probe_step) (simp add: place_Suc [symmetric] del: place_0)
  finally show ?case .
qed simp

lemma probe_stops:
  assumes "i < slots" "tab i = 0"
  obtains k where "k < slots" "tab (place a k) = 0 \<or> tab (place a k) = a"
    "\<forall>j < k. tab (place a j) \<noteq> 0 \<and> tab (place a j) \<noteq> a"
    "probe_from tab a (hash a) = Some (tab (place a k) \<noteq> 0, place a k)"
proof -
  let ?P = "\<lambda>k. tab (place a k) = 0 \<or> tab (place a k) = a"
  obtain k0 where k0: "k0 < slots" "?P k0" using place_surj [OF assms(1), of a] assms(2) by metis
  let ?k = "LEAST k. ?P k"
  have k: "?P ?k" by (rule LeastI [of ?P, OF k0(2)])
  have "?k \<le> k0" by (rule Least_le [of ?P, OF k0(2)])
  with k0(1) have l: "?k < slots" by simp
  have before: "\<forall>j < ?k. tab (place a j) \<noteq> 0 \<and> tab (place a j) \<noteq> a" using not_less_Least by blast
  have "probe_from tab a (hash a) = Some (tab (place a ?k) \<noteq> 0, place a ?k)"
    using probe_skips [OF before] k probe_step [of tab a "place a ?k"] by auto
  with k l before that show ?thesis by blast
qed

text \<open>When every address in the table is filed, an address in the table is found, and one that is not
  is given a free slot.\<close>

lemma probe_finds:
  assumes "i < slots" "tab i = 0" "a \<noteq> 0" "(\<exists>j < slots. tab j = a) \<longrightarrow> filed tab a"
  obtains p where "p < slots" "probe_from tab a (hash a) = Some (\<exists>j < slots. tab j = a, p)"
    "(\<nexists>j. j < slots \<and> tab j = a) \<longrightarrow> tab p = 0 \<and> filed (tab(p := a)) a"
proof -
  obtain k where k: "k < slots" "tab (place a k) = 0 \<or> tab (place a k) = a"
    "\<forall>j < k. tab (place a j) \<noteq> 0 \<and> tab (place a j) \<noteq> a"
    "probe_from tab a (hash a) = Some (tab (place a k) \<noteq> 0, place a k)"
    by (rule probe_stops [where tab = tab and a = a, OF assms(1,2)])
  show ?thesis
  proof (cases "\<exists>j < slots. tab j = a")
    case True
    then obtain m where m: "m < slots" "tab (place a m) = a" "\<forall>j < m. tab (place a j) \<noteq> 0"
      using assms(4) by (auto simp: filed_def)
    have "tab (place a k) \<noteq> 0"
    proof
      assume "tab (place a k) = 0"
      then have "m \<le> k" using m(3) not_le by blast
      moreover have "m \<noteq> k" using m(2) \<open>tab (place a k) = 0\<close> assms(3) by auto
      ultimately show False using k(3) m(2) by auto
    qed
    with True k(4) that [of "place a k"] show ?thesis by simp
  next
    case False
    then have z: "tab (place a k) = 0" using k(2) place_in by blast
    have "filed (tab(place a k := a)) a"
      unfolding filed_def using k(1,3) by (intro exI [of _ k]) (auto simp: assms(3))
    with False z k(4) that [of "place a k"] show ?thesis by simp
  qed
qed

lemma filed_kept:
  assumes "filed tab b" "tab p = 0" "b \<noteq> 0" "a \<noteq> 0"
  shows "filed (tab(p := a)) b"
  using assms by (auto simp: filed_def)

end

lemma hash_bound: "vis_hash a < vis_size"
proof -
  have "vis_hash a < 2 ^ VIS_BITS"
    unfolding vis_hash_def by (simp add: unsigned_take_bit_eq take_bit_nat_less_exp flip: take_bit_eq_mask)
  then show ?thesis by (simp add: vis_size_def)
qed

interpretation visited: open_addressing vis_size vis_hash vis_probe
proof
  show "0 < vis_size" by (simp add: vis_size_def)
  show "vis_hash a < vis_size" for a by (rule hash_bound)
qed (rule vis_probe.simps)

text \<open>The addresses entered, and what holds of every table the walk makes: each is filed, none is
  there twice, and the count is their number, at most half the slots.\<close>

definition vis_set :: "visited \<Rightarrow> u64 set" where
  "vis_set v = {a. a \<noteq> 0 \<and> (\<exists>i < vis_size. vis_tab v i = a)}"

definition vis_ok :: "visited \<Rightarrow> bool" where
  "vis_ok v \<longleftrightarrow> (\<forall>a \<in> vis_set v. visited.filed (vis_tab v) a)
     \<and> inj_on (vis_tab v) {i. i < vis_size \<and> vis_tab v i \<noteq> 0}
     \<and> visited_nodes v = card {i. i < vis_size \<and> vis_tab v i \<noteq> 0}
     \<and> visited_nodes v \<le> vis_size div 2"

lemma vis_reset_ok: "vis_ok vis_reset" "vis_set vis_reset = {}"
  by (auto simp: vis_ok_def vis_reset_def vis_set_def)

lemma vis_count: "vis_ok v \<Longrightarrow> visited_nodes v = card (vis_set v)"
proof -
  assume v: "vis_ok v"
  have "vis_set v = vis_tab v ` {i. i < vis_size \<and> vis_tab v i \<noteq> 0}" by (auto simp: vis_set_def)
  with v show ?thesis by (simp add: vis_ok_def card_image)
qed

lemma free_slot_exists: "vis_ok v \<Longrightarrow> \<exists>i < vis_size. vis_tab v i = 0"
proof (rule ccontr)
  assume v: "vis_ok v" and "\<not> (\<exists>i < vis_size. vis_tab v i = 0)"
  then have "{i. i < vis_size \<and> vis_tab v i \<noteq> 0} = {..<vis_size}" by auto
  with v show False by (auto simp: vis_ok_def vis_size_def VIS_BITS_def)
qed

lemma vis_enter:
  assumes "vis_ok v" "a \<noteq> 0" "a \<notin> vis_set v" "p < vis_size" "vis_tab v p = 0"
    and "visited_nodes v < vis_size div 2" "visited.filed ((vis_tab v)(p := a)) a"
  defines "v' \<equiv> v\<lparr>vis_tab := (vis_tab v)(p := a), visited_nodes := visited_nodes v + 1\<rparr>"
  shows "vis_ok v'" "vis_set v' = insert a (vis_set v)"
proof -
  let ?used = "\<lambda>t. {i. i < vis_size \<and> t i \<noteq> (0 :: u64)}"
  have u: "?used (vis_tab v') = insert p (?used (vis_tab v))"
    using assms(2,4) by (auto simp: v'_def)
  show s: "vis_set v' = insert a (vis_set v)"
    using assms(2,4,5) by (force simp: vis_set_def v'_def)
  have "visited.filed (vis_tab v') b" if "b \<in> vis_set v" for b
    using visited.filed_kept assms(1,2,5) that by (auto simp: v'_def vis_ok_def vis_set_def)
  then have "\<forall>b \<in> vis_set v'. visited.filed (vis_tab v') b"
    using assms(7) unfolding s by (simp add: v'_def)
  moreover have "inj_on (vis_tab v') (?used (vis_tab v'))"
  proof -
    have "inj_on (vis_tab v') (?used (vis_tab v))"
      using assms(1,5) by (auto simp: vis_ok_def inj_on_def v'_def)
    moreover have "vis_tab v' p \<notin> vis_tab v' ` (?used (vis_tab v) - {p})"
      using assms(2,3) by (auto simp: v'_def vis_set_def)
    ultimately show ?thesis unfolding u by simp
  qed
  moreover have "visited_nodes v' = card (?used (vis_tab v'))"
  proof -
    have "p \<notin> ?used (vis_tab v)" using assms(5) by simp
    moreover have "finite (?used (vis_tab v))" by simp
    ultimately show ?thesis using assms(1) unfolding u by (simp add: v'_def vis_ok_def)
  qed
  moreover have "visited_nodes v' \<le> vis_size div 2" using assms(6) by (simp add: v'_def)
  ultimately show "vis_ok v'" by (simp add: vis_ok_def)
qed

lemma vis_seen_set:
  assumes "vis_ok v" "a \<noteq> 0"
  shows "\<exists>v'. vis_seen a v = Some (a \<in> vis_set v, v') \<and> vis_ok v'
    \<and> vis_set v' = (if card (vis_set v) < vis_size div 2 then insert a (vis_set v) else vis_set v)"
proof -
  obtain i where i: "i < vis_size" "vis_tab v i = 0" using free_slot_exists [OF assms(1)] by blast
  have m: "(\<exists>j < vis_size. vis_tab v j = a) = (a \<in> vis_set v)" using assms(2) by (auto simp: vis_set_def)
  have f: "(\<exists>j < vis_size. vis_tab v j = a) \<longrightarrow> visited.filed (vis_tab v) a"
    using assms(1) by (simp add: m vis_ok_def)
  obtain p where p: "p < vis_size" "vis_probe (vis_tab v) a (vis_hash a) = Some (a \<in> vis_set v, p)"
    "a \<notin> vis_set v \<longrightarrow> vis_tab v p = 0 \<and> visited.filed ((vis_tab v)(p := a)) a"
    by (rule visited.probe_finds [where tab = "vis_tab v" and a = a, OF i assms(2) f]) (use m in auto)
  show ?thesis
  proof (cases "a \<in> vis_set v \<or> \<not> visited_nodes v < vis_size div 2")
    case True
    then show ?thesis using p(2) assms(1) vis_count [OF assms(1)]
      by (auto simp: vis_seen_def insert_absorb)
  next
    case False
    with p vis_enter [OF assms _ p(1)] vis_count [OF assms(1)] show ?thesis
      by (simp add: vis_seen_def)
  qed
qed

text \<open>Asking the table for a sequence of addresses, and the set with a limit it stands for.\<close>

fun vis_run :: "u64 list \<Rightarrow> visited \<Rightarrow> (bool list \<times> visited) option" where
  "vis_run [] v = Some ([], v)"
| "vis_run (a # as) v =
     do { (b, v1) \<leftarrow> vis_seen a v; (bs, v2) \<leftarrow> vis_run as v1; Some (b # bs, v2) }"

fun set_run :: "u64 list \<Rightarrow> u64 set \<Rightarrow> bool list" where
  "set_run [] S = []"
| "set_run (a # as) S = (a \<in> S) # set_run as (if card S < vis_size div 2 then insert a S else S)"

lemma vis_run_set:
  "vis_ok v \<Longrightarrow> 0 \<notin> set as \<Longrightarrow>
    \<exists>v'. vis_run as v = Some (set_run as (vis_set v), v') \<and> vis_ok v' \<and> card (vis_set v') \<le> vis_size div 2"
proof (induction as arbitrary: v)
  case Nil
  then show ?case using vis_count [OF Nil(1)] by (auto simp: vis_ok_def)
next
  case (Cons a as)
  from Cons.prems vis_seen_set [of v a] obtain v1 where v1: "vis_seen a v = Some (a \<in> vis_set v, v1)" "vis_ok v1"
    "vis_set v1 = (if card (vis_set v) < vis_size div 2 then insert a (vis_set v) else vis_set v)" by auto
  from Cons.IH [OF v1(2)] Cons.prems(2) show ?case by (auto simp: v1(1) simp flip: v1(3))
qed

text \<open>C35: The table of visited addresses is a set: whatever addresses a walk asks for, in
  whatever order and however they collide, every probing loop ends, and each answer is whether the
  address was entered before, where the first 8192 distinct addresses are entered and later ones
  are forgotten.\<close>

theorem vis_seen_refines_set:
  assumes "0 \<notin> set as"
  shows "\<exists>v. vis_run as vis_reset = Some (set_run as {}, v) \<and> visited_nodes v \<le> vis_size div 2"
  using vis_run_set [OF vis_reset_ok(1) assms] vis_count by (metis vis_reset_ok(2))

theorem vis_seen_refines_set_witness:
  "\<exists>v. vis_run [0x1000, 0x2000, 0x1000] vis_reset = Some ([False, False, True], v)"
  using vis_seen_refines_set [of "[0x1000, 0x2000, 0x1000]"]
  by (auto simp: vis_size_def VIS_BITS_def simp del: vis_run.simps)

section \<open>What a walk reports\<close>

text \<open>The bodies the call edges lead to from \<open>start\<close>, with the depth they are reached at.\<close>

inductive reached :: "image \<Rightarrow> u64 \<Rightarrow> u64 \<Rightarrow> nat \<Rightarrow> bool" for img start where
  reached_start: "reached img start start 0"
| reached_call: "reached img start a d \<Longrightarrow> i < NODE_MAX div 4
    \<Longrightarrow> i_kind (decode (insn_at img (a + of_nat (4 * i)))) \<in> {I_BL, I_B}
    \<Longrightarrow> reached img start (a + of_nat (4 * i) + branch_off (insn_at img (a + of_nat (4 * i)))) (d + 1)"

inductive_cases reached_zero: "reached img start a 0"

text \<open>An offset a load or store in such a body names, inside the text.\<close>

definition in_text :: "image \<Rightarrow> u64 \<Rightarrow> bool" where
  "in_text img a \<longleftrightarrow> g_text_lo img \<le> a \<and> a < g_text_hi img"

definition named_by :: "image \<Rightarrow> u64 \<Rightarrow> u64 \<times> u8 \<Rightarrow> bool" where
  "named_by img start e \<longleftrightarrow> (\<exists>a d i. reached img start a d \<and> d \<le> MAX_DEPTH \<and> in_text img a \<and> i < NODE_MAX div 4
     \<and> (let n = decode (insn_at img (a + of_nat (4 * i)))
        in i_kind n \<in> {I_LDR, I_STR, I_LDUR, I_STUR} \<and> offset_like n \<and> e = (scast (i_imm n), i_size n)))"

definition stack_ok :: "image \<Rightarrow> u64 \<Rightarrow> walk \<Rightarrow> bool" where
  "stack_ok img start p \<longleftrightarrow> vis_ok (vis p)
     \<and> (\<forall>(a, d) \<in> set (stack p). reached img start a d \<and> d \<le> MAX_DEPTH \<and> in_text img a)"

definition offs_ok :: "image \<Rightarrow> u64 \<Rightarrow> Offsets \<Rightarrow> Offsets \<Rightarrow> bool" where
  "offs_ok img start t0 t \<longleftrightarrow> (\<forall>e \<in> set t. e \<in> set t0 \<or> named_by img start e)
     \<and> (distinct (map fst t0) \<longrightarrow> distinct (map fst t)) \<and> (length t0 \<le> MAXOFFS \<longrightarrow> length t \<le> MAXOFFS)
     \<and> set t0 \<subseteq> set t"

lemma cap_add_facts:
  "set (cap_add m key x xs) \<subseteq> insert x (set xs)" "set xs \<subseteq> set (cap_add m key x xs)"
  "distinct (map key xs) \<Longrightarrow> distinct (map key (cap_add m key x xs))"
  "length xs \<le> m \<Longrightarrow> length (cap_add m key x xs) \<le> m"
  by (auto simp: cap_add_def list_ex_iff)

lemma stack_ok_marks [simp]:
  "stack_ok img start (push_trap t p) = stack_ok img start p"
  "stack_ok img start (push_strb o' p) = stack_ok img start p"
  "stack_ok img start (push_w0 v p) = stack_ok img start p"
  by (simp_all add: stack_ok_def push_trap_def push_strb_def push_w0_def)

lemma enqueue_ok:
  assumes "stack_ok img start p" "0 < g_text_lo img" "reached img start tgt d"
  shows "\<exists>p'. enqueue img tgt d p = Some p' \<and> stack_ok img start p'"
proof (cases "MAX_DEPTH < d \<or> tgt < g_text_lo img \<or> g_text_hi img \<le> tgt \<or> STACK_MAX \<le> length (stack p)")
  case True
  then show ?thesis using assms(1) by (auto simp: enqueue_def)
next
  case False
  then have "tgt \<noteq> 0" using assms(2) by auto
  then obtain v where "vis_seen tgt (vis p) = Some (tgt \<in> vis_set (vis p), v)" "vis_ok v"
    using vis_seen_set [of "vis p" tgt] assms(1) by (auto simp: stack_ok_def)
  with False assms(1,3) show ?thesis by (auto simp: enqueue_def stack_ok_def in_text_def)
qed

lemma offs_ok_refl: "offs_ok img start t t"
  by (simp add: offs_ok_def)

lemma offs_ok_add:
  assumes "offs_ok img start t0 t" "named_by img start (off, wd)"
  shows "offs_ok img start t0 (offs_add t off wd)"
  using assms cap_add_facts [where m = MAXOFFS and key = fst and x = "(off, wd)" and xs = t]
  by (fastforce simp: offs_ok_def offs_add_def)

lemma scan_word_ok:
  assumes "stack_ok img start (wk s)" "0 < g_text_lo img" "offs_ok img start t0 (out s)"
    and "reached img start a d" "d \<le> MAX_DEPTH" "in_text img a" "i < NODE_MAX div 4"
  shows "\<exists>b s'. scan_word img a d i s = Some (b, s') \<and> stack_ok img start (wk s') \<and> offs_ok img start t0 (out s')"
proof -
  let ?w = "insn_at img (a + of_nat (4 * i))"
  let ?n = "decode ?w" and ?tgt = "a + of_nat (4 * i) + branch_off ?w"
  have q: "\<exists>p'. enqueue img ?tgt (d + 1) p = Some p' \<and> stack_ok img start p'"
    if "i_kind ?n \<in> {I_BL, I_B}" "stack_ok img start p" for p
    using enqueue_ok [OF that(2) assms(2) reached_call [OF assms(4,7) that(1)]] .
  have m: "offs_ok img start t0 (offs_add (out s) (scast (i_imm ?n)) (i_size ?n))"
    if "i_kind ?n \<in> {I_LDR, I_STR, I_LDUR, I_STUR}" "offset_like ?n"
    by (rule offs_ok_add [OF assms(3)]) (use that assms(4-7) in \<open>auto simp: named_by_def Let_def intro!: exI\<close>)
  show ?thesis
  proof (cases "i_kind ?n \<in> {I_BL, I_B}")
    case True
    then show ?thesis
    proof (cases "i_kind ?n = I_BL")
      case True
      let ?p = "case last_movz_w0 s of None \<Rightarrow> wk s
        | Some m \<Rightarrow> if ?tgt = g_hvtrap img then push_trap (movz_before img a m) (wk s) else wk s"
      have "stack_ok img start ?p" using assms(1) by (auto split: option.split)
      with q [of ?p] True obtain p' where "enqueue img ?tgt (d + 1) ?p = Some p'" "stack_ok img start p'" by auto
      then show ?thesis using assms(3) True by (auto simp: scan_word_def Let_def ex_bool_eq simp del: of_nat_mult)
    next
      case False
      with True have k: "i_kind ?n = I_B" by simp
      with q [OF _ assms(1)] obtain p' where "enqueue img ?tgt (d + 1) (wk s) = Some p'" "stack_ok img start p'" by auto
      then show ?thesis using assms(3) k by (simp add: scan_word_def Let_def ex_bool_eq)
    qed
  next
    case False
    then show ?thesis using m assms(1,3)
      by (cases "i_kind ?n") (auto simp: scan_word_def Let_def split: option.split)
  qed
qed

lemma scan_ok:
  assumes "stack_ok img start (wk s)" "0 < g_text_lo img" "offs_ok img start t0 (out s)"
    and "reached img start a d" "d \<le> MAX_DEPTH" "in_text img a" "i + k \<le> NODE_MAX div 4"
  shows "\<exists>s'. scan img a d i k s = Some s' \<and> stack_ok img start (wk s') \<and> offs_ok img start t0 (out s')"
  using assms
proof (induction img a d i k s rule: scan.induct)
  case (2 img a d i k s)
  show ?case
  proof (cases "320 \<le> junk s")
    case False
    obtain b s' where w: "scan_word img a d i s = Some (b, s')" "stack_ok img start (wk s')" "offs_ok img start t0 (out s')"
      using scan_word_ok [OF 2(2-7), of i] 2(8) by auto
    show ?thesis
    proof (cases b)
      case True
      with 2(1) [OF False w(1), of True s'] 2(3,5-8) w False show ?thesis by auto
    qed (use False w in auto)
  qed (use 2(2,4) in simp)
qed auto

lemma scan_body_ok:
  assumes "stack_ok img start (snd op)" "0 < g_text_lo img" "offs_ok img start t0 (fst op)"
    and "reached img start a d" "d \<le> MAX_DEPTH" "in_text img a"
  shows "\<exists>op'. scan_body img a d op = Some op' \<and> stack_ok img start (snd op') \<and> offs_ok img start t0 (fst op')"
proof -
  let ?s = "\<lparr>last_movz_w0 = None, junk = 0, out = fst op, wk = snd op\<rparr>"
  have "stack_ok img start (wk ?s)" "offs_ok img start t0 (out ?s)" using assms(1,3) by simp_all
  from scan_ok [OF this(1) assms(2) this(2) assms(4-6), of 0 "NODE_MAX div 4"] obtain s' where
    "scan img a d 0 (NODE_MAX div 4) ?s = Some s'" "stack_ok img start (wk s')" "offs_ok img start t0 (out s')" by auto
  then show ?thesis by (simp add: scan_body_def)
qed

lemma walk_loop_ok:
  assumes "stack_ok img start (snd op)" "0 < g_text_lo img" "offs_ok img start t0 (fst op)"
  shows "\<exists>op'. walk_loop img op = Some op' \<and> stack_ok img start (snd op') \<and> offs_ok img start t0 (fst op')
    \<and> stack (snd op') = []"
  using assms
proof (induction img op rule: walk_loop.induct)
  case (1 img op)
  show ?case
  proof (cases "stack (snd op)")
    case Nil
    then show ?thesis using "1.prems" by (simp add: walk_loop.simps [of img op])
  next
    case (Cons x rest)
    obtain a d where x: "x = (a, d)" by (cases x)
    have "visited_nodes (vis (snd op)) \<le> vis_size div 2"
      using "1.prems"(1) by (simp add: stack_ok_def vis_ok_def)
    then have v: "\<not> MAX_NODES < visited_nodes (vis (snd op))"
      by (simp add: MAX_NODES_def vis_size_def VIS_BITS_def)
    let ?op = "(fst op, (snd op)\<lparr>stack := rest\<rparr>)"
    have r: "reached img start a d" "d \<le> MAX_DEPTH" "in_text img a" "stack_ok img start (snd ?op)"
      using "1.prems"(1) Cons x by (auto simp: stack_ok_def)
    obtain op' where b: "scan_body img a d ?op = Some op'" "stack_ok img start (snd op')" "offs_ok img start t0 (fst op')"
      using scan_body_ok [OF r(4) "1.prems"(2) _ r(1-3), of t0] "1.prems"(3) by auto
    from "1.IH" [OF Cons x [symmetric] v b(1) b(2) "1.prems"(2) b(3)] b(1) Cons x v show ?thesis
      by (simp add: walk_loop.simps [of img op])
  qed
qed

lemma walk_from_ok:
  assumes "0 < g_text_lo img"
  shows "\<exists>op'. walk_from img start op = Some op' \<and> stack_ok img start (snd op') \<and> offs_ok img start (fst op) (fst op')
    \<and> stack (snd op') = []"
proof -
  have "stack_ok img start ((snd op)\<lparr>vis := vis_reset, stack := []\<rparr>)"
    by (simp add: stack_ok_def vis_reset_ok)
  from enqueue_ok [OF this assms reached_start] obtain p where
    p: "enqueue img start 0 ((snd op)\<lparr>vis := vis_reset, stack := []\<rparr>) = Some p" "stack_ok img start p" by blast
  with walk_loop_ok [of img start "(fst op, p)" "fst op"] assms offs_ok_refl show ?thesis
    by (simp add: walk_from_def)
qed

lemma walk_syms_ok:
  assumes "0 < g_text_lo img"
  shows "\<exists>op'. walk_syms img xs op = Some op'"
proof (induction xs arbitrary: op)
  case (Cons x xs)
  show ?case
  proof (cases "fw_sym img x")
    case (Some a)
    obtain op' where "walk_from img a op = Some op'" using walk_from_ok [OF assms] by blast
    then show ?thesis using Cons.IH [of op'] Some by simp
  qed (use Cons.IH [of op] in simp)
qed simp

text \<open>C34: Every walk ends with its stack empty, whatever code it is given -- the depth
  bounds it, since the bound on the number of nodes is above what the table can count and is never
  reached -- and it reports only what is there: each offset is named by a load or store within 1536
  words of an address inside the text that at most six call edges lead to.  Offsets collected
  before stay, none is listed twice, and the array's bound holds.\<close>

theorem walk_ends_and_reports:
  assumes "0 < g_text_lo img" "distinct (map fst t)" "length t \<le> MAXOFFS"
  shows "\<exists>t' p'. walk_from img start (t, p) = Some (t', p') \<and> stack p' = []
    \<and> visited_nodes (vis p') \<le> vis_size div 2 \<and> vis_size div 2 < MAX_NODES
    \<and> set t \<subseteq> set t' \<and> distinct (map fst t') \<and> length t' \<le> MAXOFFS
    \<and> (\<forall>e \<in> set t' - set t. named_by img start e)"
proof -
  obtain t' p' where w: "walk_from img start (t, p) = Some (t', p')" "stack_ok img start p'"
    "offs_ok img start t t'" "stack p' = []"
    using walk_from_ok [OF assms(1), of start "(t, p)"] by auto
  have "vis_size div 2 < MAX_NODES" by (simp add: MAX_NODES_def vis_size_def VIS_BITS_def)
  with w assms(2,3) show ?thesis by (auto simp: stack_ok_def vis_ok_def offs_ok_def)
qed

text \<open>The witness: a text of one body, a load of the program counter's slot and a return.\<close>

definition one_load :: image where
  "one_load = \<lparr>insn_at = (\<lambda>a. if a = 0x1000 then 0xf9408400 else 0xd65f03c0), g_text_lo = 0x1000, g_text_hi = 0x1008,
     g_hvtrap = 0, fw_sym = (\<lambda>_. Some 0x1000)\<rparr>"

theorem walk_ends_and_reports_witness:
  "\<exists>t' p'. walk_from one_load 0x1000 ([], pwalk initial_probe) = Some (t', p')
     \<and> (\<forall>e \<in> set t'. named_by one_load 0x1000 e)"
  using walk_ends_and_reports [of one_load "[]" "0x1000" "pwalk initial_probe"]
  by (auto simp: one_load_def)

section \<open>The verdicts\<close>

text \<open>What a check does to the counters: \<open>n\<close> more findings, no drift ever, and each finding a direct
  match, an indirect one or a miss.\<close>

definition tallied :: "nat \<Rightarrow> probe \<Rightarrow> probe \<Rightarrow> bool" where
  "tallied n s s' \<longleftrightarrow> findings s' = findings s + n \<and> mismatches s' = mismatches s
     \<and> misses s \<le> misses s' \<and> indirects s \<le> indirects s'
     \<and> misses s' + indirects s' \<le> misses s + indirects s + n"

lemma tallied_0 [simp]: "tallied 0 s s" by (simp add: tallied_def)

lemma tallied_trans: "tallied m s t \<Longrightarrow> tallied n t u \<Longrightarrow> tallied (m + n) s u"
  by (auto simp: tallied_def)

lemma tallied_walk [simp]: "tallied n (s\<lparr>pwalk := p\<rparr>) s' = tallied n s s'"
  by (simp add: tallied_def)

lemma tallied_fold: "(\<And>x s. tallied 1 s (f x s)) \<Longrightarrow> tallied (length xs) s (fold f xs s)"
proof (induction xs arbitrary: s)
  case (Cons x xs)
  from tallied_trans [OF Cons.prems Cons.IH [OF Cons.prems]] show ?case by simp
qed simp

lemma tallied_verdict: "tallied 1 s (verdict pn found (snd pn) s)"
  by (simp add: tallied_def verdict_def Let_def)

lemma ensure_counters: "findings (ensure_global img s) = findings s" "mismatches (ensure_global img s) = mismatches s"
  "misses (ensure_global img s) = misses s" "indirects (ensure_global img s) = indirects s"
  by (auto simp: ensure_global_def split: prod.splits)

lemma tallied_rule_pin: "tallied 1 s (rule_pin img t pn s)"
  by (auto simp: tallied_def rule_pin_def verdict_def Let_def ensure_counters)

lemma rule_offsets_tallied:
  assumes "0 < g_text_lo img"
  shows "\<exists>s'. rule_offsets img x pins extra s = Some s' \<and> tallied (length pins) s s'"
proof -
  obtain t p where w: "walk_syms img (x # extra) ([], pwalk s) = Some (t, p)"
    using walk_syms_ok [OF assms] by (metis prod.exhaust)
  have "tallied (length pins) (s\<lparr>pwalk := p\<rparr>) (fold (rule_pin img t) pins (s\<lparr>pwalk := p\<rparr>))"
    by (rule tallied_fold) (rule tallied_rule_pin)
  with w show ?thesis by (simp add: rule_offsets_def del: walk_syms.simps)
qed

lemma pins_count: "length pins_config = 4" "length pins_regs = 6" "length pins_ro = 10" "length pins_traps = 18"
  by (simp_all add: pins_config_def pins_regs_def pins_ro_def pins_traps_def)

lemma check_config_tallied:
  assumes "0 < g_text_lo img"
  shows "\<exists>s'. check_config img s = Some s' \<and> tallied 4 s s'"
proof -
  obtain t p where w: "walk_syms img setters ([], (pwalk s)\<lparr>g_strb := []\<rparr>) = Some (t, p)"
    using walk_syms_ok [OF assms] by (metis prod.exhaust)
  have "tallied (length pins_config) (s\<lparr>pwalk := p\<rparr>)
      (fold (\<lambda>pn. verdict pn (has_off (snd pn) t) (snd pn)) pins_config (s\<lparr>pwalk := p\<rparr>))"
    by (rule tallied_fold) (rule tallied_verdict)
  with w show ?thesis by (simp add: check_config_def pins_count)
qed

lemma check_traps_tallied:
  assumes "0 < g_text_lo img"
  shows "\<exists>s'. check_traps img s = Some s' \<and> tallied 18 s s'"
proof -
  obtain t p where w: "walk_syms img (trap_entries @ seeds_traps) ([], (pwalk s)\<lparr>g_w0 := [], g_traps := []\<rparr>) = Some (t, p)"
    using walk_syms_ok [OF assms] by (metis prod.exhaust)
  have "tallied (length pins_traps) (s\<lparr>pwalk := p\<rparr>)
      (fold (\<lambda>pn. verdict pn (snd pn \<in> set (g_w0 p) \<union> set (g_traps p)) (snd pn)) pins_traps (s\<lparr>pwalk := p\<rparr>))"
    by (rule tallied_fold) (rule tallied_verdict)
  with w show ?thesis by (simp add: check_traps_def pins_count)
qed

text \<open>The tool always gets to its last line, which counts 44 checks, and no framework
  whatever makes it report a drift: a pin is either found, and then compared with itself, or
  missing, so the exit status says only whether something was missing.\<close>

theorem probe_never_drifts:
  assumes "0 < g_text_lo img"
  shows "\<exists>s. probe_checks img = Some s \<and> findings s = 44 \<and> mismatches s = 0
    \<and> misses s + indirects s \<le> 44 \<and> probe_status s = (if misses s = 0 then 0 else 1)"
proof -
  note rule = rule_offsets_tallied [OF assms]
  obtain s1 where 1: "check_config img initial_probe = Some s1" "tallied 4 initial_probe s1"
    using check_config_tallied [OF assms] by blast
  obtain s2 where 2: "rule_offsets img ''hv_vcpu_get_reg'' pins_regs [] s1 = Some s2" "tallied (length pins_regs) s1 s2"
    using rule by blast
  obtain s3 where 3: "rule_offsets img ''hv_vcpu_set_reg'' pins_regs [] s2 = Some s3" "tallied (length pins_regs) s2 s3"
    using rule by blast
  obtain s4 where 4: "rule_offsets img ''hv_vcpu_run'' pins_ro seeds_ro s3 = Some s4" "tallied (length pins_ro) s3 s4"
    using rule by blast
  obtain s5 where 5: "rule_offsets img ''hv_vcpu_get_sys_reg'' [] [] s4 = Some s5" "tallied (length ([] :: pin list)) s4 s5"
    using rule by blast
  obtain s where 6: "check_traps img s5 = Some s" "tallied 18 s5 s"
    using check_traps_tallied [OF assms] by blast
  have "probe_checks img = Some s"
    by (simp add: probe_checks_def 1 2 3 4 5 6)
  moreover have "tallied 44 initial_probe s"
    using tallied_trans [OF tallied_trans [OF tallied_trans [OF tallied_trans [OF tallied_trans
      [OF 1(2) 2(2)] 3(2)] 4(2)] 5(2)] 6(2)] by (simp add: pins_count)
  ultimately show ?thesis by (auto simp: tallied_def initial_probe_def probe_status_def)
qed

text \<open>The witness: the text of one load, where most pins are missing.\<close>

theorem probe_never_drifts_witness: "\<exists>s. probe_checks one_load = Some s \<and> findings s = 44 \<and> mismatches s = 0"
  using probe_never_drifts [of one_load] by (auto simp: one_load_def)

text \<open>The numbers the tool checks are those the library is built on, except for four of
  the read-only page: the pins of the two configuration bytes, of the registers and of the traps
  are the offsets and the numbers the headers give, but the exit's syndrome and addresses and the
  validity word are pinned where the first version of the page had them.\<close>

theorem pins_against_headers:
  "map snd pins_regs = map of_nat [OHV_RW_REGS_X0, OHV_RW_FP, OHV_RW_LR, OHV_RW_SP, OHV_RW_PC, OHV_RW_CPSR]
   \<and> map snd pins_traps = map snd ohv_traps
   \<and> filter (\<lambda>(pinned, defined). pinned \<noteq> defined)
       (zip (map snd (filter (\<lambda>p. fst p \<noteq> ''instr'') pins_ro))
         (map of_nat [OHV_RO_VER, OHV_RO_EXIT_REASON, OHV_RO_EXIT_ESR, OHV_RO_EXIT_FAR, OHV_RO_EXIT_HPFAR,
            OHV_RO_CONTROLS, OHV_RO_STATE_VALID, OHV_RO_STATE_DIRTY, OHV_RO_STATE_USED]))
     = [(0x400c, of_nat OHV_RO_EXIT_ESR), (0x4018, of_nat OHV_RO_EXIT_FAR), (0x4020, of_nat OHV_RO_EXIT_HPFAR),
        (0x4100, of_nat OHV_RO_STATE_VALID)]"
  by (simp add: pins_regs_def pins_traps_def ohv_traps_def pins_ro_def layout)

section \<open>The bounds of the text\<close>

text \<open>The load commands of the framework's header: a 64-bit segment with its name, address and size,
  or something else.  The last one named \<open>__TEXT\<close> counts; the bounds are where it is mapped.\<close>

datatype load_command = LC_SEGMENT_64 string u64 u64 | LC_OTHER

definition text_segment :: "load_command list \<Rightarrow> u64 \<times> u64" where
  "text_segment lcs =
     fold (\<lambda>lc acc. case lc of
         LC_SEGMENT_64 n vmaddr vmsize \<Rightarrow> if n = ''__TEXT'' then (vmaddr, vmsize) else acc
       | LC_OTHER \<Rightarrow> acc) lcs (0, 0)"

definition text_bounds :: "u64 \<Rightarrow> load_command list \<Rightarrow> u64 \<times> u64" where
  "text_bounds fbase lcs =
     (case text_segment lcs of (text_vm, text_sz) \<Rightarrow>
        let slide = fbase - text_vm; lo = text_vm + slide in (lo, lo + text_sz))"

text \<open>The text starts where the framework is mapped, wherever it was linked; when no segment has the
  name, no address lies in the text and a walk reports nothing new.\<close>

lemma text_bounds_eq: "text_bounds fbase lcs = (fbase, fbase + snd (text_segment lcs))"
  by (simp add: text_bounds_def split: prod.split)

lemma no_text_no_walk:
  assumes "text_bounds fbase lcs = (g_text_lo img, g_text_hi img)" "\<forall>a b. LC_SEGMENT_64 ''__TEXT'' a b \<notin> set lcs"
  shows "walk_from img start op = Some (fst op, (snd op)\<lparr>vis := vis_reset, stack := []\<rparr>)"
proof -
  have "fold (\<lambda>lc acc. case lc of
         LC_SEGMENT_64 n vmaddr vmsize \<Rightarrow> if n = ''__TEXT'' then (vmaddr, vmsize) else acc
       | LC_OTHER \<Rightarrow> acc) ls acc = acc" if "\<forall>a b. LC_SEGMENT_64 ''__TEXT'' a b \<notin> set ls" for ls and acc :: "u64 \<times> u64"
    using that by (induction ls arbitrary: acc) (auto split: load_command.split)
  from this [OF assms(2)] have "text_segment lcs = (0, 0)" by (simp add: text_segment_def)
  then have "g_text_hi img = g_text_lo img" using assms(1) by (auto simp: text_bounds_eq)
  then have "start < g_text_lo img \<or> g_text_hi img \<le> start" by auto
  then show ?thesis by (auto simp: walk_from_def enqueue_def walk_loop.simps)
qed

end
