(* ===== verification/Ohv_Alias.thy ===== *)
theory Ohv_Alias
  imports Ohv_Probe
begin

text \<open>
  The names the private entry points are exported under: \<open>src/ohv_alias.cpp\<close>, where a function with one
  leading underscore passes its arguments to the one with two, and the three such names
  \<open>src/ohv_vcpu.cpp\<close> defines itself.  \<open>ohv_alias.cpp\<close> gives the names with one underscore as those of the
  framework's export list.

  The lemmas show that every name forwards to its own function, and what the names mean for the
  offset matcher, which looks for the private entry points with two underscores.
\<close>

section \<open>The names\<close>

definition ohv_aliases :: "(string \<times> string) list" where
  "ohv_aliases =
    [(''_hv_vcpu_get_ext_reg'', ''__hv_vcpu_get_ext_reg''),
     (''_hv_vcpu_config_get_vmkey'', ''__hv_vcpu_config_get_vmkey''),
     (''_hv_vcpu_config_set_vmkey'', ''__hv_vcpu_config_set_vmkey''),
     (''_hv_vcpu_config_get_fgt_enabled'', ''__hv_vcpu_config_get_fgt_enabled''),
     (''_hv_vcpu_config_set_fgt_enabled'', ''__hv_vcpu_config_set_fgt_enabled''),
     (''_hv_vcpu_config_get_tlbi_workaround_enabled'', ''__hv_vcpu_config_get_tlbi_workaround_enabled''),
     (''_hv_vcpu_config_set_tlbi_workaround_enabled'', ''__hv_vcpu_config_set_tlbi_workaround_enabled''),
     (''_hv_vcpu_amx_prepare'', ''__hv_vcpu_amx_prepare''),
     (''_hv_vcpu_amx_query_active_context'', ''__hv_vcpu_amx_query_active_context''),
     (''_hv_vcpu_get_amx_x_space'', ''__hv_vcpu_get_amx_x_space''),
     (''_hv_vcpu_set_amx_x_space'', ''__hv_vcpu_set_amx_x_space''),
     (''_hv_vcpu_get_amx_y_space'', ''__hv_vcpu_get_amx_y_space''),
     (''_hv_vcpu_set_amx_y_space'', ''__hv_vcpu_set_amx_y_space''),
     (''_hv_vcpu_get_amx_z_space'', ''__hv_vcpu_get_amx_z_space''),
     (''_hv_vcpu_set_amx_z_space'', ''__hv_vcpu_set_amx_z_space''),
     (''_hv_vcpu_get_amx_state_t_el1'', ''__hv_vcpu_get_amx_state_t_el1''),
     (''_hv_vcpu_set_amx_state_t_el1'', ''__hv_vcpu_set_amx_state_t_el1''),
     (''_hv_vm_space_config_create'', ''__hv_vm_space_config_create''),
     (''_hv_vm_space_config_set_ipa_base'', ''__hv_vm_space_config_set_ipa_base''),
     (''_hv_vm_space_config_get_ipa_base'', ''__hv_vm_space_config_get_ipa_base''),
     (''_hv_vm_space_config_set_ipa_size'', ''__hv_vm_space_config_set_ipa_size''),
     (''_hv_vm_space_config_get_ipa_size'', ''__hv_vm_space_config_get_ipa_size''),
     (''_hv_vm_space_config_set_ipa_granule'', ''__hv_vm_space_config_set_ipa_granule''),
     (''_hv_vm_space_config_get_ipa_granule'', ''__hv_vm_space_config_get_ipa_granule''),
     (''_hv_vm_space_create'', ''__hv_vm_space_create''),
     (''_hv_vm_space_destroy'', ''__hv_vm_space_destroy''),
     (''_hv_vm_map_space'', ''__hv_vm_map_space''), (''_hv_vm_unmap_space'', ''__hv_vm_unmap_space''),
     (''_hv_vm_protect_space'', ''__hv_vm_protect_space''),
     (''_hv_vm_stage1_tlb_op'', ''__hv_vm_stage1_tlb_op''), (''_hv_capability'', ''__hv_capability'')]"

definition vcpu_private_names :: "string list" where
  "vcpu_private_names =
    [''_hv_vcpu_get_context'', ''_hv_vcpu_get_control_field'', ''_hv_vcpu_set_control_field'']"

text \<open>The framework's private names, as the file gives them.\<close>

definition framework_private :: "string list" where
  "framework_private = map fst ohv_aliases @ vcpu_private_names"

text \<open>No name is given twice, and each forwards to the function that has its name with one more
  underscore.\<close>

lemma aliases_forward_to_their_own: "list_all (\<lambda>(a, f). f = CHR ''_'' # a) ohv_aliases"
  by (simp add: ohv_aliases_def)

lemma private_names_distinct: "distinct framework_private"
  by (simp add: framework_private_def ohv_aliases_def vcpu_private_names_def)

section \<open>What the matcher finds of them\<close>

definition one_underscore :: "string \<Rightarrow> bool" where
  "one_underscore n \<longleftrightarrow> take 2 n \<noteq> ''__''"

lemma private_names_one_underscore: "list_all one_underscore framework_private"
  by (simp add: framework_private_def ohv_aliases_def vcpu_private_names_def one_underscore_def)

text \<open>A framework that exports its private surface under those names, and nothing under two
  underscores: then a list of seeds does what it does without the private ones.\<close>

definition exports_as_listed :: "image \<Rightarrow> bool" where
  "exports_as_listed img \<longleftrightarrow> (\<forall>n. fw_sym img n \<noteq> None \<longrightarrow> one_underscore n)"

lemma walk_syms_skips:
  "exports_as_listed img \<Longrightarrow> walk_syms img ns op = walk_syms img (filter one_underscore ns) op"
proof (induction ns arbitrary: op)
  case (Cons n ns)
  show ?case
  proof (cases "one_underscore n")
    case True
    with Cons show ?thesis by (simp split: option.split)
  next
    case False
    then have "fw_sym img n = None" using Cons.prems unfolding exports_as_listed_def by blast
    with False Cons show ?thesis by simp
  qed
qed simp

text \<open>Six of the ten trap seeds and one of the five seeds of the read-only page are never walked.\<close>

lemma private_seeds_skipped:
  assumes "exports_as_listed img"
  shows "walk_syms img seeds_traps op = walk_syms img [''hv_vcpus_exit'', ''hv_vcpu_invalidate_tlb'',
      ''hv_vcpu_set_sme_state'', ''hv_vcpu_get_sme_z_reg''] op"
    and "walk_syms img seeds_ro op = walk_syms img (tl seeds_ro) op"
proof -
  have "filter one_underscore seeds_traps = [''hv_vcpus_exit'', ''hv_vcpu_invalidate_tlb'',
      ''hv_vcpu_set_sme_state'', ''hv_vcpu_get_sme_z_reg'']"
    by (simp add: seeds_traps_def one_underscore_def)
  then show "walk_syms img seeds_traps op = walk_syms img [''hv_vcpus_exit'', ''hv_vcpu_invalidate_tlb'',
      ''hv_vcpu_set_sme_state'', ''hv_vcpu_get_sme_z_reg''] op"
    using walk_syms_skips [OF assms, of seeds_traps] by simp
  have "filter one_underscore seeds_ro = tl seeds_ro" by (simp add: seeds_ro_def one_underscore_def)
  then show "walk_syms img seeds_ro op = walk_syms img (tl seeds_ro) op"
    using walk_syms_skips [OF assms, of seeds_ro] by simp
qed

end
