(* ===== verification/Ohv_Object.thy ===== *)
theory Ohv_Object
  imports Ohv_Gic Ohv_Misc Ohv_Probe
begin

text \<open>
  The handles the library gives out: \<open>src/ohv_object.cpp\<close>, which allocates them as objects of a class
  made at run time, and the structures of \<open>src/ohv_vm.cpp\<close>, \<open>src/ohv_gic.cpp\<close>, \<open>src/ohv_misc.cpp\<close> and
  \<open>src/ohv_vcpu.cpp\<close> that lie in them, as C structures.  The Objective-C runtime is a parameter, a record
  of functions on a runtime state; a nil class or object is the address 0.

  The lemmas show what a handle holds when it is new, that the class is asked for once and a refusal
  is final, that the fields lie where the framework's accessors and the offset matcher look for
  them, and two places where the structures disagree: the vCPU configuration has two layouts, and
  the address space configuration is no object.
\<close>

section \<open>Allocation\<close>

record object =
  obj_size :: nat
  obj_mem :: mem

record 'r objc_runtime =
  objc_getClass :: "'r \<Rightarrow> string \<Rightarrow> u64"
  objc_allocateClassPair :: "'r \<Rightarrow> u64 \<Rightarrow> string \<Rightarrow> u64 \<times> 'r"
  objc_registerClassPair :: "'r \<Rightarrow> u64 \<Rightarrow> 'r"
  class_getInstanceSize :: "'r \<Rightarrow> u64 \<Rightarrow> nat"
  class_createInstance :: "'r \<Rightarrow> u64 \<Rightarrow> nat \<Rightarrow> object option \<times> 'r"

text \<open>\<open>g_handle_class\<close>, and whether \<open>make_class\<close> has run.\<close>

record object_state =
  class_made :: bool
  g_handle_class :: u64

definition make_class :: "'r objc_runtime \<Rightarrow> 'r \<Rightarrow> u64 \<Rightarrow> u64 \<times> 'r" where
  "make_class R r cls =
     (let root = objc_getClass R r ''NSObject''
      in if root = 0 then (cls, r)
         else (case objc_allocateClassPair R r root ''OHVHandle'' of
                 (c, r1) \<Rightarrow>
                   if c = 0 then (objc_getClass R r1 ''OHVHandle'', r1)
                   else (c, objc_registerClassPair R r1 c)))"

definition ohv_object_alloc ::
  "'r objc_runtime \<Rightarrow> nat \<Rightarrow> object_state \<Rightarrow> 'r \<Rightarrow> object option \<times> object_state \<times> 'r" where
  "ohv_object_alloc R sz st r =
     (let (cls, r1) = (if class_made st then (g_handle_class st, r) else make_class R r (g_handle_class st));
          st1 = \<lparr>class_made = True, g_handle_class = cls\<rparr>
      in if cls = 0 then (None, st1, r1)
         else let base = class_getInstanceSize R r1 cls;
                  (ob, r2) = class_createInstance R r1 cls (if base < sz then sz - base else 0)
              in (ob, st1, r2))"

text \<open>What the runtime documents of an instance: the class's size and the extra bytes, zeroed, with the
  class in the first word.\<close>

definition instances_documented :: "'r objc_runtime \<Rightarrow> bool" where
  "instances_documented R \<longleftrightarrow> (\<forall>r c extra. c \<noteq> 0 \<longrightarrow>
     fst (class_createInstance R r c extra) =
       Some \<lparr>obj_size = class_getInstanceSize R r c + extra, obj_mem = wr64 zero_mem 0 c\<rparr>)"

text \<open>A handle that is given out is at least as large as its structure, carries the class in front
  and is zero behind it.\<close>

lemma object_alloc_fresh:
  assumes "instances_documented R" "ohv_object_alloc R sz st r = (Some ob, st', r')"
  shows "sz \<le> obj_size ob \<and> rd64 (obj_mem ob) 0 = g_handle_class st' \<and> g_handle_class st' \<noteq> 0
    \<and> (\<forall>a. 8 \<le> a \<longrightarrow> obj_mem ob a = 0)"
proof -
  obtain cls r1 where c: "(if class_made st then (g_handle_class st, r) else make_class R r (g_handle_class st)) = (cls, r1)"
    by force
  have n: "cls \<noteq> 0" using assms(2) by (auto simp: ohv_object_alloc_def c Let_def)
  define extra where "extra = (if class_getInstanceSize R r1 cls < sz then sz - class_getInstanceSize R r1 cls else 0)"
  have "fst (class_createInstance R r1 cls extra) =
      Some \<lparr>obj_size = class_getInstanceSize R r1 cls + extra, obj_mem = wr64 zero_mem 0 cls\<rparr>"
    using assms(1) n unfolding instances_documented_def by blast
  then have "ob = \<lparr>obj_size = class_getInstanceSize R r1 cls + extra, obj_mem = wr64 zero_mem 0 cls\<rparr>"
    "g_handle_class st' = cls"
    using assms(2) n by (auto simp: ohv_object_alloc_def c Let_def extra_def [symmetric] split: prod.splits)
  moreover have "wr64 zero_mem 0 cls a = 0" if "8 \<le> a" for a using that by (simp add: wr64_def zero_mem_def)
  ultimately show ?thesis using n by (simp add: extra_def)
qed

text \<open>The class is asked for once: a class that was had stays, and a runtime that refused at the first
  handle is never asked again.\<close>

lemma object_alloc_state:
  assumes "ohv_object_alloc R sz st r = (ob, st', r')"
  shows "class_made st' \<and> (class_made st \<longrightarrow> g_handle_class st' = g_handle_class st)"
  using assms by (auto simp: ohv_object_alloc_def Let_def split: prod.splits if_splits)

lemma refusal_is_final:
  assumes "ohv_object_alloc R sz st r = (ob, st', r')" "g_handle_class st' = 0"
  shows "ob = None \<and> ohv_object_alloc R sz' st' r'' = (None, st', r'')"
proof -
  have m: "class_made st'" using object_alloc_state [OF assms(1)] by simp
  have "ob = None" using assms by (auto simp: ohv_object_alloc_def Let_def split: prod.splits if_splits)
  moreover have "\<lparr>class_made = True, g_handle_class = 0\<rparr> = st'" using m assms(2) by simp
  ultimately show ?thesis using m assms(2) by (simp add: ohv_object_alloc_def)
qed

section \<open>The structures\<close>

definition Class_size :: nat where "Class_size = 8"

definition vm_config_struct :: "c_field list" where
  "vm_config_struct =
    [(''__isa'', Class_size, 8), (''refcnt'', 4, 4), (''ipa_bits'', 4, 4), (''__pad_to_granule'', 0x14 - 8, 1),
     (''granule'', 4, 4), (''el2_enabled'', 1, 1), (''vhe_enabled'', 1, 1), (''pad'', 2, 1), (''isa'', 4, 4)]"

definition gic_config_struct :: "c_field list" where
  "gic_config_struct =
    [(''__isa'', Class_size, 8), (''distributor_base'', 8, 8), (''redistributor_base'', 8, 8),
     (''msi_region_base'', 8, 8), (''msi_intid_base'', 4, 4), (''msi_intid_count'', 4, 4), (''refcnt'', 4, 4)]"

text \<open>The vCPU configuration as the file that allocates it declares it, and as the file that creates
  vCPUs does.\<close>

definition vcpu_config_struct :: "c_field list" where
  "vcpu_config_struct =
    [(''__isa'', Class_size, 8), (''feature_overrides'', 16, 8), (''misc'', 2, 2), (''fgt_enabled'', 1, 1),
     (''tlbi_workaround'', 1, 1), (''vmkey'', 8, 8)]"

definition vcpu_config_struct_in_vcpu :: "c_field list" where
  "vcpu_config_struct_in_vcpu =
    [(''__isa'', Class_size, 8), (''ccsidr_ptr'', 16, 8), (''spare'', 8, 8), (''fgt_enabled'', 1, 1),
     (''tlbi_workaround'', 1, 1), (''vmkey'', 8, 8), (''pad'', 7, 1)]"

definition vm_space_config_struct :: "c_field list" where
  "vm_space_config_struct = [(''ipa_base'', 8, 8), (''ipa_size'', 8, 8), (''ipa_granule'', 8, 8)]"

lemmas struct_defs = vm_config_struct_def gic_config_struct_def vcpu_config_struct_def
  vcpu_config_struct_in_vcpu_def vm_space_config_struct_def Class_size_def

text \<open>\<open>OHV_VM_CONFIG_AT\<close>: an offset behind the object header.\<close>

definition OHV_VM_CONFIG_AT :: "string \<Rightarrow> nat option" where
  "OHV_VM_CONFIG_AT f = map_option (\<lambda>off. off - Class_size) (c_offsetof vm_config_struct f)"

text \<open>The static assertions hold, and with them the offset matcher's pins.\<close>

lemma vm_config_static_asserts:
  "OHV_VM_CONFIG_AT ''granule'' = Some 0x14" "OHV_VM_CONFIG_AT ''el2_enabled'' = Some 24"
  "OHV_VM_CONFIG_AT ''vhe_enabled'' = Some 25" "OHV_VM_CONFIG_AT ''isa'' = Some 28"
  by (simp_all add: OHV_VM_CONFIG_AT_def struct_defs c_layout_eval)

lemma vm_config_pins:
  "map (\<lambda>(f, _). OHV_VM_CONFIG_AT (if f = ''el2'' then ''el2_enabled'' else if f = ''vhe'' then ''vhe_enabled'' else f))
     pins_config = map (\<lambda>(_, v). Some (unat v)) pins_config"
  by (simp add: pins_config_def vm_config_static_asserts)

text \<open>A handle leads with the word \<open>os_release\<close> reads a class from -- but for the address space
  configuration, whose first word is its base address and which is allocated without a class.\<close>

lemma handles_lead_with_isa:
  "list_all (\<lambda>s. c_offsetof s ''__isa'' = Some 0) [vm_config_struct, gic_config_struct, vcpu_config_struct]"
  "c_offsetof vm_space_config_struct ''__isa'' = None" "c_offsetof vm_space_config_struct ''ipa_base'' = Some 0"
  by (simp_all add: struct_defs c_layout_eval)

lemma gic_state_leads_with_config: "hd GicModel_fields = (''cfg'', c_sizeof gic_config_struct, 8)"
  by (simp add: GicModel_fields_def struct_defs c_layout_eval)

text \<open>The two declarations of the vCPU configuration agree on the class and the sixteen bytes behind
  it and on nothing after: read through the second, the switch for fine-grained traps is the key's
  first byte, and the key lies behind the end of what was allocated.\<close>

theorem vcpu_config_layouts_differ:
  "c_offsetof vcpu_config_struct ''fgt_enabled'' = Some 26 \<and> c_offsetof vcpu_config_struct_in_vcpu ''fgt_enabled'' = Some 32
   \<and> c_offsetof vcpu_config_struct ''tlbi_workaround'' = Some 27
   \<and> c_offsetof vcpu_config_struct_in_vcpu ''tlbi_workaround'' = Some 33
   \<and> c_offsetof vcpu_config_struct ''vmkey'' = c_offsetof vcpu_config_struct_in_vcpu ''fgt_enabled''
   \<and> c_offsetof vcpu_config_struct_in_vcpu ''vmkey'' = Some (c_sizeof vcpu_config_struct)"
  by (simp add: struct_defs c_layout_eval)

end
