(* ===== verification/Ohv_Trace.thy ===== *)
theory Ohv_Trace
  imports Ohv_Run
begin

text \<open>
  The diagnostics of \<open>src/ohv_vcpu.cpp\<close>: the lines \<open>exit_from_ro\<close> and \<open>service_nv2_access\<close> write to the standard
  error under the OHV_TRACE_* settings, with the function statics that ration them, and the whole exit with
  its lines as a value beside its result.  Also the lines of a raised, held or moved interrupt level, of the
  monitor band, of the run loop and of a refused system register.

  A line is the format it is written with (a \<open>trace_tag\<close>) and the numbers it is given, in their order; a string chosen
  between two is the flag that chooses it.  Two of the settings, OHV_TRACE_GLVL and OHV_TRACE_GL1, synchronize
  the shared pages before they print, so they act on the slot as well.  The theorems: printing alone
  never changes an exit; what is rationed stays within its ration over any number of exits of
  any vCPUs; a trace of changes is its history with the repetitions left out; an exception
  return is reported when, and only when, it leaves a mode the hardware refuses.
\<close>

section \<open>Lines and the state they keep\<close>

datatype trace_tag =
    T_reason | T_exit | T_nv_restored | T_after_geret | T_mirrored | T_state_used | T_rearmed
  | T_kernel_esr | T_vint | T_ktimer | T_platform_error | T_guest_fault | T_physical | T_hvc
  | T_gl1_dump | T_gl1_ext | T_eret_seen | T_guarded_eret | T_eret_el1 | T_eret_el2 | T_unclassified
  | T_handoff | T_gxf | T_tid2 | T_cntp | T_sys_insn | T_tmr_ena | T_ctrr | T_impdef | T_pac | T_unmatched
  | T_kernel_irq | T_kernel_irq_last | T_irq_edge | T_sysreg_one | T_sysreg_refused
  | T_irq_held | T_fiq_held | T_vf | T_band | T_first_run | T_cancel_after_run | T_cancel_honoured

datatype trace_line =
    Line trace_tag "u64 list"
  | Illegal_eret u64 bool u64 spsr_fault u64 u64

record trace_statics =
  hcr_shown :: "nat \<Rightarrow> u32"
  all_t0 :: int
  all_floor :: u64
  all_emitted :: u32
  all_cap :: u32
  all_only :: int
  glvl_n :: u32
  mirror_n :: u32
  gxf_n :: u32
  gxf_last :: u64
  kfault_last :: u64
  ktimer_n :: u32
  fault_last_esr :: u64
  fault_last_elr :: u64
  physical_n :: u32
  gl1_n :: u32
  unmatched_n :: u32
  kirq_was :: "nat \<Rightarrow> bool \<Rightarrow> bool"
  kirq_n :: u32
  irq_was :: "nat \<Rightarrow> bool \<Rightarrow> bool"

definition initial_trace :: trace_statics where
  "initial_trace = \<lparr>hcr_shown = (\<lambda>_. 0), all_t0 = 0, all_floor = - 1, all_emitted = 0, all_cap = 0,
     all_only = - 2, glvl_n = 0, mirror_n = 0, gxf_n = 0, gxf_last = - 1, kfault_last = - 1, ktimer_n = 0,
     fault_last_esr = 0, fault_last_elr = 0, physical_n = 0, gl1_n = 0, unmatched_n = 0, kirq_was = (\<lambda>_ _. False), kirq_n = 0,
     irq_was = (\<lambda>_ _. False)\<rparr>"

text \<open>The clocks one exit reads: \<open>time\<close>, twice, and the physical counter.\<close>

record trace_clock =
  k_time :: int
  k_time_again :: int
  k_pct :: u64

text \<open>A step that prints: the lines and the statics after it.\<close>

type_synonym tracing = "trace_statics \<Rightarrow> trace_line list \<times> trace_statics"

definition say :: "bool \<Rightarrow> trace_line \<Rightarrow> tracing" where
  "say c l t = (if c then [l] else [], t)"

definition then_say :: "tracing \<Rightarrow> tracing \<Rightarrow> tracing" where
  "then_say p q t = (case p t of (ls, t1) \<Rightarrow> case q t1 of (ls', t2) \<Rightarrow> (ls @ ls', t2))"

definition flag :: "bool \<Rightarrow> u64" where "flag b = (if b then 1 else 0)"

text \<open>\<open>strtol\<close> with base 0 into a \<open>long\<close>, and \<open>atoi\<close>, which is \<open>strtol\<close> with base 10 cut to an \<open>int\<close>.\<close>

definition signed_value :: "(string \<Rightarrow> nat) \<Rightarrow> string \<Rightarrow> int" where
  "signed_value f s =
     (let t = dropWhile is_space s;
          v = (if t \<noteq> [] \<and> hd t = CHR ''-'' then - int (f (tl t))
               else if t \<noteq> [] \<and> hd t = CHR ''+'' then int (f (tl t)) else int (f t))
      in max (- (2 ^ 63)) (min (2 ^ 63 - 1) v))"

definition strtol :: "string \<Rightarrow> int" where
  "strtol s = signed_value unsigned_value s"

definition atoi :: "string \<Rightarrow> int" where
  "atoi s = sint (word_of_int (signed_value (digits_value 10 0) s) :: u32)"

section \<open>Before the exit is handled\<close>

definition trace_hcr :: "OhvCfg \<Rightarrow> VcpuSlot \<Rightarrow> tracing" where
  "trace_hcr cfg s t =
     (let i = unat (slot_id s) in
      if ohv_env cfg cfg_OHV_TRACE_HCR \<and> i < 8 \<and> hcr_shown t i < 40
         \<and> vmexit_reason s \<noteq> 6 \<and> vmexit_reason s \<noteq> 11
      then ([Line T_reason [slot_id s, ucast (vmexit_reason s), exit_esr s, slot_pc s,
               ctx_rd s bk_cntv_ctl_el0, ctx_rd s bk_cntv_cval_el0, el2_shadow s OHV_SHADOW_CNTP_CTL,
               ctx_rd s bk_cntp_cval_el0, ctx_rd s OHV_RW_TIMER]],
            t\<lparr>hcr_shown := (hcr_shown t)(i := hcr_shown t i + 1)\<rparr>)
      else ([], t))"

definition all_settings :: "OhvCfg \<Rightarrow> trace_clock \<Rightarrow> trace_statics \<Rightarrow> trace_statics" where
  "all_settings cfg k t =
     t\<lparr>all_t0 := (if all_t0 t = 0 then k_time k else all_t0 t),
       all_floor := (if all_floor t = - 1 then cfg_num cfg cfg_OHV_TRACE_FROM 0x1fc000000 else all_floor t),
       all_cap := (if all_cap t = 0
                   then (case cfg cfg_OHV_TRACE_MAX of None \<Rightarrow> - 1 | Some c \<Rightarrow> word_of_int (atoi c))
                   else all_cap t),
       all_only := (if all_only t = - 2
                    then (case cfg cfg_OHV_TRACE_VCPU of None \<Rightarrow> - 1 | Some v \<Rightarrow> strtol v)
                    else all_only t)\<rparr>"

definition trace_all :: "OhvCfg \<Rightarrow> trace_clock \<Rightarrow> VcpuSlot \<Rightarrow> tracing" where
  "trace_all cfg k s t =
     (if \<not> ohv_env cfg cfg_OHV_TRACE_ALL then ([], t)
      else
        let t' = all_settings cfg k t;
            armed = (case cfg cfg_OHV_TRACE_AFTER of None \<Rightarrow> True
                     | Some a \<Rightarrow> atoi a \<le> k_time_again k - all_t0 t')
        in if armed \<and> all_emitted t' < all_cap t' \<and> all_floor t' \<le> slot_pc s
              \<and> (all_only t' < 0 \<or> sint (slot_id s) = all_only t')
           then ([Line T_exit [slot_id s, ucast (vmexit_reason s), exit_esr s, slot_pc s,
                    ctx_rd s OHV_RO_EXIT_FAR, push_bit 8 (ctx_rd s OHV_RO_EXIT_HPFAR)]],
                 t'\<lparr>all_emitted := all_emitted t' + 1\<rparr>)
           else ([], t'))"

definition trace_nv_restored :: "OhvCfg \<Rightarrow> VcpuSlot \<Rightarrow> tracing" where
  "trace_nv_restored cfg s =
     say (nv_off_for_geret s \<and> exit_ec s = 0x3f \<and> ohv_env cfg cfg_OHV_TRACE_ERET)
       (Line T_nv_restored [slot_pc s])"

text \<open>The first of the two that synchronize.\<close>

definition trace_glvl :: "world \<Rightarrow> VcpuSlot \<Rightarrow> trace_statics \<Rightarrow> trace_line list \<times> trace_statics \<times> VcpuSlot" where
  "trace_glvl w s t =
     (if ohv_env (w_cfg w) cfg_OHV_TRACE_GLVL \<and> nv_off_for_geret s \<and> glvl_n t < 12
      then (let s' = snd (sync_ctx w s) in
            ([Line T_after_geret [slot_pc s', exit_esr s', ctx_rd s' ext_aspsr_el1, ctx_rd s' ctl_apsts_el1,
                ctx_rd s' ext_spsr_gl1, ucast (slot_cpsr s')]],
             t\<lparr>glvl_n := glvl_n t + 1\<rparr>, s'))
      else ([], t, s))"

definition trace_mirrored :: "world \<Rightarrow> VcpuSlot \<Rightarrow> tracing" where
  "trace_mirrored w s t =
     (let s1 = snd (sync_ctx w s); gelr = ctx_rd s1 ext_elr_gl1; gspsr = ctx_rd s1 ext_spsr_gl1 in
      if ohv_env (w_cfg w) cfg_OHV_MIRROR_GL1 \<and> exit_ec s = 0x18 \<and> gelr \<noteq> 0 \<and> gspsr \<noteq> 0
         \<and> (ctx_rd s1 bk_elr_el1 \<noteq> gelr \<or> ctx_rd s1 bk_spsr_el1 \<noteq> gspsr)
         \<and> ohv_env (w_cfg w) cfg_OHV_TRACE_ERET \<and> mirror_n t < 8
      then ([Line T_mirrored [gelr, gspsr, slot_pc s1]], t\<lparr>mirror_n := mirror_n t + 1\<rparr>)
      else ([], t))"

definition trace_gxfstate :: "OhvCfg \<Rightarrow> VcpuSlot \<Rightarrow> tracing" where
  "trace_gxfstate cfg s t =
     (let now = ctx_rd s OHV_RO_STATE_USED in
      if ohv_env cfg cfg_OHV_TRACE_GXFSTATE \<and> gxf_n t < 60 \<and> now \<noteq> gxf_last t
      then ([Line T_state_used [now, flag (bit now 58), flag (bit now 59), ctx_rd s ctl_hacr_el2, slot_pc s]],
            t\<lparr>gxf_last := now, gxf_n := gxf_n t + 1\<rparr>)
      else ([], t))"

definition trace_rearmed :: "OhvCfg \<Rightarrow> VcpuSlot \<Rightarrow> tracing" where
  "trace_rearmed cfg s =
     say (\<not> ohv_env cfg cfg_OHV_NO_MONITOR_NV \<and> 0xfffffff000000000 \<le> slot_pc s
          \<and> ctx_rd s ctl_hcr_el2 AND OHV_HCR_NV = 0 \<and> ohv_env cfg cfg_OHV_TRACE_ERET)
       (Line T_rearmed [slot_pc s])"

definition trace_kfault :: "OhvCfg \<Rightarrow> VcpuSlot \<Rightarrow> tracing" where
  "trace_kfault cfg s t =
     (let esr = ctx_rd s bk_esr_el1 in
      if ohv_env cfg cfg_OHV_TRACE_KFAULT \<and> 0xfffffff000000000 \<le> slot_pc s \<and> esr \<noteq> kfault_last t
      then ([Line T_kernel_esr [esr, ctx_rd s bk_far_el1, ctx_rd s bk_elr_el1, slot_pc s]],
            t\<lparr>kfault_last := esr\<rparr>)
      else ([], t))"

definition in_kernel_image :: "u64 \<Rightarrow> bool" where
  "in_kernel_image pc \<longleftrightarrow> 0xfffffff06b000000 \<le> pc \<and> pc < 0xfffffff070000000"

definition trace_vint :: "OhvCfg \<Rightarrow> VcpuSlot \<Rightarrow> tracing" where
  "trace_vint cfg s =
     (let h = ctx_rd s ctl_hcr_el2 in
      say (ohv_env cfg cfg_OHV_TRACE_KTIMER \<and> h AND push_bit 6 3 \<noteq> 0 \<and> in_kernel_image (slot_pc s))
        (Line T_vint [slot_pc s, flag (bit h 7), flag (bit h 6)]))"

definition trace_ktimer :: "OhvCfg \<Rightarrow> trace_clock \<Rightarrow> ohv_statics \<Rightarrow> VcpuSlot \<Rightarrow> tracing" where
  "trace_ktimer cfg k st s t =
     (if ohv_env cfg cfg_OHV_TRACE_KTIMER \<and> g_kernel_running st \<and> ktimer_n t < 8
      then (let h = ctx_rd s ctl_hcr_el2; n = ktimer_n t + 1 in
            ([Line T_ktimer [ucast n, slot_pc s, k_pct k, h, flag (bit h 7), flag (bit h 6),
                el2_shadow s OHV_SHADOW_CNTP_CTL, ctx_rd s bk_cntp_ctl_el0, ctx_rd s bk_cntp_cval_el0,
                ctx_rd s bk_cntv_ctl_el0, ctx_rd s bk_cntv_cval_el0]],
             t\<lparr>ktimer_n := n\<rparr>))
      else ([], t))"

text \<open>The syndromes that are a platform error to the guest's kernel.\<close>

definition platform_error :: "u64 \<Rightarrow> bool" where
  "platform_error esr \<longleftrightarrow>
     (let ec = bits_of esr 26 0x3f; fsc = bits_of esr 0 0x3f in
      ec = 0x2f \<or>
      ((ec = 0x20 \<or> ec = 0x21 \<or> ec = 0x24 \<or> ec = 0x25)
       \<and> (fsc = 0x10 \<or> (0x14 \<le> fsc \<and> fsc \<le> 0x18) \<or> (0x1c \<le> fsc \<and> fsc \<le> 0x1f))))"

definition trace_platform :: "OhvCfg \<Rightarrow> VcpuSlot \<Rightarrow> tracing" where
  "trace_platform cfg s =
     (let esr = ctx_rd s bk_esr_el1 in
      say (ohv_env cfg cfg_OHV_TRACE_FAULT \<and> platform_error esr)
        (Line T_platform_error [esr, of_nat (bits_of esr 26 0x3f), of_nat (bits_of esr 0 0x3f), ctx_rd s bk_far_el1,
           ctx_rd s bk_elr_el1, slot_pc s]))"

definition trace_fault :: "OhvCfg \<Rightarrow> VcpuSlot \<Rightarrow> tracing" where
  "trace_fault cfg s t =
     (let esr = ctx_rd s bk_esr_el1; elr = ctx_rd s bk_elr_el1 in
      if ohv_env cfg cfg_OHV_TRACE_FAULT \<and> (esr \<noteq> fault_last_esr t \<or> elr \<noteq> fault_last_elr t)
         \<and> esr \<noteq> 0 \<and> 0xfffffff000000000 \<le> elr
      then ([Line T_guest_fault [esr, of_nat (bits_of esr 26 0x3f), ctx_rd s bk_far_el1, elr, slot_pc s,
               ctx_rd s bk_spsr_el1, ctx_rd s sh_tpidr_el1,
               flag (ctx_rd s ctl_hcr_el2 AND OHV_HCR_NV \<noteq> 0), flag (nv_off_for_geret s)]],
            t\<lparr>fault_last_esr := esr, fault_last_elr := elr\<rparr>)
      else ([], t))"

text \<open>The part of the exit before its classification, with its lines.\<close>

definition exit_prepare_traced ::
  "world \<Rightarrow> trace_clock \<Rightarrow> VcpuSlot \<Rightarrow> trace_statics \<Rightarrow> trace_line list \<times> trace_statics \<times> VcpuSlot" where
  "exit_prepare_traced w k s t =
     (let cfg = w_cfg w;
          (l1, t1) = then_say (trace_hcr cfg s) (then_say (trace_all cfg k s) (trace_nv_restored cfg s)) t;
          (l2, t2, s2) = trace_glvl w (exit_nv_restore s) t1;
          s3 = exit_mirror_gl1 w s2;
          (l3, t3) = then_say (trace_mirrored w s2)
                       (then_say (trace_gxfstate cfg s3) (trace_rearmed cfg s3)) t2
      in (l1 @ l2 @ l3, t3, exit_rearm_nv cfg s3))"

definition trace_guest_state :: "OhvCfg \<Rightarrow> trace_clock \<Rightarrow> ohv_statics \<Rightarrow> VcpuSlot \<Rightarrow> tracing" where
  "trace_guest_state cfg k st s =
     then_say (trace_kfault cfg s) (then_say (trace_vint cfg s) (then_say (trace_ktimer cfg k st s)
       (then_say (trace_platform cfg s) (trace_fault cfg s))))"

section \<open>The classification, with its lines\<close>

type_synonym traced_result = "exit_result \<times> trace_line list \<times> trace_statics"

definition trace_physical :: "OhvCfg \<Rightarrow> u32 \<Rightarrow> VcpuSlot \<Rightarrow> tracing" where
  "trace_physical cfg reason s t =
     (if ohv_env cfg cfg_OHV_TRACE_IRQ \<and> physical_n t < 10
      then ([Line T_physical [slot_id s, flag (reason = 3), ctx_rd s bk_cntv_ctl_el0, ctx_rd s OHV_RW_TIMER]],
            t\<lparr>physical_n := physical_n t + 1\<rparr>)
      else ([], t))"

text \<open>\<open>report_illegal_eret\<close>, which prints whatever the settings are.\<close>

definition trace_illegal :: "VcpuSlot \<Rightarrow> bool \<Rightarrow> u64 \<Rightarrow> u64 \<Rightarrow> trace_line list" where
  "trace_illegal s from_el1 elr spsr =
     (case report_illegal_eret spsr from_el1 of
        None \<Rightarrow> []
      | Some why \<Rightarrow> [Illegal_eret (slot_id s) from_el1 spsr why elr (slot_pc s)])"

text \<open>The second of the two that synchronize: the words of the guarded bank that are not zero.\<close>

definition gl1_words :: "VcpuSlot \<Rightarrow> trace_line list" where
  "gl1_words s =
     concat (map (\<lambda>i. let v = ctx_rd s (OHV_RW_EXTREGS + i * 8) in
                  if v \<noteq> 0 then [Line T_gl1_ext [of_nat i, v]] else []) [40..<62])"

definition trace_gl1 :: "world \<Rightarrow> VcpuSlot \<Rightarrow> trace_statics \<Rightarrow> trace_line list \<times> trace_statics \<times> VcpuSlot" where
  "trace_gl1 w s t =
     (if ohv_env (w_cfg w) cfg_OHV_TRACE_GL1 \<and> exit_ec s = 0x1a \<and> 0xfffffff000000000 \<le> slot_pc s
         \<and> gl1_n t < 4
      then (let s' = snd (sync_ctx w s) in
            (Line T_gl1_dump [slot_pc s'] # gl1_words s', t\<lparr>gl1_n := gl1_n t + 1\<rparr>, s'))
      else ([], t, s))"

definition trace_eret_seen :: "OhvCfg \<Rightarrow> VcpuSlot \<Rightarrow> trace_line list" where
  "trace_eret_seen cfg s =
     (if ohv_env cfg cfg_OHV_TRACE_ERET \<and> exit_ec s = 0x1a
      then [Line T_eret_seen [slot_id s, exit_esr s, flag (guest_at_el2 s), ctx_rd s ext_spsr_gl1,
              ctx_rd s bk_elr_el1, ctx_rd s bk_spsr_el1, slot_pc s]]
      else [])"

text \<open>A return carried out here, from the slot \<open>s\<close>.\<close>

definition trace_software_eret :: "OhvCfg \<Rightarrow> VcpuSlot \<Rightarrow> trace_line list" where
  "trace_software_eret cfg s =
     (let elr = ctx_rd s bk_elr_el1; spsr = ctx_rd s bk_spsr_el1; mode = ucast spsr AND 0xf :: u32 in
      trace_illegal s False elr spsr @
      (if ohv_env cfg cfg_OHV_TRACE_ERET
       then (if mode = 4 \<or> mode = 5
             then [Line T_eret_el1 [slot_id s, elr, spsr, ctx_rd (software_eret s) ctl_hcr_el2]]
             else if mode = 8 \<or> mode = 9 then [Line T_eret_el2 [slot_id s, elr, spsr]] else [])
       else []))"

definition exit_software_eret_traced ::
  "world \<Rightarrow> u32 \<Rightarrow> ohv_statics \<Rightarrow> VcpuSlot \<Rightarrow> exit_result \<times> trace_line list" where
  "exit_software_eret_traced w reason st s =
     (if is_eret s \<and> guest_at_el2 s
      then (case eret_is_guarded w s of
              (g, _, s') \<Rightarrow>
                if \<not> g \<and> \<not> ohv_env (w_cfg w) cfg_OHV_NO_ERET_EMULATION
                then ((EXIT_KEEP_RUNNING, st, software_eret s'), trace_software_eret (w_cfg w) s')
                else (exit_exception_out w reason st s', []))
      else (exit_exception_out w reason st s, []))"

definition exit_eret_traced ::
  "world \<Rightarrow> u32 \<Rightarrow> ohv_statics \<Rightarrow> VcpuSlot \<Rightarrow> exit_result \<times> trace_line list" where
  "exit_eret_traced w reason st s =
     (if \<not> ohv_env (w_cfg w) cfg_OHV_NO_HW_GERET \<and> is_eret s
      then (case eret_is_guarded w s of
              (g, gspsr, s') \<Rightarrow>
                if g
                then ((EXIT_KEEP_RUNNING, st, guarded_eret gspsr s'),
                      trace_illegal s' True (ctx_rd s' ext_elr_gl1) gspsr @
                      (if ohv_env (w_cfg w) cfg_OHV_TRACE_ERET
                       then [Line T_guarded_eret [ctx_rd s' ext_elr_gl1, gspsr, slot_pc s']] else []))
                else exit_software_eret_traced w reason st s')
      else exit_software_eret_traced w reason st s)"

definition exit_sync_traced ::
  "world \<Rightarrow> u32 \<Rightarrow> ohv_statics \<Rightarrow> VcpuSlot \<Rightarrow> trace_statics \<Rightarrow> traced_result" where
  "exit_sync_traced w reason st s t =
     (if ohv_env (w_cfg w) cfg_OHV_SPIN_WFI \<and> exit_ec s = 1
      then ((EXIT_KEEP_RUNNING, st, next_insn s), [], t)
      else if exit_ec s = 0x16 \<and> \<not> guest_at_el2 s \<and> \<not> ohv_env (w_cfg w) cfg_OHV_NO_EL2_INJECTION
      then (let s' = enter_guest_el2 (exit_esr s) (slot_pc s + 4) s in
            ((EXIT_KEEP_RUNNING, st, s'),
             if ohv_env (w_cfg w) cfg_OHV_TRACE_ERET then [Line T_hvc [slot_id s', slot_pc s']] else [], t))
      else
        let (l1, t1, s1) = trace_gl1 w s t;
            (x, l2) = exit_eret_traced w reason st s1
        in (x, l1 @ trace_eret_seen (w_cfg w) s1 @ l2, t1))"

text \<open>The lines of \<open>service_nv2_access\<close>: of the access \<open>a\<close> that took the slot from \<open>s\<close> to \<open>s'\<close>, and \<open>ok\<close> is its answer.\<close>

definition tid2_value :: "sys_access \<Rightarrow> ohv_statics \<Rightarrow> VcpuSlot \<Rightarrow> u64" where
  "tid2_value a st' s =
     (let caps = (case tid2_caps st' of Some c \<Rightarrow> c | None \<Rightarrow> zero_caps); csselr = ctx_rd s sh_csselr_el1;
          level = bits_of csselr 1 7
      in if a_op1 a = 2 then (if a_read a then csselr else 0)
         else if a_op2 a = 1 then clidr_el1 caps
         else if csselr AND 1 \<noteq> 0 then ccsidr_el1_inst caps level else ccsidr_el1_data_or_unified caps level)"

definition key_value :: "'k \<Rightarrow> 'k assoc_array \<Rightarrow> u64" where
  "key_value k es = (case find_key k es of Some i \<Rightarrow> slot_val es i | None \<Rightarrow> 0)"

definition is_pac_reg :: "sys_access \<Rightarrow> bool" where
  "is_pac_reg a \<longleftrightarrow> a_op0 a = 3 \<and> a_op1 a = 4 \<and> a_crn a = 15
     \<and> ((a_crm a = 0 \<and> a_op2 a = 4) \<or> (a_crm a = 1 \<and> a_op2 a < 2))"

definition sys_insn_lines :: "OhvCfg \<Rightarrow> sys_access \<Rightarrow> VcpuSlot \<Rightarrow> trace_line list" where
  "sys_insn_lines cfg a s =
     (if ohv_env cfg cfg_OHV_TRACE_AT \<and> a_op0 a = 1 \<and> a_crn a = 7
      then [Line T_sys_insn [slot_id s, of_nat (a_op1 a), of_nat (a_crn a), of_nat (a_crm a), of_nat (a_op2 a),
              of_nat (a_rt a), slot_pc s]] else [])"

definition pac_lines :: "OhvCfg \<Rightarrow> sys_access \<Rightarrow> VcpuSlot \<Rightarrow> trace_line list" where
  "pac_lines cfg a s =
     (if ohv_env cfg cfg_OHV_TRACE_PAC \<and> is_pac_reg a
      then [Line T_pac [slot_id s, flag (a_read a), of_nat (a_crm a), of_nat (a_op2 a),
              if a_read a then 0 else src_reg (a_rt a) s, slot_pc s]] else [])"

definition nv2_lines :: "OhvCfg \<Rightarrow> sys_access \<Rightarrow> bool \<Rightarrow> ohv_statics \<Rightarrow> VcpuSlot \<Rightarrow> VcpuSlot \<Rightarrow> trace_line list" where
  "nv2_lines cfg a ok st' s s' =
     (let on = (\<lambda>v l. if ohv_env cfg v then [l] else []); rd = flag (a_read a) in
      (case nv2_block_of a of
         Handoff \<Rightarrow> on cfg_OHV_TRACE_ERET (Line T_handoff [ctx_rd s' ctl_hcr_el2])
       | Gxf \<Rightarrow> on cfg_OHV_TRACE_ERET (Line T_gxf [rd, of_nat (gxf_ext_index a),
                  ctx_rd s' (OHV_RW_EXTREGS + gxf_ext_index a * 8), slot_pc s])
       | Cache_id \<Rightarrow> if ok then on cfg_OHV_TRACE_TID2 (Line T_tid2 [rd, of_nat (a_op1 a), of_nat (a_op2 a),
                  ctx_rd s' sh_csselr_el1, tid2_value a st' s, slot_pc s]) else []
       | Timer \<Rightarrow> if \<not> a_read a \<and> a_crm a = 2 then on cfg_OHV_TRACE_TIMERREG
                  (Line T_cntp [of_nat (a_op2 a), src_reg (a_rt a) s, slot_pc s]) else []
       | Tmr_ena \<Rightarrow> if \<not> a_read a then on cfg_OHV_TRACE_TMRENA
                  (Line T_tmr_ena [vm_tmr_fiq_ena s, vm_tmr_fiq_ena s', slot_pc s]) else []
       | Ctrr \<Rightarrow> if ok then on cfg_OHV_TRACE_CTRR (Line T_ctrr [rd, of_nat (a_crm a), of_nat (a_op2 a),
                  ucast (ctrr_slot a), key_value (ctrr_slot a) (ctrr s'), slot_pc s]) else []
       | Impdef \<Rightarrow> if ok \<and> \<not> (a_op1 a = 4 \<and> a_crm a = 10 \<and> (a_op2 a = 5 \<or> a_op2 a = 6)) then on cfg_OHV_TRACE_IMPDEF
                  (Line T_impdef [rd, of_nat (a_op1 a), of_nat (a_crm a), of_nat (a_op2 a),
                     key_value (sys_enc a) (apple_shadow s'), slot_pc s]) else []
       | El2_reg \<Rightarrow> pac_lines cfg a s
       | _ \<Rightarrow> []) @ sys_insn_lines cfg a s)"

definition trace_unmatched :: "OhvCfg \<Rightarrow> sys_access \<Rightarrow> bool \<Rightarrow> VcpuSlot \<Rightarrow> tracing" where
  "trace_unmatched cfg a ok s t =
     (if \<not> ok \<and> nv2_block_of a = El2_reg \<and> ohv_env cfg cfg_OHV_TRACE_UNMATCHED \<and> unmatched_n t < 40
      then ([Line T_unmatched [flag (a_read a), of_nat (a_op0 a), of_nat (a_op1 a), of_nat (a_crn a), of_nat (a_crm a),
               of_nat (a_op2 a), of_nat (a_rt a), slot_pc s]],
            t\<lparr>unmatched_n := unmatched_n t + 1\<rparr>)
      else ([], t))"

definition exit_msr_traced ::
  "world \<Rightarrow> ohv_statics \<Rightarrow> VcpuSlot \<Rightarrow> trace_statics \<Rightarrow> traced_result" where
  "exit_msr_traced w st s t =
     (if exit_ec s = 0x18
      then (case service_nv2_access w (exit_esr s) st s of
              (ok, st', s') \<Rightarrow>
                let a = decode_esr (exit_esr s);
                    l1 = nv2_lines (w_cfg w) a ok st' s s';
                    (l2, t') = trace_unmatched (w_cfg w) a ok s t
                in if ok then ((EXIT_KEEP_RUNNING, st', s'), l1 @ l2, t')
                   else (case exit_sync_traced w OHV_VMEXIT_MSR_TRAP st' s' t' of
                           (x, l3, t3) \<Rightarrow> (x, l1 @ l2 @ l3, t3)))
      else exit_sync_traced w OHV_VMEXIT_MSR_TRAP st s t)"

definition trace_unclassified :: "OhvCfg \<Rightarrow> u32 \<Rightarrow> VcpuSlot \<Rightarrow> trace_line list" where
  "trace_unclassified cfg reason s =
     (if ohv_env cfg cfg_OHV_TRACE_EXIT
      then [Line T_unclassified [ucast reason, exit_esr s, ctx_rd s OHV_RO_EXIT_FAR,
              ctx_rd s OHV_RO_EXIT_HPFAR, slot_pc s]]
      else [])"

definition exit_classify_traced ::
  "world \<Rightarrow> u32 \<Rightarrow> ohv_statics \<Rightarrow> VcpuSlot \<Rightarrow> trace_statics \<Rightarrow> traced_result" where
  "exit_classify_traced w reason st s t =
     (if reason = 0 then ((EXIT_TO_VMM, st, set_exit_reason HV_EXIT_REASON_CANCELED s), [], t)
      else if reason = 2 \<or> reason = 7 \<or> reason = 11 \<or> reason = 12 then ((EXIT_KEEP_RUNNING, st, s), [], t)
      else if reason = 3 \<or> reason = 4 then (exit_physical st s, trace_physical (w_cfg w) reason s t)
      else if reason = OHV_VMEXIT_MSR_TRAP then exit_msr_traced w st s t
      else if reason = 1 then exit_sync_traced w reason st s t
      else if reason = 6 then (exit_exception_out w reason st s, [], t)
      else ((EXIT_TO_VMM, st, set_exit_reason HV_EXIT_REASON_UNKNOWN s),
            trace_unclassified (w_cfg w) reason s, t))"

text \<open>\<open>exit_from_ro\<close> with everything it prints.\<close>

definition exit_from_ro_traced ::
  "world \<Rightarrow> trace_clock \<Rightarrow> ohv_statics \<Rightarrow> VcpuSlot \<Rightarrow> trace_statics \<Rightarrow> traced_result" where
  "exit_from_ro_traced w k st s t =
     (let (l1, t1, s1) = exit_prepare_traced w k s t;
          st1 = note_kernel s1 st;
          (l2, t2) = trace_guest_state (w_cfg w) k st1 s1 t1;
          (x, l3, t3) = exit_classify_traced w (vmexit_reason s1) st1 (fill_exit s1) t2
      in (x, l1 @ l2 @ l3, t3))"

section \<open>Raised interrupts and refused registers\<close>

text \<open>\<open>hv_vcpu_set_pending_interrupt\<close>: what it prints before the level is set, and after.\<close>

definition was_slot :: "VcpuSlot \<Rightarrow> nat" where
  "was_slot s = (if unat (slot_id s) < 64 then unat (slot_id s) else 0)"

definition put_was :: "(nat \<Rightarrow> bool \<Rightarrow> bool) \<Rightarrow> nat \<Rightarrow> bool \<Rightarrow> bool \<Rightarrow> nat \<Rightarrow> bool \<Rightarrow> bool" where
  "put_was f n k b = f(n := (f n)(k := b))"

definition trace_kirq :: "OhvCfg \<Rightarrow> ohv_statics \<Rightarrow> u32 \<Rightarrow> bool \<Rightarrow> VcpuSlot \<Rightarrow> tracing" where
  "trace_kirq cfg st ty pending s t =
     (if \<not> ohv_env cfg cfg_OHV_TRACE_KIRQ then ([], t)
      else
        let slot = was_slot s; kind = (ty \<noteq> HV_INTERRUPT_TYPE_FIQ);
            show = (pending \<and> \<not> kirq_was t slot kind \<and> g_kernel_running st \<and> kirq_n t < 40);
            n = (if show then kirq_n t + 1 else kirq_n t)
        in ((if show then [Line T_kernel_irq [ucast n, slot_id s, flag kind, slot_pc s]] @
                          (if n = 40 then [Line T_kernel_irq_last []] else []) else []),
            t\<lparr>kirq_n := n, kirq_was := put_was (kirq_was t) slot kind pending\<rparr>))"

definition trace_irq_edge :: "OhvCfg \<Rightarrow> u32 \<Rightarrow> bool \<Rightarrow> VcpuSlot \<Rightarrow> tracing" where
  "trace_irq_edge cfg ty pending s t =
     (let slot = was_slot s; kind = (ty \<noteq> HV_INTERRUPT_TYPE_FIQ) in
      if ohv_env cfg cfg_OHV_TRACE_IRQ \<and> irq_was t slot kind \<noteq> pending
      then ([Line T_irq_edge [slot_id s, flag kind, flag pending, slot_pc s, ctx_rd s ctl_hcr_el2]],
            t\<lparr>irq_was := put_was (irq_was t) slot kind pending\<rparr>)
      else ([], t))"

definition set_pending_traced ::
  "OhvCfg \<Rightarrow> ohv_statics \<Rightarrow> u32 \<Rightarrow> bool \<Rightarrow> VcpuSlot \<Rightarrow> trace_statics
     \<Rightarrow> VcpuSlot \<times> trace_line list \<times> trace_statics" where
  "set_pending_traced cfg st ty pending s t =
     (let s' = set_pending cfg ty pending s
      in (s', then_say (trace_kirq cfg st ty pending s) (trace_irq_edge cfg ty pending s') t))"

text \<open>\<open>trace_sysreg_refusal\<close>: the operation's name is the flag \<open>write\<close>.\<close>

definition trace_sysreg_refusal :: "OhvCfg \<Rightarrow> bool \<Rightarrow> u16 \<Rightarrow> u64 \<Rightarrow> hv_return \<Rightarrow> trace_line list" where
  "trace_sysreg_refusal cfg write enc v r =
     (if r = HV_SUCCESS \<or> \<not> ohv_env cfg cfg_OHV_TRACE_SYSREG then []
      else [Line T_sysreg_refused [flag write, ucast enc, ucast (drop_bit 14 enc AND 3), ucast (drop_bit 11 enc AND 7),
              ucast (drop_bit 7 enc AND 0xf), ucast (drop_bit 3 enc AND 0xf), ucast (enc AND 7), v, ucast r]])"

text \<open>The end of \<open>sysreg_access\<close>, for the register \<open>d\<close> kept at \<open>off\<close>; \<open>s\<close> is the slot there and \<open>v\<close> the value.\<close>

definition trace_one :: "OhvCfg \<Rightarrow> bool \<Rightarrow> u16 \<Rightarrow> SysRegDesc \<Rightarrow> nat \<Rightarrow> u64 \<Rightarrow> VcpuSlot \<Rightarrow> trace_line list" where
  "trace_one cfg write enc d off v s =
     (case cfg cfg_OHV_TRACE_ONE of
        None \<Rightarrow> []
      | Some x \<Rightarrow>
          if (ucast enc :: u32) = ucast (strtoull x)
          then [Line T_sysreg_one [flag write, ucast enc, of_nat (kind d), of_nat (reg_index d), of_nat off, v,
                  ctx_rd s OHV_RO_STATE_VALID, run_count s]]
          else [])"

section \<open>Levels, bands and runs\<close>

text \<open>A raised line whose level is withheld: \<open>ohv_set_irq_level\<close> and \<open>ohv_set_fiq_level\<close>.\<close>

definition held_args :: "VcpuSlot \<Rightarrow> u64 list" where
  "held_args s = [slot_id s, flag (in_wfx s), flag (ohv_guest_in_monitor s), slot_pc s, ucast (slot_cpsr s),
     ucast (last_reason s), last_esr s]"

definition trace_irq_gate :: "OhvCfg \<Rightarrow> VcpuSlot \<Rightarrow> trace_line list" where
  "trace_irq_gate cfg s =
     (if vmm_irq s \<and> \<not> want_irq cfg s \<and> ohv_env cfg cfg_OHV_TRACE_GATE then [Line T_irq_held (held_args s)] else [])"

definition trace_fiq_gate :: "OhvCfg \<Rightarrow> VcpuSlot \<Rightarrow> trace_line list" where
  "trace_fiq_gate cfg s =
     (if vmm_fiq s \<and> \<not> want_vmm_fiq cfg s \<and> ohv_env cfg cfg_OHV_TRACE_GATE then [Line T_fiq_held (held_args s)] else [])"

text \<open>The edge of the virtual FIQ, at the host's time \<open>now\<close>; \<open>s\<close> is the slot as \<open>ohv_set_fiq_level\<close> is given it.\<close>

definition trace_vf :: "OhvCfg \<Rightarrow> ohv_statics \<Rightarrow> u64 \<Rightarrow> VcpuSlot \<Rightarrow> trace_line list" where
  "trace_vf cfg st now s0 =
     (let s = s0\<lparr>timer_fiq := (ohv_timer_fiq_wanted cfg s0 \<and> \<not> ohv_timer_as_irq cfg s0)\<rparr>;
          up = (want_vmm_fiq cfg s \<or> timer_fiq s)
      in if bit (ctx_rd s ctl_hcr_el2) 6 \<noteq> up \<and> ohv_env cfg cfg_OHV_TRACE_VF
            \<and> (\<not> ohv_env cfg cfg_OHV_TRACE_VF_K \<or> g_kernel_running st)
         then [Line T_vf [flag up, slot_pc s, sptm_base s, ucast (slot_cpsr s), flag (vmm_fiq s), flag (timer_fiq s),
                 flag (guest_at_el2 s), flag (nv_off_for_geret s), el2_shadow s OHV_SHADOW_CNTP_CTL,
                 ctx_rd s bk_cntp_cval_el0, now]]
         else [])"

definition trace_band :: "OhvCfg \<Rightarrow> ohv_statics \<Rightarrow> VcpuSlot \<Rightarrow> trace_line list" where
  "trace_band cfg st s =
     (let base = (if sptm_base s = 0 then g_monitor_band st else sptm_base s); pc = slot_pc s; band = image_band pc in
      if \<not> pc < 0xfffffff000000000 \<and> (base = 0 \<or> band < base) \<and> ohv_env cfg cfg_OHV_TRACE_BAND
      then [Line T_band [slot_id s, band, pc]] else [])"

text \<open>\<open>hv_vcpu_run\<close>, after the run trap answered \<open>r\<close>: the setting also counts the faults in the slot.\<close>

definition trace_first_run :: "OhvCfg \<Rightarrow> hv_return \<Rightarrow> VcpuSlot \<Rightarrow> trace_line list \<times> VcpuSlot" where
  "trace_first_run cfg r s =
     (if ohv_env cfg cfg_OHV_TRACE_FIRSTRUN \<and> (vmexit_reason s = 5 \<or> vmexit_reason s = 6)
      then (if kernel_exits s < 60
            then [Line T_first_run [slot_id s, run_count s, ucast r, slot_pc s, ucast (vmexit_reason s), exit_esr s,
                    ctx_rd s OHV_RO_EXIT_FAR, ctx_rd s bk_ttbr1_el1, ctx_rd s bk_tcr_el1, ctx_rd s bk_sctlr_el1]]
            else [],
            s\<lparr>kernel_exits := kernel_exits s + 1\<rparr>)
      else ([], s))"

definition trace_cancel_after_run :: "OhvCfg \<Rightarrow> VcpuSlot \<Rightarrow> trace_line list" where
  "trace_cancel_after_run cfg s =
     (if exit_requested s \<and> ohv_env cfg cfg_OHV_TRACE_KICK then [Line T_cancel_after_run [slot_id s, slot_pc s]] else [])"

definition trace_cancel_honoured :: "OhvCfg \<Rightarrow> VcpuSlot \<Rightarrow> trace_line list" where
  "trace_cancel_honoured cfg s =
     (if exit_requested s \<and> ohv_env cfg cfg_OHV_TRACE_KICK
      then [Line T_cancel_honoured [slot_id s, slot_pc s, ctx_rd s ctl_hcr_el2]] else [])"

text \<open>The gate's lines say the truth: a line the VMM raised is reported held exactly when its level is down
  afterwards (for the FIQ, when not even the timer holds it up).\<close>

lemma held_lines_tell:
  assumes "ohv_env cfg cfg_OHV_TRACE_GATE"
  shows "trace_irq_gate cfg s \<noteq> [] \<longleftrightarrow> vmm_irq s \<and> \<not> bit (ctx_rd (ohv_set_irq_level cfg s) ctl_hcr_el2) 7"
    and "vmm_fiq s \<and> \<not> bit (ctx_rd (ohv_set_fiq_level cfg s) ctl_hcr_el2) 6 \<longleftrightarrow>
      trace_fiq_gate cfg s \<noteq> [] \<and> \<not> (ohv_timer_fiq_wanted cfg s \<and> \<not> ohv_timer_as_irq cfg s)"
  using assms by (auto simp: trace_irq_gate_def trace_fiq_gate_def set_irq_level_bits set_fiq_level_bits want_fiq_def)

text \<open>The trace of the virtual FIQ has a line for an edge and for nothing else, and names its direction.\<close>

lemma vf_lines_are_edges:
  assumes "ohv_env cfg cfg_OHV_TRACE_VF" "\<not> ohv_env cfg cfg_OHV_TRACE_VF_K"
  defines "up \<equiv> \<lambda>q. bit (ctx_rd q ctl_hcr_el2) 6"
  shows "trace_vf cfg st now s \<noteq> [] \<longleftrightarrow> up (ohv_set_fiq_level cfg s) \<noteq> up s"
    and "trace_vf cfg st now s = Line T_vf (d # as) # ls \<Longrightarrow> d = flag (up (ohv_set_fiq_level cfg s))"
proof -
  have w: "want_vmm_fiq cfg (s\<lparr>timer_fiq := x\<rparr>) = want_vmm_fiq cfg s" for x
    by (rule gate_view_want) simp
  have c: "ctx_rd (s\<lparr>timer_fiq := x\<rparr>) off = ctx_rd s off" for x off by (simp add: ctx_rd_def)
  show "trace_vf cfg st now s \<noteq> [] \<longleftrightarrow> up (ohv_set_fiq_level cfg s) \<noteq> up s"
    using assms(1,2) by (auto simp: trace_vf_def Let_def up_def set_fiq_level_bits want_fiq_def w c)
  show "trace_vf cfg st now s = Line T_vf (d # as) # ls \<Longrightarrow> d = flag (up (ohv_set_fiq_level cfg s))"
    by (auto simp: trace_vf_def Let_def up_def set_fiq_level_bits want_fiq_def w c split: if_splits)
qed

text \<open>The band is reported exactly when the vCPU's changes to the one of the program counter.\<close>

lemma band_lines:
  assumes "ohv_env cfg cfg_OHV_TRACE_BAND" "ohv_note_image_band st s = (st', s')"
  shows "trace_band cfg st s \<noteq> [] \<Longrightarrow> trace_band cfg st s = [Line T_band [slot_id s, sptm_base s', slot_pc s]]"
    and "trace_band cfg st s = [] \<Longrightarrow> st' = st"
  using assms by (auto simp: trace_band_def ohv_note_image_band_def Let_def split: if_splits)

text \<open>Of a vCPU at most sixty faults are shown, until its counter wraps.\<close>

fun first_runs :: "OhvCfg \<Rightarrow> (hv_return \<times> mem) list \<Rightarrow> VcpuSlot \<Rightarrow> trace_line list \<times> VcpuSlot" where
  "first_runs cfg [] s = ([], s)"
| "first_runs cfg ((r, m) # rs) s =
     (case trace_first_run cfg r (s\<lparr>ctx := m\<rparr>) of (ls, s1) \<Rightarrow>
        case first_runs cfg rs s1 of (ls', s2) \<Rightarrow> (ls @ ls', s2))"

lemma first_runs_shown:
  "unat (kernel_exits s) + length rs < 2 ^ 32 \<Longrightarrow>
     length (fst (first_runs cfg rs s)) \<le> 60 - unat (kernel_exits s)"
proof (induction cfg rs s rule: first_runs.induct)
  case (1 cfg s)
  then show ?case by simp
next
  case (2 cfg r m rs s)
  obtain ls s1 where f: "trace_first_run cfg r (s\<lparr>ctx := m\<rparr>) = (ls, s1)" by force
  obtain ls' s2 where g: "first_runs cfg rs s1 = (ls', s2)" by force
  have "unat (kernel_exits s + 1) = unat (kernel_exits s) + 1" using 2(2) by (simp add: unat_word_ariths)
  then have "ls = [] \<and> kernel_exits s1 = kernel_exits s
      \<or> unat (kernel_exits s1) = unat (kernel_exits s) + 1 \<and> (ls = [] \<or> length ls = 1 \<and> unat (kernel_exits s) < 60)"
    using f by (auto simp: trace_first_run_def word_less_nat_alt split: if_splits)
  moreover have "unat (kernel_exits s1) + length rs < 2 ^ 32" using calculation 2(2) by auto
  then have "length ls' \<le> 60 - unat (kernel_exits s1)" using 2(1) f g by simp
  ultimately show ?case by (auto simp: f g)
qed

section \<open>Printing never changes an exit\<close>

text \<open>The settings that synchronize are off, or a synchronization finds the pages up to date.\<close>

definition only_prints :: "world \<Rightarrow> bool" where
  "only_prints w \<longleftrightarrow>
     \<not> ohv_env (w_cfg w) cfg_OHV_TRACE_GLVL \<and> \<not> ohv_env (w_cfg w) cfg_OHV_TRACE_GL1
     \<or> (\<forall>m. snd (w_sync w m) = m)"

lemma only_prints_slot:
  assumes "only_prints w"
  shows "snd (snd (trace_glvl w s t)) = s" "snd (snd (trace_gl1 w s t)) = s"
proof -
  have "snd (sync_ctx w s) = s" if "\<forall>m. snd (w_sync w m) = m"
  proof -
    obtain r m where "w_sync w (ctx s) = (r, m)" by force
    moreover from this that have "m = ctx s" by (metis snd_conv)
    ultimately show ?thesis by (simp add: sync_ctx_def)
  qed
  with assms show "snd (snd (trace_glvl w s t)) = s" "snd (snd (trace_gl1 w s t)) = s"
    by (auto simp: only_prints_def trace_glvl_def trace_gl1_def Let_def)
qed

lemma prepare_traced_slot:
  assumes "only_prints w"
  shows "snd (snd (exit_prepare_traced w k s t)) = exit_prepare w s"
proof -
  let ?c = "w_cfg w"
  obtain l1 t1 where a: "then_say (trace_hcr ?c s) (then_say (trace_all ?c k s) (trace_nv_restored ?c s)) t = (l1, t1)"
    by (metis surj_pair)
  obtain l2 t2 s2 where b: "trace_glvl w (exit_nv_restore s) t1 = (l2, t2, s2)" by (rule prod_cases3)
  then have "s2 = exit_nv_restore s" using only_prints_slot(1) [OF assms, of "exit_nv_restore s" t1] by simp
  then show ?thesis by (simp add: exit_prepare_traced_def exit_prepare_def a b Let_def split: prod.split)
qed

lemma software_eret_traced_result [simp]:
  "fst (exit_software_eret_traced w reason st s) = exit_software_eret w reason st s"
  by (simp add: exit_software_eret_traced_def exit_software_eret_def split: prod.split)

lemma eret_traced_result [simp]: "fst (exit_eret_traced w reason st s) = exit_eret w reason st s"
  by (simp add: exit_eret_traced_def exit_eret_def split: prod.split)

lemma sync_traced_result:
  assumes "only_prints w"
  shows "fst (exit_sync_traced w reason st s t) = exit_sync w reason st s"
proof -
  obtain l1 t1 s1 where g: "trace_gl1 w s t = (l1, t1, s1)" by (rule prod_cases3)
  then have "s1 = s" using only_prints_slot(2) [OF assms, of s t] by simp
  moreover obtain x l2 where "exit_eret_traced w reason st s1 = (x, l2)" by (metis surj_pair)
  ultimately show ?thesis using g eret_traced_result [of w reason st s]
    by (simp add: exit_sync_traced_def exit_sync_def Let_def)
qed

lemma msr_traced_result:
  assumes "only_prints w"
  shows "fst (exit_msr_traced w st s t) = exit_msr w st s"
proof -
  obtain ok st' s' where n: "service_nv2_access w (exit_esr s) st s = (ok, st', s')" by (rule prod_cases3)
  obtain l2 u where u: "trace_unmatched (w_cfg w) (decode_esr (exit_esr s)) ok s t = (l2, u)" by force
  show ?thesis using sync_traced_result [OF assms]
    by (simp add: exit_msr_traced_def exit_msr_def n u Let_def split: prod.split) (metis fst_conv)
qed

lemma classify_traced_result:
  "only_prints w \<Longrightarrow> fst (exit_classify_traced w reason st s t) = exit_classify w reason st s"
  by (simp add: exit_classify_traced_def exit_classify_def msr_traced_result sync_traced_result)

text \<open>C29: Tracing is an observer: with any of the settings that print, and whatever has been printed before,
  an exit comes to the same decision, the same statics and the same slot as without them -- as long as the two settings that
  synchronize the shared pages are off, or a synchronization changes nothing.\<close>

theorem tracing_is_transparent:
  assumes "only_prints w"
  shows "fst (exit_from_ro_traced w k st s t) = exit_from_ro w st s"
proof -
  obtain l1 t1 s1 where p: "exit_prepare_traced w k s t = (l1, t1, s1)" by (rule prod_cases3)
  then have s1: "s1 = exit_prepare w s" using prepare_traced_slot [OF assms, of k s t] by simp
  obtain l2 t2 where g: "trace_guest_state (w_cfg w) k (note_kernel s1 st) s1 t1 = (l2, t2)" by force
  obtain x l3 t3 where c: "exit_classify_traced w (vmexit_reason s1) (note_kernel s1 st) (fill_exit s1) t2
      = (x, l3, t3)" by (rule prod_cases3)
  then have "x = exit_classify w (vmexit_reason s1) (note_kernel s1 st) (fill_exit s1)"
    using classify_traced_result [OF assms] by (metis fst_conv)
  then have "fst (exit_from_ro_traced w k st s t) = exit_classify w (vmexit_reason s1) (note_kernel s1 st) (fill_exit s1)"
    by (simp add: exit_from_ro_traced_def p g c Let_def)
  then show ?thesis by (simp add: exit_from_ro_def Let_def s1)
qed

section \<open>Illegal returns\<close>

text \<open>The modes the hardware can return to from its EL1: EL0t, EL1t and EL1h, all of AArch64.\<close>

definition hw_mode_ok :: "u32 \<Rightarrow> bool" where
  "hw_mode_ok c \<longleftrightarrow> c AND 0x1f \<in> {0, 4, 5}"

definition is_illegal_line :: "trace_line \<Rightarrow> bool" where
  "is_illegal_line l = (case l of Illegal_eret _ _ _ _ _ _ \<Rightarrow> True | _ \<Rightarrow> False)"


lemma low_masks: "(0x1f :: 'a::len word) = mask 5" "(0xf :: 'a::len word) = mask 4"
  by (simp_all add: mask_eq_exp_minus_1)

text \<open>The low five bits of a saved PSTATE decide everything.\<close>

lemma pstate_low:
  fixes spsr :: u64
  defines "m \<equiv> ucast spsr AND 0x1f :: u32"
  shows "spsr AND 0x10 = 0 \<longleftrightarrow> m AND 0x10 = 0" "bits_of spsr 0 0xf = unat (m AND 0xf)"
    "(ucast spsr AND 0xf :: u32) = m AND 0xf"
    "(ucast (spsr AND ucast (NOT 0xf :: u32)) OR x) AND 0x1f = (m AND 0x10) OR (x AND 0x1f)"
    "\<exists>n<32. m = of_nat n"
proof -
  have f: "bit (0x10 :: u32) n \<longleftrightarrow> n = 4" for n
    using bit_of_mask [of 4 n, where 'a = 32] by simp
  have "bit spsr 4 \<longleftrightarrow> bit m 4" by (simp add: m_def bit_and_iff bit_unsigned_iff)
  then show "spsr AND 0x10 = 0 \<longleftrightarrow> m AND 0x10 = 0"
    using and_bit_mask_eq_0 [of spsr 4] and_bit_mask_eq_0 [of m 4] by simp
  have l: "(ucast (spsr AND 0xf) :: u32) = m AND 0xf"
    unfolding m_def low_masks by (rule bit_word_eqI) (auto simp: bit_simps)
  have "unat (ucast (spsr AND 0xf) :: u32) = unat (spsr AND 0xf)"
  proof -
    have "spsr AND mask 4 < 2 ^ 4" by (rule and_mask_less') simp
    then have "unat (spsr AND 0xf) < 16" unfolding low_masks by (simp add: word_less_nat_alt)
    then show ?thesis by (simp add: unsigned_ucast_eq take_bit_nat_eq_self)
  qed
  then show "bits_of spsr 0 0xf = unat (m AND 0xf)" by (simp add: bits_of_def l)
  show "(ucast spsr AND 0xf :: u32) = m AND 0xf"
    unfolding m_def low_masks by (rule bit_word_eqI) (auto simp: bit_simps)
  show "(ucast (spsr AND ucast (NOT 0xf :: u32)) OR x) AND 0x1f = (m AND 0x10) OR (x AND 0x1f)"
    unfolding m_def low_masks by (rule bit_word_eqI) (auto simp: bit_simps f simp del: bit_numeral_word_iff)
  have "m = of_nat (unat m)" by simp
  moreover have "unat m < 32"
  proof -
    have "ucast spsr AND mask 5 < (2 ^ 5 :: u32)" by (rule and_mask_less') simp
    then show ?thesis unfolding m_def low_masks by (simp add: word_less_nat_alt)
  qed
  ultimately show "\<exists>n<32. m = of_nat n" by blast
qed

lemma mode_range: "n < (32 :: nat) \<Longrightarrow> n \<in> set [0..<32]" by simp

lemma legal_modes:
  "spsr_illegal_reason spsr = None \<longleftrightarrow> ucast spsr AND 0x1f \<in> {0, 4, 5, 8, 9 :: u32}"
proof -
  define m where "m = (ucast spsr AND 0x1f :: u32)"
  note p = pstate_low [of spsr, folded m_def]
  obtain n where n: "n < 32" "m = of_nat n" using p(5) by blast
  have "(m AND 0x10 = 0 \<and> unat (m AND 0xf) \<in> {0, 4, 5, 8, 9}) = (m \<in> {0, 4, 5, 8, 9})"
    using mode_range [OF n(1)] unfolding n(2) by (simp add: upt_rec) (elim disjE; simp)
  then show ?thesis unfolding spsr_illegal_reason_def Let_def p(1,2) m_def [symmetric] by auto
qed

lemma software_eret_mode:
  "hw_mode_ok (slot_cpsr (software_eret s)) \<longleftrightarrow> spsr_illegal_reason (ctx_rd s bk_spsr_el1) = None"
proof -
  define spsr where "spsr = ctx_rd s bk_spsr_el1"
  define m where "m = (ucast spsr AND 0x1f :: u32)"
  define mode where "mode = (ucast spsr AND 0xf :: u32)"
  note p = pstate_low [of spsr, folded m_def]
  have c: "slot_cpsr (software_eret s) =
      (if mode = 8 \<or> mode = 9 then ucast (spsr AND ucast (NOT 0xf :: u32)) OR (mode - 4) else ucast spsr)"
    by (auto simp: software_eret_def Let_def spsr_def mode_def)
  have "slot_cpsr (software_eret s) AND 0x1f =
      (if mode = 8 \<or> mode = 9 then (m AND 0x10) OR ((mode - 4) AND 0x1f) else m)"
    unfolding c using p(4) [of "mode - 4"] by (simp add: m_def)
  moreover obtain n where n: "n < 32" "m = of_nat n" using p(5) by blast
  have "((if mode = 8 \<or> mode = 9 then (m AND 0x10) OR ((mode - 4) AND 0x1f) else m) \<in> {0, 4, 5})
      = (m \<in> {0, 4, 5, 8, 9})"
    using mode_range [OF n(1)] unfolding mode_def p(3) n(2) by (simp add: upt_rec) (elim disjE; simp)
  ultimately show ?thesis unfolding hw_mode_ok_def legal_modes spsr_def [symmetric] m_def [symmetric] by simp
qed


lemma no_illegal_line [simp]:
  "filter is_illegal_line (trace_software_eret cfg s) = trace_illegal s False (ctx_rd s bk_elr_el1) (ctx_rd s bk_spsr_el1)"
  by (auto simp: trace_software_eret_def trace_illegal_def is_illegal_line_def Let_def split: option.split)

lemma software_traced_cases:
  assumes "exit_software_eret_traced w reason st s = ((a, st', s'), ls)"
  obtains (returned) q where "a = EXIT_KEEP_RUNNING" "s' = software_eret q" "ls = trace_software_eret (w_cfg w) q"
    | (told) "a = EXIT_TO_VMM" "ls = []"
proof (cases "is_eret s \<and> guest_at_el2 s")
  case True
  obtain g x q where q: "eret_is_guarded w s = (g, x, q)" by (rule prod_cases3)
  show ?thesis
  proof (cases "\<not> g \<and> \<not> ohv_env (w_cfg w) cfg_OHV_NO_ERET_EMULATION")
    case g: True
    with assms True have "a = EXIT_KEEP_RUNNING" "s' = software_eret q" "ls = trace_software_eret (w_cfg w) q"
      by (auto simp: exit_software_eret_traced_def q)
    then show ?thesis by (rule returned)
  next
    case False
    with assms True have "exit_exception_out w reason st q = (a, st', s')" "ls = []"
      by (auto simp: exit_software_eret_traced_def q split: if_splits)
    then show ?thesis using exit_exception_reason told by blast
  qed
next
  case False
  with assms have "exit_exception_out w reason st s = (a, st', s')" "ls = []"
    by (auto simp: exit_software_eret_traced_def split: if_splits)
  then show ?thesis using exit_exception_reason told by blast
qed

lemma software_illegal_line:
  assumes "exit_software_eret_traced w reason st s = ((a, st', s'), ls)"
  shows "(filter is_illegal_line ls \<noteq> [] \<longleftrightarrow> a = EXIT_KEEP_RUNNING \<and> \<not> hw_mode_ok (slot_cpsr s'))
    \<and> length (filter is_illegal_line ls) \<le> 1"
  using assms
proof (cases rule: software_traced_cases)
  case (returned q)
  then show ?thesis
    by (simp add: software_eret_mode trace_illegal_def report_illegal_eret_def Let_def split: option.split)
qed simp

text \<open>C13: A trapped exception return is reported as illegal when, and only when, it is completed in software into a
  mode the hardware refuses at its EL1 -- anything but AArch64 EL0t, EL1t and EL1h, which is what a return to EL2 has been
  rewritten to -- and then once.  A guarded return is never reported: the test that lets the hardware do it has already
  excluded all the report looks for.\<close>

theorem illegal_returns_reported:
  assumes "is_eret s" and "exit_eret_traced w 1 st s = ((a, st', s'), ls)"
  defines "guarded \<equiv> \<not> ohv_env (w_cfg w) cfg_OHV_NO_HW_GERET
             \<and> spsr_guarded (ctx_rd (snd (sync_ctx w s)) ext_spsr_gl1)"
  shows "(guarded \<longrightarrow> a = EXIT_KEEP_RUNNING \<and> filter is_illegal_line ls = [])
    \<and> (\<not> guarded \<longrightarrow> (filter is_illegal_line ls \<noteq> [] \<longleftrightarrow>
          a = EXIT_KEEP_RUNNING \<and> \<not> hw_mode_ok (slot_cpsr s')))
    \<and> length (filter is_illegal_line ls) \<le> 1"
proof -
  define s1 where "s1 = snd (sync_ctx w s)"
  have e: "eret_is_guarded w s = (spsr_guarded (ctx_rd s1 ext_spsr_gl1), ctx_rd s1 ext_spsr_gl1, s1)"
    by (simp add: eret_is_guarded_def s1_def Let_def)
  show ?thesis
  proof (cases guarded)
    case True
    then have "a = EXIT_KEEP_RUNNING \<and> filter is_illegal_line ls = []"
      using assms(1,2) guarded_is_legal
      by (auto simp: guarded_def exit_eret_traced_def e s1_def [symmetric] trace_illegal_def is_illegal_line_def
          split: if_splits)
    with True show ?thesis by simp
  next
    case False
    then obtain q where "exit_software_eret_traced w 1 st q = ((a, st', s'), ls)"
      using assms(1,2) by (auto simp: guarded_def exit_eret_traced_def e s1_def [symmetric] split: if_splits)
    from software_illegal_line [OF this] False show ?thesis by simp
  qed
qed


section \<open>What holds of every block holds of every exit\<close>

text \<open>The lines no counter and no memory stands behind.\<close>

definition plain_line :: "trace_line \<Rightarrow> bool" where
  "plain_line l \<longleftrightarrow> (case l of Illegal_eret _ _ _ _ _ _ \<Rightarrow> True
     | Line g _ \<Rightarrow> g \<in> {T_nv_restored, T_rearmed, T_vint, T_platform_error, T_hvc, T_gl1_ext, T_eret_seen,
                    T_handoff, T_gxf, T_tid2, T_cntp, T_sys_insn, T_tmr_ena, T_ctrr, T_impdef, T_pac, T_guarded_eret, T_eret_el1, T_eret_el2, T_unclassified})"

text \<open>
  A law of tracing relates the statics before, the lines and the statics after, and the history
  (a list) a block adds to; it composes.  Its assumptions are one per block that keeps statics.
\<close>

locale trace_law =
  fixes P :: "'a list \<Rightarrow> trace_statics \<Rightarrow> trace_line list \<Rightarrow> trace_statics \<Rightarrow> bool"
    and seen :: "OhvCfg \<Rightarrow> VcpuSlot \<Rightarrow> 'a list"
  assumes idle: "P [] t [] t"
    and seq: "P xs t ls t1 \<Longrightarrow> P ys t1 ls' t2 \<Longrightarrow> P (xs @ ys) t (ls @ ls') t2"
    and plain: "plain_line l \<Longrightarrow> P [] t [l] t"
    and hcr: "trace_hcr c s t = (ls, t1) \<Longrightarrow> P [] t ls t1"
    and all: "trace_all c k s t = (ls, t1) \<Longrightarrow> P [] t ls t1"
    and glvl: "trace_glvl w s t = (ls, t1, s1) \<Longrightarrow> P [] t ls t1"
    and mirrored: "trace_mirrored w s t = (ls, t1) \<Longrightarrow> P [] t ls t1"
    and gxfstate: "trace_gxfstate c s t = (ls, t1) \<Longrightarrow> P [] t ls t1"
    and kfault: "trace_kfault c s t = (ls, t1) \<Longrightarrow> P (seen c s) t ls t1"
    and ktimer: "trace_ktimer c k st s t = (ls, t1) \<Longrightarrow> P [] t ls t1"
    and fault: "trace_fault c s t = (ls, t1) \<Longrightarrow> P [] t ls t1"
    and physical: "trace_physical c reason s t = (ls, t1) \<Longrightarrow> P [] t ls t1"
    and unmatched: "trace_unmatched c a ok s t = (ls, t1) \<Longrightarrow> P [] t ls t1"
    and gl1_dump: "gl1_n t < 4 \<Longrightarrow> P [] t [Line T_gl1_dump xs'] (t\<lparr>gl1_n := gl1_n t + 1\<rparr>)"
begin

lemma plain_lines: "list_all plain_line ls \<Longrightarrow> P [] t ls t"
proof (induction ls)
  case Nil
  then show ?case by (simp add: idle)
next
  case (Cons l ls)
  then show ?case using seq [OF plain [of l t], of "[]" ls t] by simp
qed

lemma said: "plain_line l \<Longrightarrow> say c l t = (ls, t1) \<Longrightarrow> P [] t ls t1"
  using plain_lines [of ls t] by (auto simp: say_def split: if_splits)

lemma both:
  assumes "then_say p q t = (ls, t1)" "\<And>t ls t1. p t = (ls, t1) \<Longrightarrow> P xs t ls t1"
    "\<And>t ls t1. q t = (ls, t1) \<Longrightarrow> P ys t ls t1"
  shows "P (xs @ ys) t ls t1"
  using assms(1) by (auto simp: then_say_def split: prod.splits intro: seq [OF assms(2) assms(3)])

lemmas both_quiet = both [where xs = "[]" and ys = "[]", simplified]

lemma traced_guest_state:
  assumes "trace_guest_state c k st s t = (ls, t1)"
  shows "P (seen c s) t ls t1"
proof -
  have v: "trace_vint c s u = (us, u1) \<Longrightarrow> P [] u us u1" "trace_platform c s u = (us, u1) \<Longrightarrow> P [] u us u1" for u us u1
    by (rule said, simp_all add: trace_vint_def trace_platform_def Let_def plain_line_def)+
  note f = both_quiet [OF _ v(2) fault]
  note n = both_quiet [OF _ ktimer f]
  from both [OF assms [unfolded trace_guest_state_def] kfault both_quiet [OF _ v(1) n]]
  show ?thesis by simp
qed

lemma traced_prepare:
  assumes "exit_prepare_traced w k s t = (ls, t1, s1)"
  shows "P [] t ls t1"
proof -
  let ?c = "w_cfg w"
  have r: "trace_nv_restored ?c q u = (us, u1) \<Longrightarrow> P [] u us u1" "trace_rearmed ?c q u = (us, u1) \<Longrightarrow> P [] u us u1"
    for q u us u1
    by (rule said, simp_all add: trace_nv_restored_def trace_rearmed_def plain_line_def)+
  obtain l1 u1 where a: "then_say (trace_hcr ?c s) (then_say (trace_all ?c k s) (trace_nv_restored ?c s)) t = (l1, u1)"
    by (metis surj_pair)
  obtain l2 u2 s2 where b: "trace_glvl w (exit_nv_restore s) u1 = (l2, u2, s2)" by (rule prod_cases3)
  let ?q = "exit_mirror_gl1 w s2"
  obtain l3 u3 where c: "then_say (trace_mirrored w s2) (then_say (trace_gxfstate ?c ?q) (trace_rearmed ?c ?q)) u2 = (l3, u3)"
    by (metis surj_pair)
  have "ls = l1 @ l2 @ l3" "t1 = u3" using assms by (simp_all add: exit_prepare_traced_def a b c Let_def)
  moreover have "P [] t l1 u1" using a hcr both_quiet [OF _ all r(1)] by (rule both_quiet)
  moreover have "P [] u2 l3 u3" using c mirrored both_quiet [OF _ gxfstate r(2)] by (rule both_quiet)
  ultimately show ?thesis using seq [OF _ seq [OF glvl [OF b]]] by fastforce
qed

lemma traced_gl1:
  assumes "trace_gl1 w s t = (ls, t1, s1)"
  shows "P [] t ls t1"
proof (cases "t1 = t \<and> ls = []")
  case True
  then show ?thesis by (simp add: idle)
next
  case False
  let ?s = "snd (sync_ctx w s)"
  have g: "gl1_n t < 4" "ls = [Line T_gl1_dump [slot_pc ?s]] @ gl1_words ?s" "t1 = t\<lparr>gl1_n := gl1_n t + 1\<rparr>"
    using False assms by (auto simp: trace_gl1_def Let_def split: if_splits)
  have "list_all plain_line (gl1_words ?s)"
    by (auto simp: gl1_words_def list_all_iff plain_line_def Let_def)
  from seq [OF gl1_dump [OF g(1)] plain_lines [OF this]] show ?thesis by (simp add: g(2,3))
qed

lemma traced_eret:
  assumes "exit_eret_traced w reason st s = (x, ls)"
  shows "list_all plain_line ls"
proof -
  have i: "list_all plain_line (trace_illegal q b e p)" for q b e p
    by (simp add: trace_illegal_def plain_line_def split: option.split)
  have s: "list_all plain_line ms" if "exit_software_eret_traced w reason st q = (y, ms)" for q y ms
  proof -
    obtain a st' s' where "y = (a, st', s')" by (rule prod_cases3)
    with that have "exit_software_eret_traced w reason st q = ((a, st', s'), ms)" by simp
    then show ?thesis
      by (cases rule: software_traced_cases)
        (simp_all add: trace_software_eret_def i Let_def, simp_all add: plain_line_def)
  qed
  show ?thesis using assms s
    by (auto simp: exit_eret_traced_def i plain_line_def split: if_splits prod.splits)
qed

lemma traced_sync:
  assumes "exit_sync_traced w reason st s t = (x, ls, t1)"
  shows "P [] t ls t1"
proof -
  obtain l1 u1 s1 where g: "trace_gl1 w s t = (l1, u1, s1)" by (rule prod_cases3)
  obtain y l2 where e: "exit_eret_traced w reason st s1 = (y, l2)" by (metis surj_pair)
  have "list_all plain_line (trace_eret_seen (w_cfg w) s1 @ l2)"
    using traced_eret [OF e] by (simp add: trace_eret_seen_def plain_line_def)
  from seq [OF traced_gl1 [OF g] plain_lines [OF this]] have "P [] t (l1 @ trace_eret_seen (w_cfg w) s1 @ l2) u1" by simp
  then show ?thesis using assms
    by (auto simp: exit_sync_traced_def g e Let_def idle plain_line_def split: if_splits intro!: plain)
qed

lemma traced_msr:
  assumes "exit_msr_traced w st s t = (x, ls, t1)"
  shows "P [] t ls t1"
proof (cases "exit_ec s = 0x18")
  case False
  then show ?thesis using assms traced_sync by (simp add: exit_msr_traced_def)
next
  case True
  obtain ok st' s' where n: "service_nv2_access w (exit_esr s) st s = (ok, st', s')" by (rule prod_cases3)
  let ?a = "decode_esr (exit_esr s)"
  obtain l2 u where u: "trace_unmatched (w_cfg w) ?a ok s t = (l2, u)" by force
  obtain y l3 u3 where y: "exit_sync_traced w OHV_VMEXIT_MSR_TRAP st' s' u = (y, l3, u3)" by (rule prod_cases3)
  let ?l = "nv2_lines (w_cfg w) ?a ok st' s s'"
  have "list_all plain_line ?l" unfolding nv2_lines_def Let_def
    by (cases "nv2_block_of ?a") (simp_all add: plain_line_def pac_lines_def sys_insn_lines_def)
  then have l: "P [] t (?l @ l2) u" using seq [OF plain_lines unmatched [OF u]] by simp
  from seq [OF l traced_sync [OF y]] l show ?thesis
    using assms True by (auto simp: exit_msr_traced_def n u y Let_def split: if_splits)
qed

lemma traced_classify:
  assumes "exit_classify_traced w reason st s t = (x, ls, t1)"
  shows "P [] t ls t1"
  using assms physical traced_sync traced_msr
  by (auto simp: exit_classify_traced_def idle trace_unclassified_def plain_line_def
      split: if_splits prod.splits intro!: plain)

lemma traced_exit:
  assumes "exit_from_ro_traced w k st s t = (x, ls, t1)"
  shows "P (seen (w_cfg w) (snd (snd (exit_prepare_traced w k s t)))) t ls t1"
proof -
  obtain l1 u1 s1 where p: "exit_prepare_traced w k s t = (l1, u1, s1)" by (rule prod_cases3)
  obtain l2 u2 where g: "trace_guest_state (w_cfg w) k (note_kernel s1 st) s1 u1 = (l2, u2)" by (metis surj_pair)
  obtain y l3 u3 where c: "exit_classify_traced w (vmexit_reason s1) (note_kernel s1 st) (fill_exit s1) u2
      = (y, l3, u3)" by (rule prod_cases3)
  have "ls = l1 @ l2 @ l3" "t1 = u3" using assms by (simp_all add: exit_from_ro_traced_def p g c Let_def)
  with seq [OF traced_prepare [OF p] seq [OF traced_guest_state [OF g] traced_classify [OF c]]] show ?thesis by (simp add: p)
qed

end


section \<open>The rations\<close>

datatype ration = R_reason nat | R_after_geret | R_mirrored | R_state_used | R_ktimer | R_physical | R_gl1_dump | R_unmatched

definition ration_for :: "trace_line \<Rightarrow> ration option" where
  "ration_for l =
     (case l of
        Illegal_eret _ _ _ _ _ _ \<Rightarrow> None
      | Line g as \<Rightarrow>
          if g = T_reason \<and> as \<noteq> [] then Some (R_reason (unat (hd as)))
          else if g = T_after_geret then Some R_after_geret
          else if g = T_mirrored then Some R_mirrored
          else if g = T_state_used then Some R_state_used
          else if g = T_ktimer then Some R_ktimer
          else if g = T_physical then Some R_physical
          else if g = T_gl1_dump then Some R_gl1_dump
          else if g = T_unmatched then Some R_unmatched
          else None)"

definition rationed :: "ration \<Rightarrow> trace_line \<Rightarrow> bool" where
  "rationed r l \<longleftrightarrow> ration_for l = Some r"

fun spent :: "ration \<Rightarrow> trace_statics \<Rightarrow> u32" where
  "spent (R_reason v) t = hcr_shown t v"
| "spent R_after_geret t = glvl_n t"
| "spent R_mirrored t = mirror_n t"
| "spent R_state_used t = gxf_n t"
| "spent R_ktimer t = ktimer_n t"
| "spent R_physical t = physical_n t"
| "spent R_gl1_dump t = gl1_n t"
| "spent R_unmatched t = unmatched_n t"

fun ration_of :: "ration \<Rightarrow> nat" where
  "ration_of (R_reason v) = (if v < 8 then 40 else 0)"
| "ration_of R_after_geret = 12"
| "ration_of R_mirrored = 8"
| "ration_of R_state_used = 60"
| "ration_of R_ktimer = 8"
| "ration_of R_physical = 10"
| "ration_of R_gl1_dump = 4"
| "ration_of R_unmatched = 40"

text \<open>What the lines take from a ration is what its counter gains, and it stays within.\<close>

definition metered :: "unit list \<Rightarrow> trace_statics \<Rightarrow> trace_line list \<Rightarrow> trace_statics \<Rightarrow> bool" where
  "metered xs t ls t' \<longleftrightarrow> (\<forall>r. unat (spent r t) \<le> ration_of r \<longrightarrow>
     unat (spent r t') \<le> ration_of r \<and> length (filter (rationed r) ls) + unat (spent r t) = unat (spent r t'))"

lemma metered_idle: "metered xs t [] t"
  by (simp add: metered_def)

lemma metered_quiet:
  assumes "\<And>r. spent r t' = spent r t" "list_all (\<lambda>l. ration_for l = None) ls"
  shows "metered xs t ls t'"
  using assms by (simp add: metered_def rationed_def list_all_iff filter_empty_conv)

lemma metered_tick:
  assumes "ration_for l = Some r" "unat (spent r t) < ration_of r" "spent r t' = spent r t + 1"
    and "\<And>q. q \<noteq> r \<Longrightarrow> spent q t' = spent q t"
  shows "metered xs t [l] t'"
proof -
  have "ration_of r \<le> 60" by (cases r) simp_all
  then have n: "unat (spent r t') = unat (spent r t) + 1"
    using assms(2) unfolding assms(3) by (simp add: unat_word_ariths)
  have "unat (spent q t) \<le> ration_of q \<longrightarrow>
      unat (spent q t') \<le> ration_of q \<and> length (filter (rationed q) [l]) + unat (spent q t) = unat (spent q t')" for q
    using assms(1,2,4) n by (cases "q = r") (simp_all add: rationed_def)
  then show ?thesis unfolding metered_def by blast
qed

lemma spent_upd [simp]:
  "q \<noteq> R_reason v \<Longrightarrow> spent q (t\<lparr>hcr_shown := (hcr_shown t)(v := n)\<rparr>) = spent q t"
  "q \<noteq> R_after_geret \<Longrightarrow> spent q (t\<lparr>glvl_n := n\<rparr>) = spent q t"
  "q \<noteq> R_mirrored \<Longrightarrow> spent q (t\<lparr>mirror_n := n\<rparr>) = spent q t"
  "q \<noteq> R_state_used \<Longrightarrow> spent q (t\<lparr>gxf_last := x, gxf_n := n\<rparr>) = spent q t"
  "q \<noteq> R_ktimer \<Longrightarrow> spent q (t\<lparr>ktimer_n := n\<rparr>) = spent q t"
  "q \<noteq> R_physical \<Longrightarrow> spent q (t\<lparr>physical_n := n\<rparr>) = spent q t"
  "q \<noteq> R_gl1_dump \<Longrightarrow> spent q (t\<lparr>gl1_n := n\<rparr>) = spent q t"
  "q \<noteq> R_unmatched \<Longrightarrow> spent q (t\<lparr>unmatched_n := n\<rparr>) = spent q t"
  "spent q (all_settings c k t) = spent q t" "spent q (t\<lparr>all_emitted := e\<rparr>) = spent q t"
  "spent q (t\<lparr>kfault_last := x\<rparr>) = spent q t" "spent q (t\<lparr>fault_last_esr := x, fault_last_elr := y\<rparr>) = spent q t"
  by (cases q; simp add: all_settings_def)+

lemma unrationed_blocks:
  "trace_all c k s t = (ls, t1) \<Longrightarrow> metered xs t ls t1" "trace_kfault c s t = (ls, t1) \<Longrightarrow> metered xs t ls t1"
  "trace_fault c s t = (ls, t1) \<Longrightarrow> metered xs t ls t1"
  by (rule metered_quiet; auto simp: trace_all_def trace_kfault_def trace_fault_def Let_def ration_for_def
      split: if_splits)+

lemma rationed_blocks:
  "trace_hcr c s t = (ls, t1) \<Longrightarrow> metered xs t ls t1"
  "trace_glvl w s t = (ls, t1, s1) \<Longrightarrow> metered xs t ls t1"
  "trace_mirrored w s t = (ls, t1) \<Longrightarrow> metered xs t ls t1"
  "trace_gxfstate c s t = (ls, t1) \<Longrightarrow> metered xs t ls t1"
  "trace_ktimer c k st s t = (ls, t1) \<Longrightarrow> metered xs t ls t1"
  "trace_physical c reason s t = (ls, t1) \<Longrightarrow> metered xs t ls t1"
  "trace_unmatched c a ok s t = (ls, t1) \<Longrightarrow> metered xs t ls t1"
  "gl1_n t < 4 \<Longrightarrow> metered xs t [Line T_gl1_dump as] (t\<lparr>gl1_n := gl1_n t + 1\<rparr>)"
  by (auto simp: trace_hcr_def trace_glvl_def trace_mirrored_def trace_gxfstate_def trace_ktimer_def
      trace_physical_def trace_unmatched_def Let_def word_less_nat_alt ration_for_def metered_idle split: if_splits
      intro!: metered_tick)

interpretation rations: trace_law metered "\<lambda>_ _. []"
proof
  show "metered (xs @ ys) t (ls @ ls') t2" if "metered xs t ls t1" "metered ys t1 ls' t2" for xs ys t ls ls' t1 t2
    using that unfolding metered_def by fastforce
  show "metered [] t [l] t" if "plain_line l" for l t
    using that by (intro metered_quiet) (auto simp: plain_line_def ration_for_def split: trace_line.splits)
qed (rule metered_idle unrationed_blocks rationed_blocks; assumption)+

text \<open>Any number of exits, of any vCPUs, each in its own surroundings.\<close>

type_synonym exit_event = "world \<times> trace_clock \<times> ohv_statics \<times> VcpuSlot"

fun trace_run :: "exit_event list \<Rightarrow> tracing" where
  "trace_run [] t = ([], t)"
| "trace_run ((w, k, st, s) # es) t =
     (case exit_from_ro_traced w k st s t of (x, ls, t1) \<Rightarrow>
        case trace_run es t1 of (ls', t2) \<Rightarrow> (ls @ ls', t2))"

lemma run_metered: "metered [] t (fst (trace_run es t)) (snd (trace_run es t))"
proof (induction es t rule: trace_run.induct)
  case (1 t)
  then show ?case by (simp add: metered_idle)
next
  case (2 w k st s es t)
  obtain x ls t1 where x: "exit_from_ro_traced w k st s t = (x, ls, t1)" by (rule prod_cases3)
  obtain ls' t2 where r: "trace_run es t1 = (ls', t2)" by force
  have "metered [] t1 ls' t2" using 2 x r by simp
  from rations.seq [OF rations.traced_exit [OF x] this] show ?case by (simp add: x r)
qed

text \<open>C30: Over any number of exits, of any vCPUs, in any surroundings and under any settings, what is
  rationed is not printed more often than its ration: forty exit reasons of each of the first eight vCPUs and none
  of another, twelve guarded levels, eight mirrored returns, sixty states in use, eight timer dumps, ten physical
  interrupts, four dumps of the guarded bank, forty unmatched registers.\<close>

theorem trace_within_rations:
  "length (filter (rationed r) (fst (trace_run es initial_trace))) \<le> ration_of r"
proof -
  have z: "unat (spent r initial_trace) = 0" by (cases r) (simp_all add: initial_trace_def)
  with run_metered [of initial_trace es] show ?thesis unfolding metered_def by (metis add.right_neutral le0)
qed

section \<open>The kernel's faults\<close>

text \<open>A list with the elements left out that repeat the one before, the first of them \<open>x\<close>.\<close>

fun changes :: "'a \<Rightarrow> 'a list \<Rightarrow> 'a list" where
  "changes x [] = []"
| "changes x (y # ys) = (if y = x then changes x ys else y # changes y ys)"

lemma changes_remdups_adj: "changes x ys = tl (remdups_adj (x # ys))"
  by (induction x ys rule: changes.induct) auto

lemma changes_append: "changes x (ys @ zs) = changes x ys @ changes (last (x # ys)) zs"
  by (induction x ys rule: changes.induct) auto

definition kernel_esrs :: "trace_line list \<Rightarrow> u64 list" where
  "kernel_esrs ls = concat (map (\<lambda>l. case l of Line g (e # _) \<Rightarrow> if g = T_kernel_esr then [e] else [] | _ \<Rightarrow> []) ls)"

definition kernel_fault_seen :: "OhvCfg \<Rightarrow> VcpuSlot \<Rightarrow> u64 list" where
  "kernel_fault_seen cfg s =
     (if ohv_env cfg cfg_OHV_TRACE_KFAULT \<and> 0xfffffff000000000 \<le> slot_pc s then [ctx_rd s bk_esr_el1] else [])"

definition faults_traced :: "u64 list \<Rightarrow> trace_statics \<Rightarrow> trace_line list \<Rightarrow> trace_statics \<Rightarrow> bool" where
  "faults_traced xs t ls t' \<longleftrightarrow>
     kernel_esrs ls = changes (kfault_last t) xs \<and> kfault_last t' = last (kfault_last t # xs)"

lemma kernel_esrs_simps [simp]:
  "kernel_esrs [] = []" "kernel_esrs (ls @ ls') = kernel_esrs ls @ kernel_esrs ls'"
  by (simp_all add: kernel_esrs_def)

lemma faults_quiet:
  assumes "kfault_last t' = kfault_last t" "list_all (\<lambda>l. \<forall>e as. l \<noteq> Line T_kernel_esr (e # as)) ls"
  shows "faults_traced [] t ls t'"
  using assms by (auto simp: faults_traced_def kernel_esrs_def list_all_iff split: trace_line.splits list.splits)

interpretation faults: trace_law faults_traced kernel_fault_seen
proof
  show "faults_traced (xs @ ys) t (ls @ ls') t2"
    if "faults_traced xs t ls t1" "faults_traced ys t1 ls' t2" for xs ys t ls ls' t1 t2
    using that by (cases ys) (auto simp: faults_traced_def changes_append)
  show "faults_traced [] t [l] t" if "plain_line l" for l t
    using that by (intro faults_quiet) (auto simp: plain_line_def)
  show "faults_traced (kernel_fault_seen c s) t ls t1" if "trace_kfault c s t = (ls, t1)" for c s t ls t1
    using that by (auto simp: trace_kfault_def faults_traced_def kernel_fault_seen_def kernel_esrs_def Let_def
        split: if_splits)
qed (rule faults_quiet;
     auto simp: trace_hcr_def trace_all_def all_settings_def trace_glvl_def trace_mirrored_def trace_gxfstate_def
       trace_ktimer_def trace_fault_def trace_physical_def trace_unmatched_def Let_def split: if_splits)+

text \<open>C31: The trace of the kernel's faults is their history with the repetitions left out: over any run of exits the
  syndromes printed are, in order, those of the exits taken in the upper address range with the setting on, each printed exactly when it
  differs from the one before -- whichever vCPU that one was of, since they share the memory of the last.\<close>

theorem kernel_faults_traced:
  assumes "\<forall>(w, k, st, s) \<in> set es. only_prints w"
  shows "kernel_esrs (fst (trace_run es initial_trace)) =
    tl (remdups_adj (- 1 # concat (map (\<lambda>(w, k, st, s). kernel_fault_seen (w_cfg w) (exit_prepare w s)) es)))"
proof -
  let ?seen = "\<lambda>es. concat (map (\<lambda>(w, k, st, s). kernel_fault_seen (w_cfg w) (exit_prepare w s)) es)"
  have "faults_traced (?seen es) t (fst (trace_run es t)) (snd (trace_run es t))" for t
    using assms
  proof (induction es t rule: trace_run.induct)
    case (1 t)
    then show ?case by (simp add: faults.idle)
  next
    case (2 w k st s es t)
    obtain x ls t1 where x: "exit_from_ro_traced w k st s t = (x, ls, t1)" by (rule prod_cases3)
    obtain ls' t2 where r: "trace_run es t1 = (ls', t2)" by force
    have "faults_traced (?seen es) t1 ls' t2" using 2 x r by simp
    from faults.seq [OF faults.traced_exit [OF x] this] 2(2) show ?case
      by (simp add: x r prepare_traced_slot)
  qed
  then show ?thesis
    by (simp add: faults_traced_def changes_remdups_adj initial_trace_def)
qed

section \<open>The edges of an interrupt line\<close>

type_synonym pending_call = "OhvCfg \<times> ohv_statics \<times> u32 \<times> bool \<times> VcpuSlot"

fun pending_run :: "pending_call list \<Rightarrow> tracing" where
  "pending_run [] t = ([], t)"
| "pending_run ((cfg, st, ty, pending, s) # cs) t =
     (case set_pending_traced cfg st ty pending s t of (s', ls, t1) \<Rightarrow>
        case pending_run cs t1 of (ls', t2) \<Rightarrow> (ls @ ls', t2))"

definition edges :: "u64 \<Rightarrow> bool \<Rightarrow> trace_line list \<Rightarrow> bool list" where
  "edges v irq ls = concat (map (\<lambda>l. case l of
       Line g (i # k # p # _) \<Rightarrow> if g = T_irq_edge \<and> i = v \<and> k = flag irq then [p = 1] else [] | _ \<Rightarrow> []) ls)"

definition levels_asked :: "u64 \<Rightarrow> bool \<Rightarrow> pending_call list \<Rightarrow> bool list" where
  "levels_asked v irq cs = concat (map (\<lambda>(cfg, st, ty, pending, s).
       if slot_id s = v \<and> (ty \<noteq> HV_INTERRUPT_TYPE_FIQ) = irq then [pending] else []) cs)"

lemma set_pending_id [simp]: "slot_id (set_pending cfg ty p s) = slot_id s"
  by (simp add: set_pending_def ohv_set_fiq_level_def ohv_set_irq_level_def put_level_def Let_def)

lemma flag_simps [simp]: "flag a = flag b \<longleftrightarrow> a = b" "flag a = 1 \<longleftrightarrow> a"
  by (simp_all add: flag_def)

text \<open>The trace of a line's edges is the levels asked for, repetitions left out, for each vCPU and line apart.\<close>

theorem irq_edges_traced:
  assumes "\<forall>(cfg, st, ty, pending, s) \<in> set cs. ohv_env cfg cfg_OHV_TRACE_IRQ \<and> unat (slot_id s) < 64"
    and "unat v < 64"
  shows "edges v irq (fst (pending_run cs t)) = changes (irq_was t (unat v) irq) (levels_asked v irq cs)"
  using assms(1)
proof (induction cs t rule: pending_run.induct)
  case (1 t)
  then show ?case by (simp add: edges_def levels_asked_def)
next
  case (2 cfg st ty pending s cs t)
  obtain ls t1 where k: "trace_kirq cfg st ty pending s t = (ls, t1)" by force
  then have k': "edges v irq ls = []" "irq_was t1 = irq_was t"
    by (auto simp: trace_kirq_def edges_def Let_def split: if_splits)
  obtain ls' t2 where e: "trace_irq_edge cfg ty pending (set_pending cfg ty pending s) t1 = (ls', t2)" by force
  have on: "ohv_env cfg cfg_OHV_TRACE_IRQ" "unat (slot_id s) < 64" using 2(2) by auto
  have same: "slot_id s = v \<longleftrightarrow> unat (slot_id s) = unat v" by (simp add: word_unat_eq_iff)
  define kind where "kind = (ty \<noteq> HV_INTERRUPT_TYPE_FIQ)"
  define edge where "edge = (irq_was t (unat (slot_id s)) kind \<noteq> pending)"
  have "edges v irq ls' = (if edge \<and> slot_id s = v \<and> kind = irq then [pending] else [])"
    "irq_was t2 = (if edge then put_was (irq_was t) (unat (slot_id s)) kind pending else irq_was t)"
    unfolding k'(2) [symmetric] using e on
    by (auto simp: trace_irq_edge_def was_slot_def edges_def Let_def kind_def edge_def k'(2) [symmetric] split: if_splits)
  moreover have "levels_asked v irq [(cfg, st, ty, pending, s)] = (if slot_id s = v \<and> kind = irq then [pending] else [])"
    by (auto simp: levels_asked_def kind_def)
  ultimately have "edges v irq ls' = changes (irq_was t (unat v) irq) (levels_asked v irq [(cfg, st, ty, pending, s)])
      \<and> irq_was t2 (unat v) irq = last (irq_was t (unat v) irq # levels_asked v irq [(cfg, st, ty, pending, s)])"
    by (auto simp: edge_def put_was_def same)
  moreover have "levels_asked v irq ((cfg, st, ty, pending, s) # cs)
      = levels_asked v irq [(cfg, st, ty, pending, s)] @ levels_asked v irq cs"
    by (simp add: levels_asked_def)
  moreover have p: "set_pending_traced cfg st ty pending s t = (set_pending cfg ty pending s, ls @ ls', t2)"
    by (simp add: set_pending_traced_def then_say_def k e Let_def)
  moreover obtain ms t3 where r: "pending_run cs t2 = (ms, t3)" by force
  moreover have "edges v irq ms = changes (irq_was t2 (unat v) irq) (levels_asked v irq cs)"
    using 2 p r by auto
  moreover have "edges v irq (as @ bs) = edges v irq as @ edges v irq bs" for as bs by (simp add: edges_def)
  ultimately show ?case by (simp add: k'(1) changes_append)
qed

section \<open>A refused register\<close>

text \<open>The fields the refusal names are the encoding, taken apart.\<close>

lemma refusal_names_encoding:
  fixes enc :: u16
  shows "push_bit 14 (drop_bit 14 enc AND 3) OR push_bit 11 (drop_bit 11 enc AND 7)
      OR push_bit 7 (drop_bit 7 enc AND 0xf) OR push_bit 3 (drop_bit 3 enc AND 0xf) OR (enc AND 7) = enc"
proof -
  have m: "(3 :: u16) = mask 2" "(7 :: u16) = mask 3" "(0xf :: u16) = mask 4" by (simp_all add: mask_eq_exp_minus_1)
  have f: "bit (push_bit a (drop_bit a enc AND mask k)) n \<longleftrightarrow> a \<le> n \<and> n < a + k \<and> n < 16 \<and> bit enc n" for a k n
    by (auto simp: bit_push_bit_iff bit_and_iff bit_drop_bit_eq bit_mask_iff dest: bit_imp_le_length)
  have z: "enc AND mask 3 = push_bit 0 (drop_bit 0 enc AND mask 3)" by simp
  show ?thesis
    unfolding m z by (rule bit_word_eqI, unfold bit_or_iff f) auto
qed

section \<open>At work\<close>

definition traced_world :: world where
  "traced_world = test_world\<lparr>w_cfg := no_settings
     (cfg_OHV_TRACE_GLVL := Some ''1'', cfg_OHV_TRACE_GL1 := Some ''1'', cfg_OHV_TRACE_KFAULT := Some ''1'')\<rparr>"

definition any_clock :: trace_clock where "any_clock = \<lparr>k_time = 1, k_time_again = 2, k_pct = 3\<rparr>"

lemma traced_world_prints: "only_prints traced_world"
  by (simp add: only_prints_def traced_world_def test_world_def)

theorem tracing_is_transparent_witness:
  "only_prints traced_world \<and> ohv_env (w_cfg traced_world) cfg_OHV_TRACE_GLVL
     \<and> fst (exit_from_ro_traced traced_world any_clock initial_statics geret_guest initial_trace)
         = exit_from_ro traced_world initial_statics geret_guest"
  using tracing_is_transparent [OF traced_world_prints] traced_world_prints
  by (simp add: traced_world_def ohv_env_def)

text \<open>A synchronization that does change something is seen: the trace is then part of what happens.\<close>

definition changing_world :: world where
  "changing_world = test_world\<lparr>w_cfg := no_settings(cfg_OHV_TRACE_GLVL := Some ''1''),
     w_sync := (\<lambda>m. (HV_SUCCESS, wr64 m OHV_RO_EXIT_ESR 7))\<rparr>"

definition after_geret :: VcpuSlot where
  "after_geret = new_VcpuSlot\<lparr>nv_off_for_geret := True\<rparr>"

lemma glvl_trace_is_visible:
  "exit_esr (snd (snd (exit_prepare_traced changing_world any_clock after_geret initial_trace))) = 7"
  "exit_esr (exit_prepare changing_world after_geret) = 0"
proof -
  have c: "w_cfg changing_world = no_settings(cfg_OHV_TRACE_GLVL := Some ''1'')" "ohv_env (w_cfg changing_world) v
      \<longleftrightarrow> v = cfg_OHV_TRACE_GLVL" for v
    by (simp_all add: changing_world_def ohv_env_def)
  define s1 where "s1 = after_geret\<lparr>ctx := wr64 (ctx after_geret) OHV_RO_EXIT_ESR 7\<rparr>"
  have w: "ctx_rd after_geret off = 0" for off by (simp add: ctx_rd_def after_geret_def new_VcpuSlot_def)
  have r: "exit_nv_restore after_geret = after_geret" by (simp add: exit_nv_restore_def exit_ec_def exit_esr_def w bits_of_def)
  have y: "snd (sync_ctx changing_world after_geret) = s1" by (simp add: sync_ctx_def changing_world_def s1_def)
  have g: "\<exists>l u. trace_glvl changing_world after_geret t = (l, u, s1)" if "glvl_n t = 0" for t
    using that by (simp add: trace_glvl_def c(2) y) (simp add: after_geret_def)
  have q: "slot_pc after_geret = 0" "slot_pc s1 = 0"
    by (simp_all add: slot_pc_def w) (simp add: s1_def ctx_rd_def layout after_geret_def new_VcpuSlot_def)
  have n: "exit_mirror_gl1 changing_world s = s" for s by (simp add: exit_mirror_gl1_def c(2))
  have a: "exit_rearm_nv c s = s" if "slot_pc s = 0" for c s using that by (simp add: exit_rearm_nv_def)
  obtain l u where l: "trace_glvl changing_world after_geret initial_trace = (l, u, s1)"
    using g [of initial_trace] by (auto simp: initial_trace_def)
  have "snd (snd (exit_prepare_traced changing_world any_clock after_geret initial_trace)) = s1"
    by (simp add: exit_prepare_traced_def then_say_def trace_hcr_def trace_all_def trace_nv_restored_def say_def c(2)
        r n l a q Let_def split: prod.split)
  then show "exit_esr (snd (snd (exit_prepare_traced changing_world any_clock after_geret initial_trace))) = 7"
    by (simp add: s1_def exit_esr_def ctx_rd_def)
  show "exit_esr (exit_prepare changing_world after_geret) = 0"
    by (simp add: exit_prepare_def r n a q exit_esr_def w)
qed

text \<open>An AArch32 PSTATE, returned to and reported.\<close>

definition bad_return :: VcpuSlot where
  "bad_return = (ctx_wr bk_spsr_el1 0x10 (ctx_wr OHV_RO_EXIT_ESR 0x6a000000 new_VcpuSlot))\<lparr>guest_at_el2 := True\<rparr>"

lemma bad_return_words:
  "is_eret bad_return" "ctx_rd bad_return ext_spsr_gl1 = 0" "guest_at_el2 bad_return"
  by (simp_all add: is_eret_def exit_ec_def exit_esr_def bad_return_def bits_of_def layout)

theorem illegal_returns_reported_witness:
  "case exit_eret_traced test_world 1 initial_statics bad_return of ((a, st', s'), ls) \<Rightarrow>
     a = EXIT_KEEP_RUNNING \<and> \<not> hw_mode_ok (slot_cpsr s') \<and> filter is_illegal_line ls \<noteq> []"
proof -
  obtain a st' s' ls where x: "exit_eret_traced test_world 1 initial_statics bad_return = ((a, st', s'), ls)"
    by (metis surj_pair)
  have g: "\<not> spsr_guarded (ctx_rd bad_return ext_spsr_gl1)" by (simp add: spsr_guarded_def bad_return_words)
  have "a = EXIT_KEEP_RUNNING" "s' = software_eret bad_return"
    using x g by (simp_all add: exit_eret_traced_def exit_software_eret_traced_def eret_is_guarded_def bad_return_words
        spsr_guarded_def Let_def)
  moreover have "spsr_illegal_reason (ctx_rd bad_return bk_spsr_el1) \<noteq> None"
    by (simp add: bad_return_def layout spsr_illegal_reason_def)
  ultimately have "a = EXIT_KEEP_RUNNING \<and> \<not> hw_mode_ok (slot_cpsr s')" by (simp add: software_eret_mode)
  with illegal_returns_reported [OF bad_return_words(1) x] g show ?thesis by (simp add: x)
qed

definition kernel_exit :: "u64 \<Rightarrow> exit_event" where
  "kernel_exit esr = (traced_world, any_clock, initial_statics,
     ctx_wr bk_esr_el1 esr (ctx_wr OHV_RW_PC 0xfffffff06b000000 new_VcpuSlot))"

theorem kernel_faults_traced_witness:
  "kernel_esrs (fst (trace_run (map kernel_exit [5, 5, 6, 6, 5]) initial_trace)) = [5, 6, 5]"
proof -
  have p: "\<forall>(w, k, st, s) \<in> set (map kernel_exit es). only_prints w" for es
    by (auto simp: kernel_exit_def traced_world_prints)
  have f: "kernel_fault_seen (w_cfg traced_world) (exit_prepare traced_world
      (ctx_wr bk_esr_el1 esr (ctx_wr OHV_RW_PC 0xfffffff06b000000 new_VcpuSlot))) = [esr]" for esr
  proof -
    let ?s = "ctx_wr bk_esr_el1 esr (ctx_wr OHV_RW_PC 0xfffffff06b000000 new_VcpuSlot)"
    have "\<not> nv_off_for_geret ?s" by (simp add: ctx_wr_def new_VcpuSlot_def)
    then have "exit_prepare traced_world ?s = ?s \<or> exit_prepare traced_world ?s = set_nv True ?s"
      by (simp add: exit_prepare_def exit_nv_restore_def exit_mirror_gl1_def exit_rearm_nv_def traced_world_def
          ohv_env_def)
    then show ?thesis
      by (auto simp: kernel_fault_seen_def traced_world_def ohv_env_def slot_pc_def layout)
  qed
  show ?thesis
    unfolding kernel_faults_traced [OF p] by (simp add: kernel_exit_def f)
qed

end
