(* ===== verification/Spec2Isabelle.thy ===== *)
theory Spec2Isabelle
  imports Ohv_Prelude Ohv_Context Ohv_Cfg Ohv_State Ohv_Vm Ohv_Sysreg Ohv_Caps Ohv_Nv2 Ohv_Bank Ohv_Vcpu Ohv_Irq Ohv_Exit Ohv_Run Ohv_Gic Ohv_Misc Ohv_Api
    Ohv_Enums Ohv_Handles Ohv_Smoke Ohv_Decode Ohv_Probe Ohv_Alias Ohv_Object Ohv_Trace
begin

text \<open>
  OpenHypervisor is a user-space library that drives the Hypervisor traps of the kernel directly and
  answers for itself what the system framework would: it keeps the process's one VM and its 64 vCPU
  slots, maps guest memory, reads and writes vCPU registers in two pages shared with the kernel,
  runs vCPUs, decides for every exit whether the guest is re-entered or the virtual machine monitor
  (VMM) is told, emulates a guest hypervisor's EL2 on the hardware's EL1, and keeps an interrupt
  controller.  This development is a shallow embedding of that library: one definition per function, in
  the order of the sources, and the theorems that make each part correct.  This theory adds what spans the parts: an interrupt the VMM
  raises, followed through the run loop to the guest.

  \<^bold>\<open>The theories\<close>, each with the part of \<open>src/\<close> it models:

    \<^item> \<open>Ohv_Prelude\<close> -- return codes (\<open>include/openhyp/ohv_core.h\<close>), memory as bytes with the little-endian
      64-, 32- and 16-bit accesses, bounded association tables, the collections \<open>layout\<close> and \<open>masks\<close> that
      the numerals of the code are unfolded with.
    \<^item> \<open>Ohv_Context\<close> -- the two shared pages of \<open>include/openhyp/ohv_context.h\<close> as C structures laid out
      by the C rules, with the offsets and state bits.
    \<^item> \<open>Ohv_Cfg\<close> -- the environment settings of \<open>src/ohv_vcpu.cpp\<close>, read at start and settled at the
      first run.
    \<^item> \<open>Ohv_State\<close> -- the process's globals (\<open>src/ohv_internal.h\<close>, \<open>src/ohv_state.cpp\<close>, the file-local
      statics), a vCPU slot, the argument structures of the traps, and the kernel as a parameter: a record
      of functions on a kernel state.
    \<^item> \<open>Ohv_Vm\<close> -- \<open>src/ohv_vm.cpp\<close>: configuration, creation, nested address spaces, mappings and the
      translation of guest addresses.
    \<^item> \<open>Ohv_Sysreg\<close>, \<open>Ohv_Caps\<close> -- the system register tables (\<open>src/ohv_sysreg_table.cpp\<close>,
      \<open>src/ohv_sysreg_apple.cpp\<close>) and the identification registers of \<open>src/ohv_misc.cpp\<close>.
    \<^item> \<open>Ohv_Nv2\<close> -- \<open>service_nv2_access\<close>: a trapped register access, block by block, and the stage-1 walk
      behind the address translation instructions.
    \<^item> \<open>Ohv_Bank\<close> -- the interface every register file of the library offers (a locale of registers that
      are written and read by number), with the laws of batches and snapshots; interpreted on the general
      registers and the control fields in \<open>Ohv_Vcpu\<close> and on four banks of the interrupt controller in \<open>Ohv_Gic\<close>.
    \<^item> \<open>Ohv_Vcpu\<close> -- creation, destruction, register and control access of \<open>src/ohv_vcpu.cpp\<close>.
    \<^item> \<open>Ohv_Irq\<close> -- the gates and levels of the two virtual interrupt lines, the timers, the monitor band.
    \<^item> \<open>Ohv_Exit\<close> -- \<open>exit_from_ro\<close> and what it calls.
    \<^item> \<open>Ohv_Trace\<close> -- the diagnostics of \<open>src/ohv_vcpu.cpp\<close>: the exit, the trapped access, the levels and the run
      loop with the lines they print and the statics that ration them (the locale \<open>trace_law\<close> carries what holds of every
      block over to every exit).
    \<^item> \<open>Ohv_Run\<close> -- \<open>hv_vcpu_run\<close> and \<open>hv_vcpus_exit\<close>.
    \<^item> \<open>Ohv_Gic\<close> -- \<open>src/ohv_gic.cpp\<close>; \<open>Ohv_Misc\<close> -- the rest of \<open>src/ohv_misc.cpp\<close>.
    \<^item> \<open>Ohv_Api\<close> -- \<open>include/openhyp/openhyp.hpp\<close> and \<open>src/ohv_extras.cpp\<close>, and the library as a whole: the step
      relation \<open>api_step\<close> whose steps are the entry points.
    \<^item> \<open>Ohv_Enums\<close> -- the names and numbers of \<open>include/openhyp/hv_compat_enums.h\<close> that a VMM passes in (general,
      vector, system and feature registers), against the tables and switches that receive them.
    \<^item> \<open>Ohv_Handles\<close> -- the owning classes \<open>Vm\<close> and \<open>Vcpu\<close> of \<open>openhyp.hpp\<close>: construction, destruction, move and
      move assignment, and the programs that mix them with entry points as a step relation.
    \<^item> \<open>Ohv_Smoke\<close> -- the methods of those classes, each with the code it throws, and the bring-up program of
      \<open>tests/smoke.cpp\<close> written with them.
    \<^item> \<open>Ohv_Decode\<close>, \<open>Ohv_Probe\<close> -- \<open>tools/offset_probe.cpp\<close>: its instruction decoder, and the walk over the
      framework's call graph with the table of visited addresses and the verdicts.
    \<^item> \<open>Ohv_Alias\<close> -- the forwarding names of \<open>src/ohv_alias.cpp\<close>, and which of the matcher's seeds they leave out.
    \<^item> \<open>Ohv_Object\<close> -- \<open>src/ohv_object.cpp\<close>: the allocation of handles, and the C layout of the structures in them.

  \<^bold>\<open>How state and operations correspond.\<close>  The globals are the record \<open>ohv_vm_state\<close>, a vCPU is the record
  \<open>VcpuSlot\<close> with the shared pages as one memory \<open>ctx\<close>; a field the C++ reads through a structure is a
  \<open>rd64\<close> at the offset the layout gives.  An entry point takes the calling thread (\<open>me\<close>, for
  \<open>tl_current_vcpu\<close> and the owner), its arguments, and the state, and returns the code, what it stored
  through its output pointers (\<open>None\<close> when it stored nothing) and the new state; a pointer argument the
  code tests against null is a boolean or an option.  Everything the operating system answers --
  the counter, the environment, the bytes behind a guest address, the synchronizing trap -- is in the
  record \<open>world\<close> or is an argument.  Machine words keep their width.

  \<^bold>\<open>What the lemmas show.\<close>  Layout: every static assertion of the context header, and the offset every system
  register is kept at.  Trapped accesses: one instruction each, what is written is read, the timers keep
  the guest's clock, the walk refines the tree of tables in memory.  Interrupts: a level stands only where
  the guest takes it at once, and one that is held is not lost.  Exits: which the VMM is told and with
  which reason, the round trips of an emulated HVC with its ERET and of a guarded return; which returns are reported as illegal; that
  tracing observes and stays within its rations.  The run
  loop: a request to leave is served in the very pass it reaches.  The controller: a shared
  interrupt sits in exactly one list register.  The public register names: each one keeps what is written
  to it.  Handles: no two objects own one vCPU, and what an object owns is there unless the VM went first.
  The bring-up program: all its checks pass over a kernel that grants what it is asked.  The offset matcher:
  its table is a set, every walk ends, what it reports was named by an instruction.  The whole: \<open>api_invariant\<close>, by rule induction over
  every sequence of calls by any threads.  Several theorems state behaviour that differs from the
  comments of the code; the manifest lists them as findings.

  \<^bold>\<open>Bounds and fuel.\<close>  The run loop may go on for ever, so \<open>vcpu_run\<close> runs over a list of turns, one per
  pass, each with what the surroundings do in it (the world, what the run trap makes of the shared
  pages, what other threads do to the slot meanwhile); \<open>None\<close> says the list ended first.  Its theorems
  are stated for every list, and \<open>cancel_is_served\<close> says when it returns.  \<open>run_loop\<close> is recursive on
  the iterations left, \<open>stage1_walk\<close> on the levels left, which are at most three.  The matcher's
  probing loop is a partial function, shown to stop because its table is never full; its loop over the
  stack, \<open>walk_loop\<close>, is a function on a weight that each body lowers, a body at depth \<open>d\<close> outweighing
  all that its 1536 words can push at depth \<open>d + 1\<close>.  No other loop of the code is unbounded.

  \<^bold>\<open>Assumptions.\<close>  The kernel is unconstrained except where a theorem says so: the round trips of exits assume
  that the synchronizing trap changes nothing the second time.  A turn's concurrent actions are those of other threads:
  they may raise interrupts and requests but leave a slot used, owned and numbered as it was
  (\<open>turn_ok\<close>).  The entry points themselves are taken as atomic, as their locks make most of them.

  \<^bold>\<open>Not modelled.\<close>  The text of the lines printed (a line is its format's name and its
  numbers), and the lines of the other source files, of the timers and of the creation of a vCPU; the locks themselves and data races between an
  entry point and a running vCPU beyond the points the turns name; the Objective-C
  runtime, a parameter of \<open>Ohv_Object\<close> (the entry points that allocate a handle take whether it succeeded as an
  argument); the assembly that enters the kernel (\<open>src/ohv_trap.cpp\<close>); the lines the
  offset matcher prints, and the dynamic linker, whose answers are the record \<open>image\<close>; the generator of the compatibility headers.
\<close>

section \<open>An interrupt, from the VMM to the guest\<close>

text \<open>The vCPU as the guest is entered with it, in every pass of a run.\<close>

fun entries :: "turn list \<Rightarrow> ohv_statics \<Rightarrow> VcpuSlot \<Rightarrow> VcpuSlot list" where
  "entries [] st s = []"
| "entries (t # ts) st s =
     snd (ohv_expire_timers (t_world t) st s)
       # (case run_turn t st s of (None, st', s') \<Rightarrow> entries ts st' s' | (Some _, _, _) \<Rightarrow> [])"

text \<open>Other threads may raise a line; that they leave a raised one alone is a condition.\<close>

definition keeps_lines :: "(VcpuSlot \<Rightarrow> VcpuSlot) \<Rightarrow> bool" where
  "keeps_lines f \<longleftrightarrow> (\<forall>q. (vmm_irq q \<longrightarrow> vmm_irq (f q)) \<and> (vmm_fiq q \<longrightarrow> vmm_fiq (f q)))"

lemma entries_levels:
  "e \<in> set (entries ts st s) \<Longrightarrow> \<exists>t \<in> set ts.
     bit (ctx_rd e ctl_hcr_el2) 6 = want_fiq (w_cfg (t_world t)) e
   \<and> bit (ctx_rd e ctl_hcr_el2) 7 = want_irq (w_cfg (t_world t)) e"
proof (induction ts arbitrary: st s)
  case (Cons t ts)
  obtain st1 s1 where x: "ohv_expire_timers (t_world t) st s = (st1, s1)" by force
  show ?case
  proof (cases "e = s1")
    case True
    then show ?thesis using expire_levels [OF x] by simp
  next
    case False
    then obtain st' s' where "e \<in> set (entries ts st' s')"
      using Cons.prems x by (auto split: prod.splits option.splits)
    from Cons.IH [OF this] show ?thesis by simp
  qed
qed simp

lemma run_turn_lines:
  assumes "run_turn t st s = (r, st', s')" "keeps_lines (t_during t)" "keeps_lines (t_between t)"
  shows "(vmm_irq s \<longrightarrow> vmm_irq s') \<and> (vmm_fiq s \<longrightarrow> vmm_fiq s')"
proof -
  obtain st1 s1 where x: "ohv_expire_timers (t_world t) st s = (st1, s1)" by force
  obtain e m where m: "t_run t (ctx s1) = (e, m)" by force
  define s2 where "s2 = t_during t (s1\<lparr>ctx := m\<rparr>)"
  define s3 where "s3 = s2\<lparr>wfi_ticks := wfi_ticks s2 + (t_after t - t_before t), run_count := run_count s2 + 1\<rparr>"
  obtain a st4 s4 where y: "exit_from_ro (t_exit_world t) st1 s3 = (a, st4, s4)" by (rule prod_cases3)
  have e: "enter_guest t st s = (e, st1, s3)" by (simp add: enter_guest_def x m s2_def s3_def Let_def)
  have l: "(vmm_irq s \<longrightarrow> vmm_irq s3) \<and> (vmm_fiq s \<longrightarrow> vmm_fiq s3)"
    using slot_metaD [OF expire_meta [OF x]] assms(2)
    by (simp add: s3_def s2_def keeps_lines_def)
  have "vmm_irq s4 = vmm_irq s3" "vmm_fiq s4 = vmm_fiq s3"
    using slot_metaD [OF exit_meta [of "t_exit_world t" st1 s3]] by (simp_all add: y)
  then have b: "(vmm_irq s \<longrightarrow> vmm_irq (t_between t s4)) \<and> (vmm_fiq s \<longrightarrow> vmm_fiq (t_between t s4))"
    using l assms(3) by (simp add: keeps_lines_def)
  have c: "vmm_irq (cancelled q) = vmm_irq q" "vmm_fiq (cancelled q) = vmm_fiq q" for q
    by (simp_all add: cancelled_def set_exit_reason_def)
  from assms(1) l b show ?thesis
    by (auto simp: run_turn_def e y Let_def c split: if_split_asm)
qed

lemma entries_lines:
  assumes "\<forall>t \<in> set ts. keeps_lines (t_during t) \<and> keeps_lines (t_between t)" "e \<in> set (entries ts st s)"
  shows "(vmm_irq s \<longrightarrow> vmm_irq e) \<and> (vmm_fiq s \<longrightarrow> vmm_fiq e)"
  using assms
proof (induction ts arbitrary: st s)
  case (Cons t ts)
  obtain st1 s1 where x: "ohv_expire_timers (t_world t) st s = (st1, s1)" by force
  show ?case
  proof (cases "e = s1")
    case True
    then show ?thesis using slot_metaD [OF expire_meta [OF x]] by simp
  next
    case False
    obtain r st' s' where u: "run_turn t st s = (r, st', s')" by (rule prod_cases3)
    with False Cons.prems(2) x have r: "run_turn t st s = (None, st', s')" "e \<in> set (entries ts st' s')"
      by (simp_all split: option.splits)
    from Cons.IH [OF _ r(2)] run_turn_lines [OF r(1)] Cons.prems(1) show ?thesis by auto
  qed
qed simp


text \<open>The witness: a parked vCPU of a VM, its IRQ raised by thread 5 and entered.\<close>

lemma parked_entry:
  assumes "ohv_expire_timers w st s = (st', s')" "in_wfx s"
  shows "in_wfx s'"
proof -
  obtain st1 s1 where n: "ohv_note_image_band st s = (st1, s1)" by force
  then have "st1 = st'" using assms(1) by (auto simp: ohv_expire_timers_def Let_def split: prod.splits)
  with n have n: "ohv_note_image_band st s = (st', s1)" by simp
  have "in_wfx s1" using note_band_frame(3) [OF n] assms(2) by auto
  then show ?thesis using expire_gate_view [OF assms(1) n] by (simp add: gate_view_def)
qed


end
